(* ===== verification/VtyPrelude.thy ===== *)
theory VtyPrelude
  imports Main "HOL-Library.Word"
begin

text \<open>
  Shared vocabulary of the sPAPR VTY development: the machine types of
  \<^verbatim>\<open>src/hw/spapr_vty.c\<close> (\<^verbatim>\<open>uint8_t\<close>, \<^verbatim>\<open>uint32_t\<close>, \<^verbatim>\<open>target_ulong\<close>), the ways a
  C operation can leave its normal control flow (\<open>fault\<close>), the functions whose
  address the code takes (\<open>fnptr\<close>), the collections of facts
  the component theories feed to the simplifier, runs of a step function over a list of
  events with the lemmas on totality, refinement and logs that every machine of the
  development instantiates, and the arithmetic of 32-bit cursors and of list segments
  on which every ring-buffer proof rests.

  The cursor lemmas are the place where the wrap-around of \<^verbatim>\<open>uint32_t\<close> is dealt with
  once and for all: a cursor is a \<open>32 word\<close>, \<open>+\<close> and \<open>-\<close> wrap modulo \<open>2 ^ 32\<close>, and
  because the buffer size 16 divides \<open>2 ^ 32\<close> the slot index \<open>unat c mod 16\<close> moves on
  by one at every increment, also across the wrap.
\<close>

unbundle bit_operations_syntax

section \<open>Machine types\<close>

type_synonym u8 = "8 word"
type_synonym u32 = "32 word"
type_synonym u64 = "64 word"
type_synonym target_ulong = "64 word"

text \<open>
  What the C code does instead of returning: a failed \<^verbatim>\<open>assert\<close>, \<^verbatim>\<open>exit(1)\<close>, the use
  of a \<^verbatim>\<open>NULL\<close> character device, a callback without its \<^verbatim>\<open>opaque\<close> pointer, the use of
  a pointer to a character device that is not there, the use of a bus child that is no VTY
  through a \<^verbatim>\<open>VIOsPAPRVTYDevice\<close> pointer, a read or a write behind the end of the
  caller's buffer, and a call through a function pointer that does not point to a function
  of the type called. A fallible operation returns \<open>fault + 'a\<close>.
\<close>

datatype fault =
  Assert_failed | Exit_failure | Null_chardev | Null_opaque | Wild_pointer | Bad_cast |
  Out_of_bounds | Bad_call

type_synonym 'a result = "fault + 'a"

definition is_ok :: "'a result \<Rightarrow> bool" where
  "is_ok r = (case r of Inl _ \<Rightarrow> False | Inr _ \<Rightarrow> True)"

definition bind_result :: "'a result \<Rightarrow> ('a \<Rightarrow> 'b result) \<Rightarrow> 'b result" where
  "bind_result r f = (case r of Inl e \<Rightarrow> Inl e | Inr x \<Rightarrow> f x)"

text \<open>
  The functions of \<^verbatim>\<open>src/hw/spapr_vty.c\<close> whose address the code takes: the two callbacks
  handed to the character backend, the device initialiser and the class initialiser
  stored in tables, the two hypercall handlers, and the module initialiser. A function
  pointer is the tag of the function it points to; the component that calls through
  the pointer says which HOL function a tag stands for.
\<close>

datatype fnptr =
    FN_vty_can_receive
  | FN_vty_receive
  | FN_spapr_vty_init
  | FN_spapr_vty_class_init
  | FN_h_put_term_char
  | FN_h_get_term_char
  | FN_spapr_vty_register_types

section \<open>Runs\<close>

text \<open>
  Every machine of the development, the device, the bus, the emulator behind its tables,
  the memory and the design, runs a list of events one after the other and stops at the
  first fault. \<open>run_result step\<close> is that run for a step function \<open>step\<close>; it returns
  the responses in the order of the events and the final state. \<open>run_ok P step s es\<close>
  says that each event of \<open>es\<close> satisfies \<open>P\<close> in the state in which the run reaches it.
  \<open>run_requests req step s es\<close> collects \<open>req\<close> of each event in the state in which the
  run reaches it.
\<close>

fun run_result :: "('s \<Rightarrow> 'e \<Rightarrow> ('r \<times> 's) result) \<Rightarrow> 's \<Rightarrow> 'e list \<Rightarrow> ('r list \<times> 's) result" where
  "run_result step s [] = Inr ([], s)"
| "run_result step s (e # es) =
     bind_result (step s e) (\<lambda>(r, s').
       bind_result (run_result step s' es) (\<lambda>(rs, s''). Inr (r # rs, s'')))"

fun run_ok :: "('s \<Rightarrow> 'e \<Rightarrow> bool) \<Rightarrow> ('s \<Rightarrow> 'e \<Rightarrow> ('r \<times> 's) result) \<Rightarrow> 's \<Rightarrow> 'e list \<Rightarrow> bool" where
  "run_ok P step s [] = True"
| "run_ok P step s (e # es) =
     (P s e \<and> (case step s e of Inl f \<Rightarrow> True | Inr (r, s') \<Rightarrow> run_ok P step s' es))"

fun run_requests ::
  "('s \<Rightarrow> 'e \<Rightarrow> 'q list) \<Rightarrow> ('s \<Rightarrow> 'e \<Rightarrow> ('r \<times> 's) result) \<Rightarrow> 's \<Rightarrow> 'e list \<Rightarrow> 'q list" where
  "run_requests req step s [] = []"
| "run_requests req step s (e # es) =
     req s e @ (case step s e of Inl f \<Rightarrow> [] | Inr (r, s') \<Rightarrow> run_requests req step s' es)"

section \<open>Fact collections\<close>

named_theorems vty_defs "definitions of the device model, for unfolding"
named_theorems vty_inv_intros "operations preserve the device invariant"

section \<open>Results\<close>

lemma is_ok_simps [simp]:
  "is_ok (Inr x)" "\<not> is_ok (Inl e)"
  by (simp_all add: is_ok_def)

lemma is_ok_iff: "is_ok r \<longleftrightarrow> (\<exists>x. r = Inr x)"
  by (cases r) simp_all

lemma bind_result_simps [simp]:
  "bind_result (Inl e) f = Inl e"
  "bind_result (Inr x) f = f x"
  by (simp_all add: bind_result_def)

lemma bind_result_eq_Inr_iff:
  "bind_result r f = Inr y \<longleftrightarrow> (\<exists>x. r = Inr x \<and> f x = Inr y)"
  by (cases r) simp_all

lemma bind_result_eq_Inl_iff:
  "bind_result r f = Inl e \<longleftrightarrow> r = Inl e \<or> (\<exists>x. r = Inr x \<and> f x = Inl e)"
  by (cases r) simp_all

lemma bind_result_assoc:
  "bind_result (bind_result r f) g = bind_result r (\<lambda>x. bind_result (f x) g)"
  by (cases r) simp_all

lemma bind_result_Inr [simp]: "bind_result r Inr = r"
  by (cases r) simp_all

section \<open>Lists of options\<close>

lemma those_map_Some:
  "those (map h xs) = Some ys \<Longrightarrow> ys = map (\<lambda>x. the (h x)) xs \<and> list_all (\<lambda>x. h x \<noteq> None) xs"
  by (induction xs arbitrary: ys) (auto split: option.splits)

section \<open>Runs of a step function\<close>

lemma run_result_append:
  "run_result step s (es @ es') =
     bind_result (run_result step s es) (\<lambda>(rs, s').
       bind_result (run_result step s' es') (\<lambda>(rs', s''). Inr (rs @ rs', s'')))"
proof (induction es arbitrary: s)
  case Nil
  show ?case
    by (cases "run_result step s es'") auto
next
  case (Cons e es)
  show ?case
  proof (cases "step s e")
    case (Inl f)
    then show ?thesis by simp
  next
    case (Inr x)
    obtain r s1 where x: "x = (r, s1)"
      by (cases x)
    show ?thesis
    proof (cases "run_result step s1 es")
      case (Inl f)
      with Inr x Cons [of s1] show ?thesis by simp
    next
      case run: (Inr y)
      with Inr x Cons [of s1] show ?thesis
        by (cases y; cases "run_result step (snd y) es'") auto
    qed
  qed
qed

lemma run_ok_always [simp]: "run_ok (\<lambda>s e. True) step s es"
  by (induction es arbitrary: s) (auto split: sum.splits)

lemma run_ok_list_all: "list_all P es \<Longrightarrow> run_ok (\<lambda>s. P) step s es"
  by (induction es arbitrary: s) (auto split: sum.splits)

lemma run_ok_conj:
  "run_ok P step s es \<Longrightarrow> run_ok Q step s es \<Longrightarrow> run_ok (\<lambda>s e. P s e \<and> Q s e) step s es"
  by (induction es arbitrary: s) (auto split: sum.splits)

lemma run_ok_stable:
  assumes "\<And>s e r s'. step s e = Inr (r, s') \<Longrightarrow> P s' = P s"
  shows "list_all (P s) es \<Longrightarrow> run_ok P step s es"
  by (induction es arbitrary: s) (auto split: sum.splits simp: assms)

text \<open>
  Progress: when every step from a state that satisfies \<open>I\<close> returns in such a state, a
  run returns, with one response for each event.
\<close>

lemma run_result_total:
  assumes "I s" and "run_ok P step s es"
    and step: "\<And>s e. I s \<Longrightarrow> P s e \<Longrightarrow> \<exists>r s'. step s e = Inr (r, s') \<and> I s'"
  shows "\<exists>rs s'. run_result step s es = Inr (rs, s') \<and> length rs = length es \<and> I s'"
  using assms(1,2)
proof (induction es arbitrary: s)
  case Nil
  then show ?case by simp
next
  case (Cons e es)
  then obtain r s1 where s1: "step s e = Inr (r, s1)" "I s1"
    using step [of s e] by auto
  with Cons.prems obtain rs s' where "run_result step s1 es = Inr (rs, s')"
    and "length rs = length es" and "I s'"
    using Cons.IH [of s1] by auto
  with s1 show ?case
    by simp
qed

text \<open>
  Refinement: when an abstraction commutes with every step, faults included, it commutes
  with every run.
\<close>

lemma run_result_refines:
  assumes "I s" and "run_ok P step s es"
    and inv: "\<And>s e r s'. I s \<Longrightarrow> P s e \<Longrightarrow> step s e = Inr (r, s') \<Longrightarrow> I s'"
    and sim: "\<And>s e. I s \<Longrightarrow> P s e \<Longrightarrow>
                map_sum id (map_prod f ab) (step s e) = astep (ab s) (g e)"
  shows "map_sum id (map_prod (map f) ab) (run_result step s es) =
           run_result astep (ab s) (map g es)"
  using assms(1,2)
proof (induction es arbitrary: s)
  case Nil
  then show ?case by simp
next
  case (Cons e es)
  from Cons.prems have e: "P s e"
    by simp
  note sim1 = sim [OF Cons.prems(1) e, symmetric]
  show ?case
  proof (cases "step s e")
    case (Inl x)
    with sim1 show ?thesis by simp
  next
    case (Inr x)
    obtain r s1 where x: "x = (r, s1)"
      by (cases x)
    with Inr Cons.prems e have "I s1" and "run_ok P step s1 es"
      by (auto dest: inv)
    then have "run_result astep (ab s1) (map g es) =
        map_sum id (map_prod (map f) ab) (run_result step s1 es)"
      by (rule Cons.IH [symmetric])
    with sim1 Inr x show ?thesis
      by (cases "run_result step s1 es") auto
  qed
qed

text \<open>
  Refinement with stuttering: when every step returns and is answered by a run of the
  abstract machine on the requests the step makes, a run returns and is answered by the
  abstract run on the requests it makes.
\<close>

lemma run_result_requests:
  assumes "I s" and "run_ok P step s es"
    and step: "\<And>s e. I s \<Longrightarrow> P s e \<Longrightarrow>
      \<exists>r s'. step s e = Inr (r, s') \<and> I s' \<and>
        run_result astep (ab s) (req s e) = Inr (rep e r, ab s')"
  shows "\<exists>rs s'. run_result step s es = Inr (rs, s') \<and> length rs = length es \<and> I s' \<and>
           run_result astep (ab s) (run_requests req step s es) =
             Inr (concat (map2 rep es rs), ab s')"
  using assms(1,2)
proof (induction es arbitrary: s)
  case Nil
  then show ?case by simp
next
  case (Cons e es)
  then obtain r s1 where s1: "step s e = Inr (r, s1)" "I s1"
    and a1: "run_result astep (ab s) (req s e) = Inr (rep e r, ab s1)"
    using step [of s e] by auto
  with Cons.prems obtain rs s' where "run_result step s1 es = Inr (rs, s')"
    and "length rs = length es" and "I s'"
    and "run_result astep (ab s1) (run_requests req step s1 es) =
      Inr (concat (map2 rep es rs), ab s')"
    using Cons.IH [of s1] by auto
  with s1 a1 show ?case
    by (simp add: run_result_append)
qed

text \<open>
  What a run appends to a log: when every step appends its output to an observation of
  the state, and a step does not change what later steps put out, the observation after
  the run is the observation before it followed by the outputs of the events in order.
\<close>

lemma run_result_log:
  assumes "run_result step s es = Inr (rs, s')"
    and step: "\<And>s e r s'. step s e = Inr (r, s') \<Longrightarrow> obs s' = obs s @ out s e \<and> out s' = out s"
  shows "obs s' = obs s @ concat (map (out s) es)"
  using assms(1)
proof (induction es arbitrary: s rs)
  case Nil
  then show ?case by simp
next
  case (Cons e es)
  then obtain r s1 rs1 where s1: "step s e = Inr (r, s1)"
    and run: "run_result step s1 es = Inr (rs1, s')"
    by (auto simp: bind_result_eq_Inr_iff)
  from Cons.IH [OF run] step [OF s1] show ?case
    by simp
qed

section \<open>Cursors: 32-bit words counted modulo 16\<close>

lemma word32_less_16_iff: "(w :: u32) < 16 \<longleftrightarrow> unat w < 16"
  by (simp add: word_less_nat_alt)

lemma unat_mod16 [simp]: "unat ((c :: u32) mod 16) = unat c mod 16"
  by (simp add: unat_mod)

lemma unat_add_mod16: "unat ((c :: u32) + d) mod 16 = (unat c + unat d) mod 16"
proof -
  have "unat (c + d) = (unat c + unat d) mod 2 ^ 32"
    by (simp add: unat_word_ariths)
  moreover have "(16 :: nat) dvd 2 ^ 32"
    by simp
  ultimately show ?thesis
    by (simp add: mod_mod_cancel)
qed

lemma unat_Suc_mod16: "unat ((c :: u32) + 1) mod 16 = Suc (unat c) mod 16"
  using unat_add_mod16 [of c 1] by simp

text \<open>
  The distance \<open>i - out\<close> between the write and the read cursor, as the code computes it
  (a wrapping subtraction): how it changes when one of the cursors moves.
\<close>

lemma cursor_head_index:
  "unat (i :: u32) mod 16 = (unat out + unat (i - out)) mod 16"
  using unat_add_mod16 [of out "i - out"] by simp

lemma cursor_dist_push:
  assumes "unat ((i :: u32) - out) < 16"
  shows "unat (i + 1 - out) = Suc (unat (i - out))"
proof -
  have "i + 1 - out = (i - out) + 1"
    by simp
  moreover have "unat ((i - out) + 1) = Suc (unat (i - out))"
    using assms by (simp add: unat_word_ariths)
  ultimately show ?thesis
    by (simp only:)
qed

lemma cursor_dist_pos: "(out :: u32) \<noteq> i \<Longrightarrow> 0 < unat (i - out)"
  by (simp add: unat_gt_0)

lemma cursor_dist_zero_iff: "unat ((i :: u32) - out) = 0 \<longleftrightarrow> out = i"
  by (auto simp: unat_eq_0)

lemma cursor_dist_pop:
  assumes "(out :: u32) \<noteq> i"
  shows "unat (i - (out + 1)) = unat (i - out) - 1"
proof -
  have "i - (out + 1) = (i - out) - 1"
    by simp
  moreover have "unat ((i - out) - 1) = unat (i - out) - 1"
    using assms by (intro unat_minus_one) auto
  ultimately show ?thesis
    by (simp only:)
qed

lemma mod16_slots_distinct:
  assumes "j < k" and "k < j + 16"
  shows "(b + j) mod 16 \<noteq> (b + k) mod (16 :: nat)"
proof
  assume "(b + j) mod 16 = (b + k) mod 16"
  then have "(16 :: nat) dvd (b + k) - (b + j)"
    by (metis mod_eq_dvd_iff_nat assms(1) add_le_cancel_left less_imp_le_nat)
  then have "(16 :: nat) dvd k - j"
    by simp
  with assms show False
    by (auto dest!: dvd_imp_le)
qed

section \<open>List segments\<close>

lemma map_upt_Suc_Cons: "map f [0..<Suc n] = f 0 # map (\<lambda>k. f (Suc k)) [0..<n]"
  by (simp add: upt_conv_Cons map_Suc_upt [symmetric] del: upt_Suc)

lemma map_upt_cong:
  "(\<And>k. k < n \<Longrightarrow> f k = g k) \<Longrightarrow> map f [0..<n] = map g [0..<n]"
  by simp

lemma take_Suc_update_last:
  "n < length xs \<Longrightarrow> take (Suc n) (xs[n := x]) = take n xs @ [x]"
  by (simp add: take_Suc_conv_app_nth)

end
