(* ===== verification/VtyWire.thy ===== *)
theory VtyWire
  imports VtyPrelude
begin

text \<open>
  The wire format of the two hypercalls: 16 bytes travel as two 64-bit registers, byte 0
  in the most significant byte of the first. In the C code this is a store of
  \<^verbatim>\<open>cpu_to_be64(x)\<close> through a \<^verbatim>\<open>uint64_t *\<close> into the byte array (\<open>h_put_term_char\<close>) and
  a load through the same cast followed by \<^verbatim>\<open>be64_to_cpu\<close> (\<open>h_get_term_char\<close>). The
  model gives the bytes that end up in memory, independent of the byte order of the host:
  \<open>cpu_to_be64 w\<close> is the eight bytes stored, \<open>be64_to_cpu bs\<close> the word loaded from
  the first eight bytes of \<open>bs\<close>. \<open>wire_bytes\<close> and \<open>wire_words\<close> do this for both
  registers of a call.

  Lemmas: each bit of the bytes and of the word, and the two round trips.
\<close>

section \<open>Definitions\<close>

definition cpu_to_be64 :: "u64 \<Rightarrow> u8 list" where
  "cpu_to_be64 w = map (\<lambda>i. ucast (drop_bit (8 * (7 - i)) w)) [0..<8]"

definition be64_to_cpu :: "u8 list \<Rightarrow> u64" where
  "be64_to_cpu bs = foldl (\<lambda>acc b. push_bit 8 acc OR ucast b) 0 (take 8 bs)"

definition wire_bytes :: "u64 \<Rightarrow> u64 \<Rightarrow> u8 list" where
  "wire_bytes char0_7 char8_15 = cpu_to_be64 char0_7 @ cpu_to_be64 char8_15"

definition wire_words :: "u8 list \<Rightarrow> u64 \<times> u64" where
  "wire_words b = (be64_to_cpu b, be64_to_cpu (drop 8 b))"

section \<open>Bits of the bytes and of the word\<close>

lemma cpu_to_be64_explicit:
  "cpu_to_be64 w =
     [ucast (drop_bit 56 w), ucast (drop_bit 48 w), ucast (drop_bit 40 w), ucast (drop_bit 32 w),
      ucast (drop_bit 24 w), ucast (drop_bit 16 w), ucast (drop_bit 8 w), ucast w]"
  by (simp add: cpu_to_be64_def upt_rec)

lemma length_cpu_to_be64 [simp]: "length (cpu_to_be64 w) = 8"
  by (simp add: cpu_to_be64_def)

lemma bit_cpu_to_be64:
  "i < 8 \<Longrightarrow> bit (cpu_to_be64 w ! i) k \<longleftrightarrow> k < 8 \<and> bit w (8 * (7 - i) + k)"
  by (auto simp: cpu_to_be64_def bit_simps)

lemma be64_step_bit:
  "bit (push_bit 8 (acc :: u64) OR ucast (b :: u8)) n \<longleftrightarrow>
     n < 64 \<and> (if n < 8 then bit b n else bit acc (n - 8))"
  by (auto simp: bit_simps dest: bit_imp_le_length)

lemma div8_shift:
  assumes "8 \<le> n"
  shows "n div 8 = Suc ((n - 8) div 8) \<and> n mod 8 = (n - 8) mod (8 :: nat)"
proof -
  from assms obtain m where "n = m + 8"
    by (metis le_add_diff_inverse2)
  then show ?thesis
    by simp
qed

lemma foldl_be64_bit:
  "bit (foldl (\<lambda>acc b. push_bit 8 acc OR ucast b) (a :: u64) (bs :: u8 list)) n \<longleftrightarrow>
     n < 64 \<and> (if n < 8 * length bs then bit (rev bs ! (n div 8)) (n mod 8)
      else bit a (n - 8 * length bs))"
proof (induction bs arbitrary: n rule: rev_induct)
  case Nil
  then show ?case by (auto dest: bit_imp_le_length)
next
  case (snoc b bs)
  show ?case
  proof (cases "n < 8")
    case True
    then show ?thesis
      by (simp add: be64_step_bit)
  next
    case False
    then have "n div 8 = Suc ((n - 8) div 8)" and "n mod 8 = (n - 8) mod 8"
      using div8_shift [of n] by simp_all
    with False show ?thesis
      by (simp add: be64_step_bit snoc.IH) (auto simp: diff_diff_eq add.commute)
  qed
qed

lemma bit_be64_to_cpu:
  "length bs = 8 \<Longrightarrow> bit (be64_to_cpu bs) n \<longleftrightarrow> n < 64 \<and> bit (bs ! (7 - n div 8)) (n mod 8)"
  by (auto simp: be64_to_cpu_def foldl_be64_bit rev_nth less_mult_imp_div_less dest: bit_imp_le_length)

section \<open>Round trips of one word\<close>

lemma be64_to_cpu_cpu_to_be64: "be64_to_cpu (cpu_to_be64 w) = w"
proof (rule bit_eqI)
  fix n
  assume "possible_bit TYPE(u64) n"
  then have n: "n < 64"
    by (simp add: possible_bit_def)
  then have "7 - n div 8 < 8" and "8 * (7 - (7 - n div 8)) + n mod 8 = n"
    by simp_all
  with n show "bit (be64_to_cpu (cpu_to_be64 w)) n \<longleftrightarrow> bit w n"
    by (simp add: bit_be64_to_cpu bit_cpu_to_be64)
qed

lemma cpu_to_be64_be64_to_cpu:
  assumes "length bs = 8"
  shows "cpu_to_be64 (be64_to_cpu bs) = bs"
proof (rule nth_equalityI)
  show "length (cpu_to_be64 (be64_to_cpu bs)) = length bs"
    using assms by simp
next
  fix i
  assume "i < length (cpu_to_be64 (be64_to_cpu bs))"
  then have i: "i < 8"
    by simp
  show "cpu_to_be64 (be64_to_cpu bs) ! i = bs ! i"
  proof (rule bit_eqI)
    fix k
    assume "possible_bit TYPE(u8) k"
    then have k: "k < 8"
      by (simp add: possible_bit_def)
    with i have "(8 * (7 - i) + k) div 8 = 7 - i" and "(8 * (7 - i) + k) mod 8 = k"
      and "8 * (7 - i) + k < 64"
      by simp_all
    with i k assms show "bit (cpu_to_be64 (be64_to_cpu bs) ! i) k \<longleftrightarrow> bit (bs ! i) k"
      by (simp add: bit_cpu_to_be64 bit_be64_to_cpu)
  qed
qed

section \<open>Both registers of a call\<close>

lemma be64_to_cpu_take8 [simp]: "be64_to_cpu (take 8 bs) = be64_to_cpu bs"
  by (simp add: be64_to_cpu_def)

lemma be64_to_cpu_append [simp]: "length bs = 8 \<Longrightarrow> be64_to_cpu (bs @ cs) = be64_to_cpu bs"
  by (simp add: be64_to_cpu_def)

lemma length_wire_bytes [simp]: "length (wire_bytes a b) = 16"
  by (simp add: wire_bytes_def)

lemma wire_words_wire_bytes: "wire_words (wire_bytes a b) = (a, b)"
  by (simp add: wire_words_def wire_bytes_def be64_to_cpu_cpu_to_be64)

lemma wire_bytes_wire_words:
  assumes "length b = 16"
  shows "(case wire_words b of (w0, w1) \<Rightarrow> wire_bytes w0 w1) = b"
proof -
  have "cpu_to_be64 (be64_to_cpu b) = take 8 b"
    using cpu_to_be64_be64_to_cpu [of "take 8 b"] assms by simp
  moreover have "cpu_to_be64 (be64_to_cpu (drop 8 b)) = drop 8 b"
    using assms by (simp add: cpu_to_be64_be64_to_cpu)
  ultimately show ?thesis
    by (simp add: wire_words_def wire_bytes_def)
qed

lemma wire_words_zero [simp]: "wire_words (replicate 16 0) = (0, 0)"
proof -
  have "replicate 16 0 = wire_bytes 0 0"
    by (simp add: wire_bytes_def cpu_to_be64_explicit eval_nat_numeral)
  then show ?thesis
    by (simp only: wire_words_wire_bytes)
qed

lemma wire_bytes_nth:
  "i < 16 \<Longrightarrow> wire_bytes w0 w1 ! i = cpu_to_be64 (if i < 8 then w0 else w1) ! (i mod 8)"
  by (auto simp: wire_bytes_def nth_append not_less le_mod_geq)

lemma bit_wire_bytes:
  assumes "i < 16"
  shows "bit (wire_bytes w0 w1 ! i) k \<longleftrightarrow>
           k < 8 \<and> bit (if i < 8 then w0 else w1) (8 * (7 - i mod 8) + k)"
  using assms by (simp add: wire_bytes_nth bit_cpu_to_be64)

lemma bit_wire_words:
  assumes "length b = 16"
  shows "bit (fst (wire_words b)) n \<longleftrightarrow> n < 64 \<and> bit (b ! (7 - n div 8)) (n mod 8)"
    and "bit (snd (wire_words b)) n \<longleftrightarrow> n < 64 \<and> bit (b ! (15 - n div 8)) (n mod 8)"
proof -
  from assms have "be64_to_cpu b = be64_to_cpu (take 8 b)" and "length (take 8 b) = 8"
    and "length (drop 8 b) = 8"
    by simp_all
  moreover have "7 - n div 8 < 8" and "8 + (7 - n div 8) = 15 - n div 8" if "n < 64"
    using that by simp_all
  ultimately show "bit (fst (wire_words b)) n \<longleftrightarrow> n < 64 \<and> bit (b ! (7 - n div 8)) (n mod 8)"
    and "bit (snd (wire_words b)) n \<longleftrightarrow> n < 64 \<and> bit (b ! (15 - n div 8)) (n mod 8)"
    using assms by (auto simp: wire_words_def bit_be64_to_cpu simp del: be64_to_cpu_take8)
qed

section \<open>Properties of the wire format\<close>

text \<open>
  C24. The two registers of a hypercall and the 16 bytes they carry determine each other:
  decoding the bytes stored for two registers gives the registers back, and encoding
  the registers loaded from 16 bytes gives the bytes back, in their order.
\<close>

theorem wire_roundtrip:
  "wire_words (wire_bytes char0_7 char8_15) = (char0_7, char8_15) \<and>
   (length b = 16 \<longrightarrow> (case wire_words b of (w0, w1) \<Rightarrow> wire_bytes w0 w1) = b)"
  by (simp add: wire_words_wire_bytes wire_bytes_wire_words)

theorem wire_roundtrip_witness:
  "(case wire_words [1, 2, 3, 4, 5, 6, 7, 8, 9, 10, 11, 12, 13, 14, 15, 16] of
      (w0, w1) \<Rightarrow> wire_bytes w0 w1) = [1, 2, 3, 4, 5, 6, 7, 8, 9, 10, 11, 12, 13, 14, 15, 16]"
  using wire_roundtrip [of _ _ "[1, 2, 3, 4, 5, 6, 7, 8, 9, 10, 11, 12, 13, 14, 15, 16]"]
  by simp

text \<open>
  C39. The byte order is big-endian: byte \<open>i\<close> of the 16 is byte \<open>7 - i mod 8\<close>, counted
  from the least significant, of the first register for \<open>i < 8\<close> and of the second
  otherwise, in both directions. So the bytes \<^verbatim>\<open>0x41\<close> to \<^verbatim>\<open>0x50\<close> travel as the words
  \<^verbatim>\<open>0x4142434445464748\<close> and \<^verbatim>\<open>0x494A4B4C4D4E4F50\<close>.
\<close>

theorem wire_big_endian:
  "(i < 16 \<longrightarrow>
      wire_bytes w0 w1 ! i = ucast (drop_bit (8 * (7 - i mod 8)) (if i < 8 then w0 else w1))) \<and>
   (length b = 16 \<and> n < 64 \<longrightarrow>
      bit (fst (wire_words b)) n = bit (b ! (7 - n div 8)) (n mod 8) \<and>
      bit (snd (wire_words b)) n = bit (b ! (15 - n div 8)) (n mod 8))"
  by (auto simp: wire_bytes_nth cpu_to_be64_def bit_wire_words)

theorem wire_big_endian_witness:
  "wire_bytes 0x4142434445464748 0x494A4B4C4D4E4F50 ! 0 = 0x41 \<and>
   wire_bytes 0x4142434445464748 0x494A4B4C4D4E4F50 ! 15 = 0x50 \<and>
   bit (fst (wire_words [0x41, 0x42, 0x43, 0, 0, 0, 0, 0, 0, 0, 0, 0, 0, 0, 0, 0])) 62"
  using wire_big_endian [of 0 "0x4142434445464748" "0x494A4B4C4D4E4F50"
      "[0x41, 0x42, 0x43, 0, 0, 0, 0, 0, 0, 0, 0, 0, 0, 0, 0, 0]" 62]
    wire_big_endian [of 15 "0x4142434445464748" "0x494A4B4C4D4E4F50" "[]" 0]
  by (simp add: drop_bit_eq_div)

end
