(* ===== verification/VtyRing.thy ===== *)
theory VtyRing
  imports VtyPrelude
begin

text \<open>
  The terminal device of \<^verbatim>\<open>src/hw/spapr_vty.c\<close> and the operations on its ring
  buffer: \<open>vty_can_receive\<close>, \<open>vty_receive\<close> (the producer, called by the character
  backend), \<open>vty_getchars\<close> (the consumer, called by the read hypercall),
  \<open>vty_putchars\<close> (the write-through path) and \<open>spapr_vty_init\<close>.

  The C struct is a record; the embedded parent struct \<^verbatim>\<open>VIOsPAPRDevice sdev\<close> is the
  parent record, so \<open>reg\<close> and \<open>qirq\<close> select from a VTY as \<^verbatim>\<open>dev->sdev.reg\<close> does.
  The cursors \<^verbatim>\<open>in\<close> and \<^verbatim>\<open>out\<close> are \<open>vin\<close> and \<open>vout\<close> (\<open>in\<close> is a keyword), 32-bit
  words that wrap. The two collaborators the code only calls are kept as what this code
  can observe of them: the interrupt line as the number of pulses sent (\<open>qirq\<close>), the
  character backend as the handlers and the \<^verbatim>\<open>opaque\<close> pointer it was given
  (\<open>handler_opaque\<close>, the position on the bus of the device to call back) and the list
  of write requests made (\<open>chr_written\<close>).

  The device is polymorphic in \<open>'chr\<close>, what the field \<^verbatim>\<open>CharDriverState *chardev\<close>
  stands for. The ring never follows that pointer, so its operations are defined for
  every \<open>'chr\<close>. \<open>vty_putchars\<close> and \<open>spapr_vty_init\<close> do follow it; here they are
  defined with the backend itself in the field, and in theory \<open>VtyStore\<close> with an address.

  \<open>vty_receive\<close> takes the bytes to deliver as a list. \<open>vty_receive_raw\<close> has the
  parameters of the C function: the memory behind the pointer \<^verbatim>\<open>buf\<close> and a signed
  \<^verbatim>\<open>size\<close>, which need not agree. Likewise \<open>vty_getchars\<close> updates a list and
  \<open>vty_getchars_raw\<close> stores through the pointer \<^verbatim>\<open>buf\<close>.

  Lemmas: the frame of every operation, the invariant \<open>vty_inv\<close> (16 slots, at most 16
  unread bytes) and its preservation, the exact condition under which the \<^verbatim>\<open>assert\<close> of
  \<open>vty_receive\<close> fails, the number of bytes \<open>vty_getchars\<close> returns, that a
  delivery can be split into two, that \<open>vty_receive_raw\<close> is \<open>vty_receive\<close> on
  the first \<^verbatim>\<open>size\<close> bytes whenever \<^verbatim>\<open>size\<close> is within the memory, and that
  \<open>vty_getchars_raw\<close> is \<open>vty_getchars\<close> exactly when the bytes taken fit the array.
\<close>

section \<open>Collaborators, as far as the device observes them\<close>

record CharDriverState =
  chr_can_read :: "fnptr option"
  chr_read :: "fnptr option"
  chr_event :: "fnptr option"
  handler_opaque :: "nat option"
  chr_written :: "u8 list list"

definition qemu_chr_fe_write :: "CharDriverState \<Rightarrow> u8 list \<Rightarrow> int \<Rightarrow> CharDriverState" where
  "qemu_chr_fe_write s buf len = s\<lparr>chr_written := chr_written s @ [take (nat len) buf]\<rparr>"

definition qemu_chr_add_handlers ::
  "CharDriverState \<Rightarrow> fnptr option \<Rightarrow> fnptr option \<Rightarrow> fnptr option \<Rightarrow> nat option \<Rightarrow>
     CharDriverState" where
  "qemu_chr_add_handlers s fd_can_read fd_read fd_event opaque =
     s\<lparr>chr_can_read := fd_can_read, chr_read := fd_read, chr_event := fd_event,
       handler_opaque := opaque\<rparr>"

record VIOsPAPRDevice =
  reg :: target_ulong
  qirq :: nat

definition qemu_irq_pulse :: "'a VIOsPAPRDevice_scheme \<Rightarrow> 'a VIOsPAPRDevice_scheme" where
  "qemu_irq_pulse sdev = sdev\<lparr>qirq := Suc (qirq sdev)\<rparr>"

section \<open>The device\<close>

abbreviation VTERM_BUFSIZE :: "'a::numeral" where
  "VTERM_BUFSIZE \<equiv> 16"

record 'chr VIOsPAPRVTYDevice = VIOsPAPRDevice +
  chardev :: "'chr option"
  vin :: u32
  vout :: u32
  buf :: "u8 list"

section \<open>Operations\<close>

definition vty_can_receive :: "'chr VIOsPAPRVTYDevice \<Rightarrow> int" where
  "vty_can_receive dev = (if vin dev - vout dev < VTERM_BUFSIZE then 1 else 0)"

text \<open>
  The body of the \<^verbatim>\<open>for\<close> loop of \<open>vty_receive\<close> after its \<^verbatim>\<open>assert\<close>: store the
  byte in the slot of the write cursor and move the cursor on (\<^verbatim>\<open>dev->in++\<close>).
\<close>

definition ring_put :: "'chr VIOsPAPRVTYDevice \<Rightarrow> u8 \<Rightarrow> 'chr VIOsPAPRVTYDevice" where
  "ring_put dev b =
     dev\<lparr>buf := (buf dev)[unat (vin dev mod VTERM_BUFSIZE) := b], vin := vin dev + 1\<rparr>"

text \<open>The loop itself: one iteration per byte of the input, each guarded by the \<^verbatim>\<open>assert\<close>.\<close>

fun vty_receive_loop :: "'chr VIOsPAPRVTYDevice \<Rightarrow> u8 list \<Rightarrow> 'chr VIOsPAPRVTYDevice result" where
  "vty_receive_loop dev [] = Inr dev"
| "vty_receive_loop dev (b # bs) =
     (if vin dev - vout dev < VTERM_BUFSIZE
      then vty_receive_loop (ring_put dev b) bs
      else Inl Assert_failed)"

definition vty_receive :: "'chr VIOsPAPRVTYDevice \<Rightarrow> u8 list \<Rightarrow> 'chr VIOsPAPRVTYDevice result" where
  "vty_receive dev bs =
     vty_receive_loop
       (if vin dev = vout dev \<and> bs \<noteq> [] then qemu_irq_pulse dev else dev) bs"

text \<open>
  \<open>vty_receive\<close> takes its input as the list of the bytes delivered. The C function
  takes a pointer and a signed \<^verbatim>\<open>size\<close>; \<open>vty_receive_raw\<close> is the function with these
  parameters, \<open>ibuf\<close> being the memory the pointer \<^verbatim>\<open>buf\<close> points to and \<open>sz\<close> the
  \<^verbatim>\<open>size\<close>: the loop counts \<open>i\<close> up to \<open>sz\<close>, and reading \<^verbatim>\<open>buf[i]\<close> behind the end of
  the memory is a fault.
\<close>

function vty_receive_raw_loop ::
  "'chr VIOsPAPRVTYDevice \<Rightarrow> u8 list \<Rightarrow> int \<Rightarrow> int \<Rightarrow> 'chr VIOsPAPRVTYDevice result" where
  "vty_receive_raw_loop dev ibuf sz i =
     (if i < sz
      then if vin dev - vout dev < VTERM_BUFSIZE
           then if nat i < length ibuf
                then vty_receive_raw_loop (ring_put dev (ibuf ! nat i)) ibuf sz (i + 1)
                else Inl Out_of_bounds
           else Inl Assert_failed
      else Inr dev)"
  by pat_completeness auto
termination
  by (relation "measure (\<lambda>(dev, ibuf, sz, i). nat (sz - i))") auto

declare vty_receive_raw_loop.simps [simp del]

definition vty_receive_raw ::
  "'chr VIOsPAPRVTYDevice \<Rightarrow> u8 list \<Rightarrow> int \<Rightarrow> 'chr VIOsPAPRVTYDevice result" where
  "vty_receive_raw dev ibuf sz =
     vty_receive_raw_loop
       (if vin dev = vout dev \<and> sz \<noteq> 0 then qemu_irq_pulse dev else dev) ibuf sz 0"

text \<open>
  The right-hand side of the body of the \<^verbatim>\<open>while\<close> loop of \<open>vty_getchars\<close>: read the
  slot of the read cursor and move the cursor on (\<^verbatim>\<open>dev->out++\<close>).
\<close>

definition ring_get :: "'chr VIOsPAPRVTYDevice \<Rightarrow> u8 \<times> 'chr VIOsPAPRVTYDevice" where
  "ring_get dev = (buf dev ! unat (vout dev mod VTERM_BUFSIZE), dev\<lparr>vout := vout dev + 1\<rparr>)"

text \<open>
  The loop. \<open>obuf\<close> is the caller's array, \<open>mx\<close> the parameter \<^verbatim>\<open>max\<close>, \<open>n\<close> the running
  count. It ends because \<open>mx - n\<close> shrinks.
\<close>

function vty_getchars_loop ::
  "'chr VIOsPAPRVTYDevice \<Rightarrow> u8 list \<Rightarrow> int \<Rightarrow> int \<Rightarrow> 'chr VIOsPAPRVTYDevice \<times> u8 list \<times> int" where
  "vty_getchars_loop dev obuf mx n =
     (if n < mx \<and> vout dev \<noteq> vin dev
      then (case ring_get dev of
              (c, dev') \<Rightarrow> vty_getchars_loop dev' (obuf[nat n := c]) mx (n + 1))
      else (dev, obuf, n))"
  by pat_completeness auto
termination
  by (relation "measure (\<lambda>(dev, obuf, mx, n). nat (mx - n))") auto

declare vty_getchars_loop.simps [simp del]

definition vty_getchars ::
  "'chr VIOsPAPRVTYDevice \<Rightarrow> u8 list \<Rightarrow> int \<Rightarrow> 'chr VIOsPAPRVTYDevice \<times> u8 list \<times> int" where
  "vty_getchars dev obuf mx = vty_getchars_loop dev obuf mx 0"

text \<open>
  \<open>vty_getchars\<close> updates a list, and an update behind the end of a list changes
  nothing. The C function stores through the pointer \<^verbatim>\<open>buf\<close>: in \<open>vty_getchars_raw\<close> the
  store \<^verbatim>\<open>buf[n++] = ...\<close> behind the end of the caller's array is a fault.
\<close>

function vty_getchars_raw_loop ::
  "'chr VIOsPAPRVTYDevice \<Rightarrow> u8 list \<Rightarrow> int \<Rightarrow> int \<Rightarrow>
     ('chr VIOsPAPRVTYDevice \<times> u8 list \<times> int) result" where
  "vty_getchars_raw_loop dev obuf mx n =
     (if n < mx \<and> vout dev \<noteq> vin dev
      then if nat n < length obuf
           then (case ring_get dev of
                   (c, dev') \<Rightarrow> vty_getchars_raw_loop dev' (obuf[nat n := c]) mx (n + 1))
           else Inl Out_of_bounds
      else Inr (dev, obuf, n))"
  by pat_completeness auto
termination
  by (relation "measure (\<lambda>(dev, obuf, mx, n). nat (mx - n))") auto

declare vty_getchars_raw_loop.simps [simp del]

definition vty_getchars_raw ::
  "'chr VIOsPAPRVTYDevice \<Rightarrow> u8 list \<Rightarrow> int \<Rightarrow>
     ('chr VIOsPAPRVTYDevice \<times> u8 list \<times> int) result" where
  "vty_getchars_raw dev obuf mx = vty_getchars_raw_loop dev obuf mx 0"

definition vty_putchars ::
  "CharDriverState VIOsPAPRVTYDevice \<Rightarrow> u8 list \<Rightarrow> int \<Rightarrow> CharDriverState VIOsPAPRVTYDevice result" where
  "vty_putchars dev b len =
     (case chardev dev of
        None \<Rightarrow> Inl Null_chardev
      | Some chr \<Rightarrow> Inr (dev\<lparr>chardev := Some (qemu_chr_fe_write chr b len)\<rparr>))"

text \<open>
  \<open>spapr_vty_init sdev dev\<close>: \<open>sdev\<close> is the pointer the C function is called with, a
  position on the bus, and \<open>dev\<close> the device there. The pointer is what the backend gets
  as the \<^verbatim>\<open>opaque\<close> argument of its callbacks.
\<close>

definition spapr_vty_init ::
  "nat \<Rightarrow> CharDriverState VIOsPAPRVTYDevice \<Rightarrow> (CharDriverState VIOsPAPRVTYDevice \<times> int) result" where
  "spapr_vty_init sdev dev =
     (case chardev dev of
        None \<Rightarrow> Inl Exit_failure
      | Some chr \<Rightarrow>
          Inr (dev\<lparr>chardev := Some (qemu_chr_add_handlers chr
                       (Some FN_vty_can_receive) (Some FN_vty_receive) None (Some sdev))\<rparr>, 0))"

section \<open>Invariant\<close>

definition vty_count :: "'chr VIOsPAPRVTYDevice \<Rightarrow> nat" where
  "vty_count dev = unat (vin dev - vout dev)"

definition vty_inv :: "'chr VIOsPAPRVTYDevice \<Rightarrow> bool" where
  "vty_inv dev \<longleftrightarrow> length (buf dev) = VTERM_BUFSIZE \<and> vty_count dev \<le> VTERM_BUFSIZE"

text \<open>
  Two devices to evaluate on: the device as the object system allocates it (zeroed but for
  what the bus and the properties set), and a device whose cursors are about to wrap.
\<close>

text \<open>
  Two backends to evaluate on: one as the host hands it over, with no handlers, and one
  as \<open>spapr_vty_init\<close> leaves it; nothing has been written to either.
\<close>

definition chr_unbound :: CharDriverState where
  "chr_unbound =
     \<lparr>chr_can_read = None, chr_read = None, chr_event = None, handler_opaque = None,
      chr_written = []\<rparr>"

definition chr_idle :: "nat \<Rightarrow> CharDriverState" where
  "chr_idle sdev =
     \<lparr>chr_can_read = Some FN_vty_can_receive, chr_read = Some FN_vty_receive, chr_event = None,
      handler_opaque = Some sdev, chr_written = []\<rparr>"

definition vty_fresh :: "target_ulong \<Rightarrow> 'chr option \<Rightarrow> 'chr VIOsPAPRVTYDevice" where
  "vty_fresh r chr =
     \<lparr>reg = r, qirq = 0, chardev = chr, vin = 0, vout = 0, buf = replicate VTERM_BUFSIZE 0\<rparr>"

definition vty_near_wrap :: "CharDriverState VIOsPAPRVTYDevice" where
  "vty_near_wrap =
     \<lparr>reg = 0x30000000, qirq = 0,
      chardev = Some (chr_idle 0),
      vin = 0xFFFFFFFE, vout = 0xFFFFFFFE, buf = replicate VTERM_BUFSIZE 0\<rparr>"

lemmas [vty_defs] =
  qemu_chr_fe_write_def qemu_chr_add_handlers_def qemu_irq_pulse_def
  vty_can_receive_def vty_receive_def vty_getchars_def vty_putchars_def spapr_vty_init_def

section \<open>One slot at a time\<close>

lemma ring_put_sel [simp]:
  "vin (ring_put dev b) = vin dev + 1"
  "vout (ring_put dev b) = vout dev"
  "buf (ring_put dev b) = (buf dev)[unat (vin dev) mod 16 := b]"
  "reg (ring_put dev b) = reg dev"
  "qirq (ring_put dev b) = qirq dev"
  "chardev (ring_put dev b) = chardev dev"
  by (simp_all add: ring_put_def)

lemma ring_get_sel [simp]:
  "fst (ring_get dev) = buf dev ! (unat (vout dev) mod 16)"
  "vout (snd (ring_get dev)) = vout dev + 1"
  "vin (snd (ring_get dev)) = vin dev"
  "buf (snd (ring_get dev)) = buf dev"
  "reg (snd (ring_get dev)) = reg dev"
  "qirq (snd (ring_get dev)) = qirq dev"
  "chardev (snd (ring_get dev)) = chardev dev"
  by (simp_all add: ring_get_def)

lemma vty_count_ring_put:
  "vty_count dev < 16 \<Longrightarrow> vty_count (ring_put dev b) = Suc (vty_count dev)"
  by (simp add: vty_count_def cursor_dist_push)

lemma vty_count_ring_get:
  "vout dev \<noteq> vin dev \<Longrightarrow> vty_count (snd (ring_get dev)) = vty_count dev - 1"
  by (simp add: vty_count_def cursor_dist_pop)

lemma vty_count_0_iff: "vty_count dev = 0 \<longleftrightarrow> vout dev = vin dev"
  by (simp add: vty_count_def cursor_dist_zero_iff)

lemma vty_count_empty: "vout dev = vin dev \<Longrightarrow> vty_count dev = 0"
  by (simp add: vty_count_0_iff)

lemma vty_count_pos: "vout dev \<noteq> vin dev \<Longrightarrow> 0 < vty_count dev"
  by (simp add: vty_count_def cursor_dist_pos)

lemma snd_ring_get: "snd (ring_get dev) = dev\<lparr>vout := vout dev + 1\<rparr>"
  by (simp add: ring_get_def)

lemma vty_guard_iff: "vin dev - vout dev < 16 \<longleftrightarrow> vty_count dev < 16"
  by (simp add: vty_count_def word32_less_16_iff)

lemma vty_inv_ring_put [vty_inv_intros]:
  "vty_inv dev \<Longrightarrow> vty_count dev < 16 \<Longrightarrow> vty_inv (ring_put dev b)"
  by (simp add: vty_inv_def vty_count_ring_put)

lemma vty_inv_ring_get [vty_inv_intros]:
  "vty_inv dev \<Longrightarrow> vout dev \<noteq> vin dev \<Longrightarrow> vty_inv (snd (ring_get dev))"
  by (auto simp: vty_inv_def vty_count_ring_get)

section \<open>The producer loop\<close>

lemma vty_receive_loop_append:
  "vty_receive_loop dev (bs @ cs) = bind_result (vty_receive_loop dev bs) (\<lambda>d. vty_receive_loop d cs)"
  by (induction dev bs rule: vty_receive_loop.induct) simp_all

lemma vty_receive_loop_frame:
  "vty_receive_loop dev bs = Inr dev' \<Longrightarrow>
     vout dev' = vout dev \<and> reg dev' = reg dev \<and> qirq dev' = qirq dev \<and>
     chardev dev' = chardev dev \<and> length (buf dev') = length (buf dev) \<and>
     vin dev' = vin dev + of_nat (length bs)"
  by (induction dev bs rule: vty_receive_loop.induct) (auto split: if_splits)

lemma vty_receive_loop_ok_iff:
  "vty_count dev \<le> 16 \<Longrightarrow> is_ok (vty_receive_loop dev bs) \<longleftrightarrow> vty_count dev + length bs \<le> 16"
proof (induction dev bs rule: vty_receive_loop.induct)
  case (1 dev)
  then show ?case by simp
next
  case (2 dev b bs)
  show ?case
  proof (cases "vty_count dev < 16")
    case True
    with 2 show ?thesis
      by (simp add: vty_guard_iff vty_count_ring_put)
  next
    case False
    then show ?thesis
      by (simp add: vty_guard_iff)
  qed
qed

lemma vty_receive_loop_fault:
  "vty_receive_loop dev bs = Inl e \<Longrightarrow> e = Assert_failed"
  by (induction dev bs rule: vty_receive_loop.induct) (auto split: if_splits)

lemma vty_receive_loop_count:
  "vty_receive_loop dev bs = Inr dev' \<Longrightarrow> vty_count dev \<le> 16 \<Longrightarrow>
     vty_count dev' = vty_count dev + length bs"
proof (induction dev bs rule: vty_receive_loop.induct)
  case (1 dev)
  then show ?case by simp
next
  case (2 dev b bs)
  from "2.prems" have room: "vty_count dev < 16"
    by (auto simp: vty_guard_iff split: if_splits)
  with "2.prems" have "vty_receive_loop (ring_put dev b) bs = Inr dev'"
    by (simp add: vty_guard_iff)
  with 2 room show ?case
    by (simp add: vty_guard_iff vty_count_ring_put)
qed

lemma vty_inv_receive_loop [vty_inv_intros]:
  assumes "vty_receive_loop dev bs = Inr dev'" and "vty_inv dev"
  shows "vty_inv dev'"
proof -
  from assms have "is_ok (vty_receive_loop dev bs)" and le: "vty_count dev \<le> 16"
    by (simp_all add: vty_inv_def)
  then have "vty_count dev + length bs \<le> 16"
    by (simp add: vty_receive_loop_ok_iff)
  with assms le show ?thesis
    by (simp add: vty_inv_def vty_receive_loop_count vty_receive_loop_frame)
qed

section \<open>The producer\<close>

lemma qemu_irq_pulse_sel [simp]:
  "qirq (qemu_irq_pulse sdev) = Suc (qirq sdev)"
  "reg (qemu_irq_pulse sdev) = reg sdev"
  "vin (qemu_irq_pulse dev) = vin dev"
  "vout (qemu_irq_pulse dev) = vout dev"
  "buf (qemu_irq_pulse dev) = buf dev"
  "chardev (qemu_irq_pulse dev) = chardev dev"
  by (simp_all add: qemu_irq_pulse_def)

lemma vty_count_irq_pulse [simp]: "vty_count (qemu_irq_pulse dev) = vty_count dev"
  by (simp add: vty_count_def)

lemma vty_inv_irq_pulse [simp]: "vty_inv (qemu_irq_pulse dev) = vty_inv dev"
  by (simp add: vty_inv_def)

lemma vty_receive_frame:
  "vty_receive dev bs = Inr dev' \<Longrightarrow>
     vout dev' = vout dev \<and> reg dev' = reg dev \<and> chardev dev' = chardev dev \<and>
     length (buf dev') = length (buf dev) \<and> vin dev' = vin dev + of_nat (length bs)"
  by (auto simp: vty_receive_def dest!: vty_receive_loop_frame split: if_splits)

lemma vty_receive_fits:
  "vty_inv dev \<Longrightarrow> vty_count dev + length bs \<le> 16 \<Longrightarrow> is_ok (vty_receive dev bs)"
  by (simp add: vty_receive_def vty_inv_def vty_receive_loop_ok_iff)

lemma vty_receive_overflow:
  assumes "vty_inv dev" and "16 < vty_count dev + length bs"
  shows "vty_receive dev bs = Inl Assert_failed"
proof (cases "vty_receive dev bs")
  case (Inl e)
  then show ?thesis
    by (auto simp: vty_receive_def dest: vty_receive_loop_fault)
next
  case (Inr dev')
  let ?d = "if vin dev = vout dev \<and> bs \<noteq> [] then qemu_irq_pulse dev else dev"
  have "vty_count ?d = vty_count dev"
    by simp
  with assms have "\<not> is_ok (vty_receive_loop ?d bs)"
    by (simp add: vty_inv_def vty_receive_loop_ok_iff)
  with Inr show ?thesis
    by (simp add: vty_receive_def)
qed

lemma vty_receive_count:
  "vty_receive dev bs = Inr dev' \<Longrightarrow> vty_inv dev \<Longrightarrow>
     vty_count dev' = vty_count dev + length bs"
  by (auto simp: vty_receive_def vty_inv_def dest: vty_receive_loop_count split: if_splits)

lemma vty_inv_receive [vty_inv_intros]:
  "vty_receive dev bs = Inr dev' \<Longrightarrow> vty_inv dev \<Longrightarrow> vty_inv dev'"
  by (auto simp: vty_receive_def dest: vty_inv_receive_loop split: if_splits)

lemma vty_receive_Nil [simp]: "vty_receive dev [] = Inr dev"
  by (simp add: vty_receive_def)

lemma vty_receive_loop_nonempty:
  assumes "vty_receive_loop dev bs = Inr dev'" and "vty_count dev \<le> 16" and "bs \<noteq> []"
  shows "vin dev' \<noteq> vout dev'"
proof -
  from assms(1,2) have "vty_count dev' = vty_count dev + length bs"
    by (rule vty_receive_loop_count)
  with assms(3) have "vty_count dev' \<noteq> 0"
    by simp
  then show ?thesis
    by (auto simp: vty_count_0_iff)
qed

section \<open>The producer with pointer and size\<close>

lemma vty_receive_raw_loop_list:
  "0 \<le> i \<Longrightarrow> sz \<le> int (length ibuf) \<Longrightarrow>
     vty_receive_raw_loop dev ibuf sz i = vty_receive_loop dev (drop (nat i) (take (nat sz) ibuf))"
proof (induction dev ibuf sz i rule: vty_receive_raw_loop.induct)
  case (1 dev ibuf sz i)
  show ?case
  proof (cases "i < sz")
    case True
    with "1.prems" have i: "nat i < length ibuf" and lt: "nat i < nat sz"
      by simp_all
    then have "drop (nat i) (take (nat sz) ibuf) =
        ibuf ! nat i # drop (nat (i + 1)) (take (nat sz) ibuf)"
      using "1.prems" by (simp add: Cons_nth_drop_Suc [symmetric] nat_add_distrib)
    with True i "1.prems" "1.IH" show ?thesis
      by (subst vty_receive_raw_loop.simps) simp
  next
    case False
    then show ?thesis
      by (subst vty_receive_raw_loop.simps) simp
  qed
qed

lemma vty_receive_raw_loop_done:
  "sz \<le> i \<Longrightarrow> vty_receive_raw_loop dev ibuf sz i = Inr dev"
  by (subst vty_receive_raw_loop.simps) simp

lemma vty_receive_raw_loop_overrun:
  assumes "0 \<le> i" and "nat i \<le> length ibuf" and "int (length ibuf) < sz"
    and "vty_count dev + (length ibuf - nat i) < 16"
  shows "vty_receive_raw_loop dev ibuf sz i = Inl Out_of_bounds"
  using assms
proof (induction dev ibuf sz i rule: vty_receive_raw_loop.induct)
  case (1 dev ibuf sz i)
  from "1.prems" have lt: "i < sz" and room: "vty_count dev < 16"
    by simp_all
  show ?case
  proof (cases "nat i < length ibuf")
    case True
    with "1.prems" room
    have "vty_receive_raw_loop (ring_put dev (ibuf ! nat i)) ibuf sz (i + 1) = Inl Out_of_bounds"
      by (intro "1.IH") (simp_all add: vty_guard_iff vty_count_ring_put nat_add_distrib)
    with True lt room show ?thesis
      by (subst vty_receive_raw_loop.simps) (simp add: vty_guard_iff)
  next
    case False
    with lt room show ?thesis
      by (subst vty_receive_raw_loop.simps) (simp add: vty_guard_iff)
  qed
qed

section \<open>The consumer loop\<close>

lemmas vty_getchars_loop_unfold = vty_getchars_loop.simps

lemma vty_getchars_loop_stop:
  "\<not> (n < mx \<and> vout dev \<noteq> vin dev) \<Longrightarrow> vty_getchars_loop dev obuf mx n = (dev, obuf, n)"
  by (subst vty_getchars_loop_unfold) auto

lemma vty_getchars_loop_step:
  "n < mx \<Longrightarrow> vout dev \<noteq> vin dev \<Longrightarrow>
     vty_getchars_loop dev obuf mx n =
       vty_getchars_loop (snd (ring_get dev)) (obuf[nat n := fst (ring_get dev)]) mx (n + 1)"
  by (subst vty_getchars_loop_unfold) (simp add: case_prod_beta)

lemma min_avail_step:
  "n < mx \<Longrightarrow> 0 < c \<Longrightarrow> min (nat (mx - n)) c = Suc (min (nat (mx - (n + 1))) (c - 1))"
  by (auto simp: min_def)

lemma vty_getchars_loop_n:
  "snd (snd (vty_getchars_loop dev obuf mx n)) = n + int (min (nat (mx - n)) (vty_count dev))"
proof (induction dev obuf mx n rule: vty_getchars_loop.induct)
  case (1 dev obuf mx n)
  show ?case
  proof (cases "n < mx \<and> vout dev \<noteq> vin dev")
    case True
    then have pos: "0 < vty_count dev"
      by (simp add: vty_count_pos)
    from True have "snd (snd (vty_getchars_loop dev obuf mx n)) =
        n + 1 + int (min (nat (mx - (n + 1))) (vty_count dev - 1))"
      using "1.IH" [OF True prod.collapse]
      by (simp add: vty_getchars_loop_step vty_count_ring_get)
    with True pos show ?thesis
      by (simp add: min_avail_step [of n mx "vty_count dev"])
  next
    case False
    then show ?thesis
      by (auto simp: vty_getchars_loop_stop vty_count_empty)
  qed
qed

lemma vty_getchars_loop_dev:
  "fst (vty_getchars_loop dev obuf mx n) =
     dev\<lparr>vout := vout dev + of_nat (min (nat (mx - n)) (vty_count dev))\<rparr>"
proof (induction dev obuf mx n rule: vty_getchars_loop.induct)
  case (1 dev obuf mx n)
  show ?case
  proof (cases "n < mx \<and> vout dev \<noteq> vin dev")
    case True
    then have pos: "0 < vty_count dev"
      by (simp add: vty_count_pos)
    from True have "fst (vty_getchars_loop dev obuf mx n) =
        (snd (ring_get dev))\<lparr>vout := vout dev + 1 + of_nat (min (nat (mx - (n + 1))) (vty_count dev - 1))\<rparr>"
      using "1.IH" [OF True prod.collapse]
      by (simp add: vty_getchars_loop_step vty_count_ring_get)
    with True pos show ?thesis
      by (simp add: min_avail_step [of n mx "vty_count dev"] add.assoc snd_ring_get)
  next
    case False
    then show ?thesis
      by (auto simp: vty_getchars_loop_stop vty_count_empty)
  qed
qed

lemma vty_getchars_loop_length:
  "length (fst (snd (vty_getchars_loop dev obuf mx n))) = length obuf"
proof (induction dev obuf mx n rule: vty_getchars_loop.induct)
  case (1 dev obuf mx n)
  show ?case
  proof (cases "n < mx \<and> vout dev \<noteq> vin dev")
    case True
    with "1.IH" [OF True prod.collapse] show ?thesis
      by (simp add: vty_getchars_loop_step)
  next
    case False
    then show ?thesis
      by (simp add: vty_getchars_loop_stop)
  qed
qed

lemma vty_getchars_raw_loop_eq:
  "0 \<le> n \<Longrightarrow>
     vty_getchars_raw_loop dev obuf mx n =
       (if min (nat (mx - n)) (vty_count dev) = 0 \<or>
           nat n + min (nat (mx - n)) (vty_count dev) \<le> length obuf
        then Inr (vty_getchars_loop dev obuf mx n) else Inl Out_of_bounds)"
proof (induction dev obuf mx n rule: vty_getchars_raw_loop.induct)
  case (1 dev obuf mx n)
  show ?case
  proof (cases "n < mx \<and> vout dev \<noteq> vin dev")
    case False
    then show ?thesis
      by (subst vty_getchars_raw_loop.simps) (auto simp: vty_getchars_loop_stop vty_count_empty)
  next
    case True
    then have pos: "0 < vty_count dev"
      by (simp add: vty_count_pos)
    note step = min_avail_step [of n mx "vty_count dev"]
    show ?thesis
    proof (cases "nat n < length obuf")
      case False
      with True pos step "1.prems" show ?thesis
        by (subst vty_getchars_raw_loop.simps) simp
    next
      case fits: True
      from "1.prems" have "0 \<le> n + 1"
        by simp
      from "1.IH" [OF True fits prod.collapse this] True fits pos step "1.prems" show ?thesis
        by (subst vty_getchars_raw_loop.simps)
           (auto simp: case_prod_beta vty_getchars_loop_step vty_count_ring_get nat_add_distrib)
    qed
  qed
qed

section \<open>The consumer\<close>

lemma vty_getchars_result:
  "vty_getchars dev obuf mx =
     (dev\<lparr>vout := vout dev + of_nat (min (nat mx) (vty_count dev))\<rparr>,
      fst (snd (vty_getchars dev obuf mx)),
      int (min (nat mx) (vty_count dev)))"
  using vty_getchars_loop_n [of dev obuf mx 0] vty_getchars_loop_dev [of dev obuf mx 0]
  by (simp add: vty_getchars_def prod_eq_iff)

section \<open>The devices to evaluate on\<close>

lemma chr_idle_simps [simp]:
  "chr_written (chr_idle sdev) = []" "chr_read (chr_idle sdev) = Some FN_vty_receive"
  "chr_can_read (chr_idle sdev) = Some FN_vty_can_receive" "chr_event (chr_idle sdev) = None"
  "handler_opaque (chr_idle sdev) = Some sdev"
  "chr_written chr_unbound = []" "chr_read chr_unbound = None"
  "chr_can_read chr_unbound = None" "chr_event chr_unbound = None"
  "handler_opaque chr_unbound = None"
  by (simp_all add: chr_idle_def chr_unbound_def)

lemma qemu_chr_add_handlers_unbound [simp]:
  "qemu_chr_add_handlers chr_unbound (Some FN_vty_can_receive) (Some FN_vty_receive) None (Some sdev) =
     chr_idle sdev"
  by (simp add: qemu_chr_add_handlers_def chr_idle_def chr_unbound_def)

lemma vty_near_wrap_simps [simp]:
  "vty_inv vty_near_wrap" "vty_count vty_near_wrap = 0"
  "vin vty_near_wrap = 0xFFFFFFFE" "vout vty_near_wrap = 0xFFFFFFFE"
  "qirq vty_near_wrap = 0" "buf vty_near_wrap = replicate 16 0"
  "chardev vty_near_wrap = Some (chr_idle 0)"
  by (simp_all add: vty_near_wrap_def vty_inv_def vty_count_def)

lemma vty_fresh_simps [simp]:
  "vty_inv (vty_fresh r chr)" "vty_count (vty_fresh r chr) = 0"
  "vin (vty_fresh r chr) = 0" "vout (vty_fresh r chr) = 0"
  "reg (vty_fresh r chr) = r" "qirq (vty_fresh r chr) = 0" "chardev (vty_fresh r chr) = chr"
  "buf (vty_fresh r chr) = replicate 16 0"
  by (simp_all add: vty_fresh_def vty_inv_def vty_count_def)

lemma vty_can_receive_inv:
  "vty_inv dev \<Longrightarrow> vty_can_receive dev = (if vty_count dev = 16 then 0 else 1)"
  by (auto simp: vty_can_receive_def vty_guard_iff vty_inv_def)

section \<open>Properties of the ring buffer\<close>

text \<open>
  C2. Under the invariant, \<open>vty_receive\<close> returns normally exactly when the batch fits
  into the free part of the ring, that is when the bytes pending plus the bytes delivered
  are at most 16; in every other case it stops at its \<^verbatim>\<open>assert\<close>.
\<close>

theorem vty_receive_ok_iff:
  assumes "vty_inv dev"
  shows "(is_ok (vty_receive dev bs) \<longleftrightarrow> vty_count dev + length bs \<le> VTERM_BUFSIZE) \<and>
         (\<not> is_ok (vty_receive dev bs) \<longrightarrow> vty_receive dev bs = Inl Assert_failed)"
proof (cases "vty_count dev + length bs \<le> 16")
  case True
  with assms show ?thesis
    by (simp add: vty_receive_fits)
next
  case False
  with assms have "vty_receive dev bs = Inl Assert_failed"
    by (simp add: vty_receive_overflow)
  with False show ?thesis
    by simp
qed

theorem vty_receive_ok_iff_witness:
  "is_ok (vty_receive vty_near_wrap [1, 2, 3]) \<and>
   vty_receive (vty_near_wrap\<lparr>vin := 0xD\<rparr>) [1, 2, 3] = Inl Assert_failed"
  using vty_receive_ok_iff [of vty_near_wrap "[1, 2, 3]"]
    vty_receive_ok_iff [of "vty_near_wrap\<lparr>vin := 0xD\<rparr>" "[1, 2, 3]"]
  by (simp add: vty_inv_def vty_count_def)

text \<open>
  C27. A delivery that returns keeps the invariant of the ring: the buffer keeps its 16
  slots, the number of pending bytes grows by the size of the batch and stays at most 16,
  the write cursor moves on by the size of the batch (wrapping at \<open>2 ^ 32\<close>) and the read
  cursor stays.
\<close>

theorem vty_receive_inv:
  assumes "vty_inv dev" and "vty_receive dev bs = Inr dev'"
  shows "vty_inv dev' \<and> vty_count dev' = vty_count dev + length bs \<and>
         vin dev' = vin dev + of_nat (length bs) \<and> vout dev' = vout dev"
  using assms by (simp add: vty_inv_receive vty_receive_count vty_receive_frame)

theorem vty_receive_inv_witness:
  "\<exists>dev'. vty_receive vty_near_wrap [1, 2, 3] = Inr dev' \<and> vty_inv dev' \<and>
          vty_count dev' = 3 \<and> vin dev' = 1 \<and> vout dev' = 0xFFFFFFFE"
proof -
  have "is_ok (vty_receive vty_near_wrap [1, 2, 3])"
    by (simp add: vty_receive_fits)
  then obtain dev' where r: "vty_receive vty_near_wrap [1, 2, 3] = Inr dev'"
    by (auto simp: is_ok_iff)
  from vty_receive_inv [OF _ r] r show ?thesis
    by simp
qed

text \<open>
  C28. \<open>vty_getchars\<close> always returns (its loop ends for every \<open>max\<close> and every
  position of the cursors), and it returns the number of bytes it took out: the smaller
  of \<open>max\<close> and the number of bytes pending, 0 for a \<open>max\<close> that is not positive. The
  device afterwards differs only in the read cursor, which has moved on by that number,
  and the caller's array keeps its length.
\<close>

theorem vty_getchars_returns:
  "(case vty_getchars dev obuf mx of
      (dev', obuf', n) \<Rightarrow>
        n = int (min (nat mx) (vty_count dev)) \<and>
        dev' = dev\<lparr>vout := vout dev + of_nat (nat n)\<rparr> \<and>
        length obuf' = length obuf)"
  by (subst vty_getchars_result) (simp add: vty_getchars_def vty_getchars_loop_length)

text \<open>
  C30. How the backend cuts its input into batches does not matter: under the invariant,
  one delivery of \<open>bs @ cs\<close> and a delivery of \<open>bs\<close> followed by one of \<open>cs\<close>
  end in the same device state, interrupt pulses included, or both stop at the
  \<^verbatim>\<open>assert\<close>.
\<close>

theorem vty_receive_append:
  assumes "vty_inv dev"
  shows "vty_receive dev (bs @ cs) = bind_result (vty_receive dev bs) (\<lambda>d. vty_receive d cs)"
proof (cases "bs = []")
  case True
  then show ?thesis by simp
next
  case False
  let ?d = "if vin dev = vout dev then qemu_irq_pulse dev else dev"
  from assms have le: "vty_count ?d \<le> 16"
    by (simp add: vty_inv_def)
  have "vty_receive_loop d cs = vty_receive d cs" if "vty_receive_loop ?d bs = Inr d" for d
    using vty_receive_loop_nonempty [OF that le False] by (simp add: vty_receive_def)
  then have "bind_result (vty_receive_loop ?d bs) (\<lambda>d. vty_receive_loop d cs) =
      bind_result (vty_receive_loop ?d bs) (\<lambda>d. vty_receive d cs)"
    by (cases "vty_receive_loop ?d bs") simp_all
  with False show ?thesis
    by (simp add: vty_receive_def vty_receive_loop_append)
qed

theorem vty_receive_append_witness:
  "vty_receive vty_near_wrap ([0x41, 0x42] @ [0x43]) =
     bind_result (vty_receive vty_near_wrap [0x41, 0x42]) (\<lambda>d. vty_receive d [0x43])"
  by (rule vty_receive_append) simp

text \<open>
  C31. The list model of \<open>vty_receive\<close> is the C function on every call within its
  contract: for a \<open>size\<close> from 0 up to the length of the memory behind \<^verbatim>\<open>buf\<close>, the
  function with pointer and size does what \<open>vty_receive\<close> does on the first \<open>size\<close>
  bytes, faults included.
\<close>

theorem vty_receive_raw_eq:
  assumes "0 \<le> sz" and "sz \<le> int (length ibuf)"
  shows "vty_receive_raw dev ibuf sz = vty_receive dev (take (nat sz) ibuf)"
proof -
  from assms have "take (nat sz) ibuf \<noteq> [] \<longleftrightarrow> sz \<noteq> 0"
    by auto
  with assms show ?thesis
    by (simp add: vty_receive_raw_def vty_receive_def vty_receive_raw_loop_list)
qed

theorem vty_receive_raw_eq_witness:
  "vty_receive_raw vty_near_wrap [1, 2, 3, 4] 3 = vty_receive vty_near_wrap [1, 2, 3]"
  using vty_receive_raw_eq [of 3 "[1, 2, 3, 4]" vty_near_wrap] by simp

text \<open>
  C35. Outside that contract: with a negative \<open>size\<close> the loop does not run, but the test
  \<^verbatim>\<open>&& size\<close> is true, so an empty ring pulses the interrupt although no byte arrives;
  with a \<open>size\<close> beyond the memory behind \<^verbatim>\<open>buf\<close> and room in the ring, the loop reads
  behind the end of the memory.
\<close>

theorem vty_receive_raw_outside:
  "(sz < 0 \<longrightarrow>
      vty_receive_raw dev ibuf sz = Inr (if vin dev = vout dev then qemu_irq_pulse dev else dev)) \<and>
   (int (length ibuf) < sz \<and> vty_inv dev \<and> vty_count dev + length ibuf < 16 \<longrightarrow>
      vty_receive_raw dev ibuf sz = Inl Out_of_bounds)"
proof (intro conjI impI)
  assume "sz < 0"
  then show "vty_receive_raw dev ibuf sz = Inr (if vin dev = vout dev then qemu_irq_pulse dev else dev)"
    by (simp add: vty_receive_raw_def vty_receive_raw_loop_done)
next
  assume a: "int (length ibuf) < sz \<and> vty_inv dev \<and> vty_count dev + length ibuf < 16"
  let ?d = "if vin dev = vout dev \<and> sz \<noteq> 0 then qemu_irq_pulse dev else dev"
  from a have "vty_receive_raw_loop ?d ibuf sz 0 = Inl Out_of_bounds"
    by (intro vty_receive_raw_loop_overrun) simp_all
  then show "vty_receive_raw dev ibuf sz = Inl Out_of_bounds"
    by (simp add: vty_receive_raw_def)
qed

theorem vty_receive_raw_outside_witness:
  "vty_receive_raw vty_near_wrap [1, 2] (- 1) = Inr (qemu_irq_pulse vty_near_wrap) \<and>
   vty_receive_raw vty_near_wrap [1, 2] 3 = Inl Out_of_bounds"
  using vty_receive_raw_outside [of "- 1" vty_near_wrap "[1, 2]"]
    vty_receive_raw_outside [of 3 vty_near_wrap "[1, 2]"]
  by simp

text \<open>
  C22. The store through the pointer of \<open>vty_getchars\<close> stays inside the caller's array
  exactly when the array has room for the bytes taken, the smaller of \<^verbatim>\<open>max\<close> and the
  count of pending bytes; then the function is the list model \<open>vty_getchars\<close>, and
  otherwise it writes behind the end of the array. The one call of the file passes an
  array of 16 bytes and 16 as \<^verbatim>\<open>max\<close>, which is within the array whatever is pending.
\<close>

theorem vty_getchars_raw_eq:
  "vty_getchars_raw dev obuf mx =
     (if min (nat mx) (vty_count dev) \<le> length obuf
      then Inr (vty_getchars dev obuf mx) else Inl Out_of_bounds)"
  using vty_getchars_raw_loop_eq [of 0 dev obuf mx]
  by (auto simp: vty_getchars_raw_def vty_getchars_def)

theorem vty_getchars_raw_eq_witness:
  "vty_getchars_raw (vty_near_wrap\<lparr>vin := 1\<rparr>) [0, 0] 16 = Inl Out_of_bounds \<and>
   vty_getchars_raw (vty_near_wrap\<lparr>vin := 1\<rparr>) (replicate 16 0) 16 =
     Inr (vty_getchars (vty_near_wrap\<lparr>vin := 1\<rparr>) (replicate 16 0) 16)"
  using vty_getchars_raw_eq [of "vty_near_wrap\<lparr>vin := 1\<rparr>" "[0, 0]" 16]
    vty_getchars_raw_eq [of "vty_near_wrap\<lparr>vin := 1\<rparr>" "replicate 16 0" 16]
  by (simp add: vty_count_def vty_near_wrap_def)

end
