(* ===== verification/VtyQueue.thy ===== *)
theory VtyQueue
  imports VtyRing
begin

text \<open>
  What the ring buffer promises, and that the code keeps the promise.

  The promise is a bounded FIFO queue of bytes with an edge notification (\<open>vty_spec\<close>
  and its operations \<open>spec_can_accept\<close>, \<open>spec_enqueue\<close>, \<open>spec_dequeue\<close>,
  \<open>spec_write_through\<close>), written from the design document of the repository and not
  from the C code. The abstraction function \<open>vty_abs\<close> reads a device as such a queue:
  the pending bytes are the slots from the read cursor up to the write cursor
  (\<open>vty_queue\<close>), the notifications are the pulses of the interrupt line, the sink is the
  log of the character backend.

  The refinement lemmas say that \<open>vty_abs\<close> commutes with each operation of
  \<open>VtyRing\<close>. \<open>vty_op\<close> is the interface both sides agree on; \<open>vty_exec\<close> and
  \<open>spec_exec\<close> run one operation, \<open>vty_run\<close> and \<open>spec_run\<close> a sequence, stopping
  at the first fault.
\<close>

section \<open>The ring read as a list\<close>

definition vty_slot :: "'chr VIOsPAPRVTYDevice \<Rightarrow> nat \<Rightarrow> u8" where
  "vty_slot dev k = buf dev ! ((unat (vout dev) + k) mod VTERM_BUFSIZE)"

definition vty_queue :: "'chr VIOsPAPRVTYDevice \<Rightarrow> u8 list" where
  "vty_queue dev = map (vty_slot dev) [0..<vty_count dev]"

definition vty_sink :: "CharDriverState VIOsPAPRVTYDevice \<Rightarrow> u8 list list" where
  "vty_sink dev = (case chardev dev of None \<Rightarrow> [] | Some chr \<Rightarrow> chr_written chr)"

section \<open>The specification\<close>

record vty_spec =
  pending :: "u8 list"
  notifies :: nat
  sink :: "u8 list list"

definition spec_can_accept :: "vty_spec \<Rightarrow> bool" where
  "spec_can_accept s \<longleftrightarrow> length (pending s) < VTERM_BUFSIZE"

definition spec_enqueue :: "vty_spec \<Rightarrow> u8 list \<Rightarrow> vty_spec result" where
  "spec_enqueue s bs =
     (if length (pending s) + length bs \<le> VTERM_BUFSIZE
      then Inr (s\<lparr>pending := pending s @ bs,
                  notifies := notifies s + (if pending s = [] \<and> bs \<noteq> [] then 1 else 0)\<rparr>)
      else Inl Assert_failed)"

definition spec_dequeue :: "vty_spec \<Rightarrow> nat \<Rightarrow> u8 list \<times> vty_spec" where
  "spec_dequeue s k = (take k (pending s), s\<lparr>pending := drop k (pending s)\<rparr>)"

definition spec_write_through :: "vty_spec \<Rightarrow> u8 list \<Rightarrow> vty_spec" where
  "spec_write_through s bs = s\<lparr>sink := sink s @ [bs]\<rparr>"

definition vty_abs :: "CharDriverState VIOsPAPRVTYDevice \<Rightarrow> vty_spec" where
  "vty_abs dev = \<lparr>pending = vty_queue dev, notifies = qirq dev, sink = vty_sink dev\<rparr>"

section \<open>The interface\<close>

datatype vty_op = Receive "u8 list" | Getchars nat | Putchars "u8 list"

fun vty_exec :: "CharDriverState VIOsPAPRVTYDevice \<Rightarrow> vty_op \<Rightarrow> (u8 list \<times> CharDriverState VIOsPAPRVTYDevice) result" where
  "vty_exec dev (Receive bs) = bind_result (vty_receive dev bs) (\<lambda>dev'. Inr ([], dev'))"
| "vty_exec dev (Getchars k) =
     (case vty_getchars dev (replicate k 0) (int k) of
        (dev', obuf, n) \<Rightarrow> Inr (take (nat n) obuf, dev'))"
| "vty_exec dev (Putchars bs) =
     bind_result (vty_putchars dev bs (int (length bs))) (\<lambda>dev'. Inr ([], dev'))"

fun spec_exec :: "vty_spec \<Rightarrow> vty_op \<Rightarrow> (u8 list \<times> vty_spec) result" where
  "spec_exec s (Receive bs) = bind_result (spec_enqueue s bs) (\<lambda>s'. Inr ([], s'))"
| "spec_exec s (Getchars k) = Inr (spec_dequeue s k)"
| "spec_exec s (Putchars bs) = Inr ([], spec_write_through s bs)"

abbreviation vty_run ::
  "CharDriverState VIOsPAPRVTYDevice \<Rightarrow> vty_op list \<Rightarrow>
     (u8 list list \<times> CharDriverState VIOsPAPRVTYDevice) result" where
  "vty_run \<equiv> run_result vty_exec"

abbreviation spec_run :: "vty_spec \<Rightarrow> vty_op list \<Rightarrow> (u8 list list \<times> vty_spec) result" where
  "spec_run \<equiv> run_result spec_exec"

definition abs_result ::
  "('a \<times> CharDriverState VIOsPAPRVTYDevice) result \<Rightarrow> ('a \<times> vty_spec) result" where
  "abs_result r = map_sum id (map_prod id vty_abs) r"

definition vty_ready :: "CharDriverState VIOsPAPRVTYDevice \<Rightarrow> bool" where
  "vty_ready dev \<longleftrightarrow> vty_inv dev \<and> chardev dev \<noteq> None"

lemmas [vty_defs] =
  spec_can_accept_def spec_enqueue_def spec_dequeue_def spec_write_through_def vty_abs_def

section \<open>Slots\<close>

lemma length_vty_queue [simp]: "length (vty_queue dev) = vty_count dev"
  by (simp add: vty_queue_def)

lemma vty_queue_empty [simp]: "vout dev = vin dev \<Longrightarrow> vty_queue dev = []"
  by (simp add: vty_queue_def vty_count_empty)

lemma vty_queue_Nil_iff: "vty_queue dev = [] \<longleftrightarrow> vin dev = vout dev"
  using vty_count_0_iff [of dev] by (auto simp: vty_queue_def)

lemma vin_slot_index: "unat (vin dev) mod 16 = (unat (vout dev) + vty_count dev) mod 16"
  by (simp add: vty_count_def cursor_head_index [of "vin dev" "vout dev"])

lemma vty_slot_ring_put_old:
  assumes "k < vty_count dev" and "vty_count dev < 16"
  shows "vty_slot (ring_put dev b) k = vty_slot dev k"
proof -
  have "(unat (vout dev) + k) mod 16 \<noteq> (unat (vout dev) + vty_count dev) mod 16"
    using assms by (intro mod16_slots_distinct) simp_all
  then show ?thesis
    by (simp add: vty_slot_def vin_slot_index)
qed

lemma vty_slot_ring_put_new:
  "length (buf dev) = 16 \<Longrightarrow> vty_slot (ring_put dev b) (vty_count dev) = b"
  by (simp add: vty_slot_def vin_slot_index)

lemma vty_queue_ring_put:
  assumes "vty_inv dev" and "vty_count dev < 16"
  shows "vty_queue (ring_put dev b) = vty_queue dev @ [b]"
proof -
  have "map (vty_slot (ring_put dev b)) [0..<vty_count dev] = map (vty_slot dev) [0..<vty_count dev]"
    using assms by (intro map_upt_cong vty_slot_ring_put_old)
  with assms show ?thesis
    by (simp add: vty_queue_def vty_count_ring_put vty_slot_ring_put_new vty_inv_def)
qed

lemma vty_slot_ring_get: "vty_slot (snd (ring_get dev)) k = vty_slot dev (Suc k)"
proof -
  have "(unat (vout dev + 1) + k) mod 16 = (unat (vout dev + 1) mod 16 + k) mod 16"
    by (simp add: mod_add_left_eq)
  also have "\<dots> = (Suc (unat (vout dev)) + k) mod 16"
    by (simp add: unat_Suc_mod16 mod_add_left_eq)
  finally show ?thesis
    by (simp add: vty_slot_def)
qed

lemma vty_queue_ring_get:
  assumes "vout dev \<noteq> vin dev"
  shows "vty_queue dev = fst (ring_get dev) # vty_queue (snd (ring_get dev))"
proof -
  from assms obtain c where c: "vty_count dev = Suc c"
    using vty_count_pos [of dev] by (cases "vty_count dev") auto
  have "vty_slot dev 0 = fst (ring_get dev)"
    by (simp add: vty_slot_def)
  with c assms show ?thesis
    by (simp add: vty_queue_def vty_count_ring_get map_upt_Suc_Cons vty_slot_ring_get
        del: upt_Suc)
qed

section \<open>The loops\<close>

lemma vty_queue_receive_loop:
  "vty_receive_loop dev bs = Inr dev' \<Longrightarrow> vty_inv dev \<Longrightarrow> vty_queue dev' = vty_queue dev @ bs"
proof (induction dev bs rule: vty_receive_loop.induct)
  case (1 dev)
  then show ?case by simp
next
  case (2 dev b bs)
  from "2.prems" have room: "vty_count dev < 16"
    and rest: "vty_receive_loop (ring_put dev b) bs = Inr dev'"
    by (auto simp: vty_guard_iff split: if_splits)
  with "2.prems" have "vty_queue dev' = vty_queue (ring_put dev b) @ bs"
    by (intro "2.IH") (simp_all add: vty_guard_iff vty_inv_ring_put)
  with "2.prems" room show ?case
    by (simp add: vty_queue_ring_put)
qed

lemma vty_getchars_loop_obuf:
  assumes "i + min m (vty_count dev) \<le> length obuf"
  shows "fst (snd (vty_getchars_loop dev obuf (int (i + m)) (int i))) =
           take i obuf @ take m (vty_queue dev) @ drop (i + min m (vty_count dev)) obuf"
  using assms
proof (induction m arbitrary: dev obuf i)
  case 0
  then show ?case
    by (simp add: vty_getchars_loop_stop)
next
  case (Suc m)
  show ?case
  proof (cases "vout dev = vin dev")
    case True
    then show ?thesis
      by (simp add: vty_getchars_loop_stop vty_count_empty)
  next
    case False
    let ?c = "fst (ring_get dev)" and ?d = "snd (ring_get dev)"
    from False have cnt: "vty_count dev = Suc (vty_count ?d)"
      using vty_count_pos [of dev] by (simp add: vty_count_ring_get)
    with Suc.prems have len: "i < length obuf" "Suc i + min m (vty_count ?d) \<le> length obuf"
      by simp_all
    have "fst (snd (vty_getchars_loop dev obuf (int (i + Suc m)) (int i))) =
        fst (snd (vty_getchars_loop ?d (obuf[i := ?c]) (int (Suc i + m)) (int (Suc i))))"
      using False by (simp add: vty_getchars_loop_step add.commute)
    also have "\<dots> = take (Suc i) (obuf[i := ?c]) @ take m (vty_queue ?d) @
        drop (Suc i + min m (vty_count ?d)) (obuf[i := ?c])"
      using len by (intro Suc.IH) simp
    finally show ?thesis
      using False len cnt by (simp add: vty_queue_ring_get [of dev] take_Suc_update_last)
  qed
qed

lemma vty_queue_getchars_loop:
  "vty_queue (fst (vty_getchars_loop dev obuf (int (i + m)) (int i))) = drop m (vty_queue dev)"
proof (induction m arbitrary: dev obuf i)
  case 0
  then show ?case
    by (simp add: vty_getchars_loop_stop)
next
  case (Suc m)
  show ?case
  proof (cases "vout dev = vin dev")
    case True
    then show ?thesis
      by (simp add: vty_getchars_loop_stop)
  next
    case False
    have "vty_queue (fst (vty_getchars_loop dev obuf (int (i + Suc m)) (int i))) =
        vty_queue (fst (vty_getchars_loop (snd (ring_get dev)) (obuf[i := fst (ring_get dev)])
          (int (Suc i + m)) (int (Suc i))))"
      using False by (simp add: vty_getchars_loop_step add.commute)
    also have "\<dots> = drop m (vty_queue (snd (ring_get dev)))"
      by (rule Suc.IH)
    finally show ?thesis
      using False by (simp add: vty_queue_ring_get [of dev])
  qed
qed

lemma vty_getchars_neg: "mx \<le> 0 \<Longrightarrow> vty_getchars dev obuf mx = (dev, obuf, 0)"
  by (simp add: vty_getchars_def vty_getchars_loop_stop)

lemma vty_getchars_count:
  "snd (snd (vty_getchars dev obuf mx)) = int (min (nat mx) (vty_count dev))"
  by (simp add: vty_getchars_def vty_getchars_loop_n)

lemma vty_getchars_dev:
  "fst (vty_getchars dev obuf mx) = dev\<lparr>vout := vout dev + of_nat (min (nat mx) (vty_count dev))\<rparr>"
  by (simp add: vty_getchars_def vty_getchars_loop_dev)

lemma vty_getchars_obuf:
  "min m (vty_count dev) \<le> length obuf \<Longrightarrow>
     fst (snd (vty_getchars dev obuf (int m))) =
       take m (vty_queue dev) @ drop (min m (vty_count dev)) obuf"
  using vty_getchars_loop_obuf [of 0 m dev obuf] by (simp add: vty_getchars_def)

lemma vty_queue_getchars:
  "vty_queue (fst (vty_getchars dev obuf (int m))) = drop m (vty_queue dev)"
  using vty_queue_getchars_loop [of dev obuf 0 m] by (simp add: vty_getchars_def)

lemma vty_getchars_bytes:
  assumes "min m (vty_count dev) \<le> length obuf"
  shows "take (nat (snd (snd (vty_getchars dev obuf (int m))))) (fst (snd (vty_getchars dev obuf (int m))))
         = take m (vty_queue dev)"
  using assms by (simp add: vty_getchars_count vty_getchars_obuf min_def)

section \<open>Refinement\<close>

lemma vty_queue_irq_pulse [simp]: "vty_queue (qemu_irq_pulse dev) = vty_queue dev"
  by (simp add: vty_queue_def vty_slot_def)

lemma vty_receive_Inr:
  assumes "vty_receive dev bs = Inr dev'" and "vty_inv dev"
  shows "vty_queue dev' = vty_queue dev @ bs"
    and "qirq dev' = qirq dev + (if vty_queue dev = [] \<and> bs \<noteq> [] then 1 else 0)"
    and "chardev dev' = chardev dev"
    and "vty_inv dev'"
proof -
  define dev0 where "dev0 = (if vin dev = vout dev \<and> bs \<noteq> [] then qemu_irq_pulse dev else dev)"
  from assms have loop: "vty_receive_loop dev0 bs = Inr dev'" and inv: "vty_inv dev0"
    by (simp_all add: vty_receive_def dev0_def)
  have q0: "vty_queue dev0 = vty_queue dev" and c0: "chardev dev0 = chardev dev"
    and i0: "qirq dev0 = qirq dev + (if vty_queue dev = [] \<and> bs \<noteq> [] then 1 else 0)"
    by (simp_all add: dev0_def vty_queue_Nil_iff)
  from loop inv q0 show "vty_queue dev' = vty_queue dev @ bs"
    by (simp add: vty_queue_receive_loop)
  from loop i0 show "qirq dev' = qirq dev + (if vty_queue dev = [] \<and> bs \<noteq> [] then 1 else 0)"
    by (simp add: vty_receive_loop_frame)
  from loop c0 show "chardev dev' = chardev dev"
    by (simp add: vty_receive_loop_frame)
  from loop inv show "vty_inv dev'"
    by (rule vty_inv_receive_loop)
qed

lemma vty_receive_abs:
  assumes "vty_inv dev"
  shows "map_sum id vty_abs (vty_receive dev bs) = spec_enqueue (vty_abs dev) bs"
proof (cases "vty_count dev + length bs \<le> 16")
  case True
  with assms obtain dev' where r: "vty_receive dev bs = Inr dev'"
    using vty_receive_fits [of dev bs] by (auto simp: is_ok_iff)
  with True show ?thesis
    by (simp add: spec_enqueue_def vty_abs_def vty_sink_def vty_receive_Inr [OF r assms])
next
  case False
  with assms have "vty_receive dev bs = Inl Assert_failed"
    by (simp add: vty_receive_overflow)
  with False show ?thesis
    by (simp add: spec_enqueue_def vty_abs_def)
qed

lemma vty_getchars_abs:
  assumes "min m (vty_count dev) \<le> length obuf"
  shows "(case vty_getchars dev obuf (int m) of
            (dev', obuf', n) \<Rightarrow> (take (nat n) obuf', vty_abs dev')) =
         spec_dequeue (vty_abs dev) m"
proof -
  obtain dev' obuf' n where g: "vty_getchars dev obuf (int m) = (dev', obuf', n)"
    by (cases "vty_getchars dev obuf (int m)")
  then have "dev' = fst (vty_getchars dev obuf (int m))"
    and "obuf' = fst (snd (vty_getchars dev obuf (int m)))"
    and "n = snd (snd (vty_getchars dev obuf (int m)))"
    by simp_all
  with assms have "take (nat n) obuf' = take m (vty_queue dev)"
    and "vty_queue dev' = drop m (vty_queue dev)"
    and "qirq dev' = qirq dev" and "vty_sink dev' = vty_sink dev"
    by (simp_all only: vty_getchars_bytes vty_queue_getchars)
       (simp_all add: vty_getchars_dev vty_sink_def)
  with g show ?thesis
    by (simp add: spec_dequeue_def vty_abs_def)
qed

lemma vty_putchars_Some:
  "chardev dev = Some chr \<Longrightarrow>
     vty_putchars dev b len = Inr (dev\<lparr>chardev := Some (qemu_chr_fe_write chr b len)\<rparr>)"
  by (simp add: vty_putchars_def)

lemma vty_queue_chardev_update [simp]: "vty_queue (dev\<lparr>chardev := c\<rparr>) = vty_queue dev"
  by (simp add: vty_queue_def vty_slot_def vty_count_def)

lemma vty_putchars_abs:
  assumes "chardev dev \<noteq> None"
  shows "map_sum id vty_abs (vty_putchars dev b len) =
           Inr (spec_write_through (vty_abs dev) (take (nat len) b))"
proof -
  from assms obtain chr where chr: "chardev dev = Some chr"
    by auto
  then have "vty_sink (dev\<lparr>chardev := Some (qemu_chr_fe_write chr b len)\<rparr>) =
      vty_sink dev @ [take (nat len) b]"
    by (simp add: vty_sink_def qemu_chr_fe_write_def)
  with chr show ?thesis
    by (simp add: vty_putchars_Some vty_abs_def spec_write_through_def)
qed


section \<open>Operations of the interface\<close>

lemma vty_ready_receive:
  "vty_receive dev bs = Inr dev' \<Longrightarrow> vty_ready dev \<Longrightarrow> vty_ready dev'"
  by (auto simp: vty_ready_def intro: vty_inv_intros dest: vty_receive_frame)

lemma vty_count_getchars:
  "vty_count (fst (vty_getchars dev obuf mx)) = vty_count dev - nat mx"
proof (cases "mx \<le> 0")
  case True
  then show ?thesis
    by (simp add: vty_getchars_neg)
next
  case False
  then obtain m where m: "mx = int m"
    by (metis nat_0_le linear)
  have "vty_count (fst (vty_getchars dev obuf (int m))) =
      length (vty_queue (fst (vty_getchars dev obuf (int m))))"
    by simp
  also have "\<dots> = length (drop m (vty_queue dev))"
    by (simp only: vty_queue_getchars)
  finally show ?thesis
    by (simp add: m)
qed

lemma vty_getchars_frame [simp]:
  "buf (fst (vty_getchars dev obuf mx)) = buf dev"
  "vin (fst (vty_getchars dev obuf mx)) = vin dev"
  "reg (fst (vty_getchars dev obuf mx)) = reg dev"
  "qirq (fst (vty_getchars dev obuf mx)) = qirq dev"
  "chardev (fst (vty_getchars dev obuf mx)) = chardev dev"
  by (simp_all add: vty_getchars_dev)

lemma vty_inv_getchars [vty_inv_intros]:
  "vty_inv dev \<Longrightarrow> vty_inv (fst (vty_getchars dev obuf mx))"
  by (auto simp: vty_inv_def vty_count_getchars)

lemma vty_ready_getchars: "vty_ready dev \<Longrightarrow> vty_ready (fst (vty_getchars dev obuf mx))"
  by (simp add: vty_ready_def vty_inv_intros)

lemma vty_ready_putchars:
  "vty_putchars dev b len = Inr dev' \<Longrightarrow> vty_ready dev \<Longrightarrow> vty_ready dev'"
  by (auto simp: vty_ready_def vty_putchars_def vty_inv_def vty_count_def split: option.splits)

lemma vty_ready_exec:
  assumes "vty_exec dev op = Inr (out, dev')" and "vty_ready dev"
  shows "vty_ready dev'"
proof (cases op)
  case (Receive bs)
  with assms show ?thesis
    by (auto simp: bind_result_eq_Inr_iff dest: vty_ready_receive)
next
  case (Getchars k)
  with assms have "dev' = fst (vty_getchars dev (replicate k 0) (int k))"
    by (auto simp: case_prod_beta)
  with assms show ?thesis
    by (simp add: vty_ready_getchars)
next
  case (Putchars bs)
  with assms show ?thesis
    by (auto simp: bind_result_eq_Inr_iff dest: vty_ready_putchars)
qed

lemma abs_result_bind:
  "abs_result (bind_result r (\<lambda>d. Inr (x, d))) = bind_result (map_sum id vty_abs r) (\<lambda>s. Inr (x, s))"
  by (cases r) (simp_all add: abs_result_def)

lemma vty_exec_abs:
  assumes "vty_ready dev"
  shows "abs_result (vty_exec dev op) = spec_exec (vty_abs dev) op"
proof (cases op)
  case (Receive bs)
  with assms show ?thesis
    by (simp add: abs_result_bind vty_receive_abs vty_ready_def)
next
  case (Getchars k)
  have "min k (vty_count dev) \<le> length (replicate k (0 :: u8))"
    by simp
  from vty_getchars_abs [OF this] Getchars show ?thesis
    by (simp add: abs_result_def case_prod_beta)
next
  case (Putchars bs)
  with assms show ?thesis
    by (simp add: abs_result_bind vty_putchars_abs vty_ready_def)
qed

lemma vty_queue_cong:
  "vin dev' = vin dev \<Longrightarrow> vout dev' = vout dev \<Longrightarrow> buf dev' = buf dev \<Longrightarrow>
     vty_queue dev' = vty_queue dev \<and> vty_count dev' = vty_count dev"
  by (simp add: vty_queue_def vty_slot_def vty_count_def)

lemma vty_getchars_eq:
  assumes "min m (vty_count dev) \<le> length obuf"
  shows "vty_getchars dev obuf (int m) =
           (dev\<lparr>vout := vout dev + of_nat (min m (vty_count dev))\<rparr>,
            take m (vty_queue dev) @ drop (min m (vty_count dev)) obuf,
            int (min m (vty_count dev)))"
  using vty_getchars_result [of dev obuf "int m"] vty_getchars_obuf [OF assms]
  by simp

lemma vty_abs_near_wrap [simp]:
  "vty_abs vty_near_wrap = \<lparr>pending = [], notifies = 0, sink = []\<rparr>"
  "vty_ready vty_near_wrap"
  by (simp_all add: vty_abs_def vty_ready_def vty_sink_def)

section \<open>Properties of the queue\<close>

text \<open>
  C1. The ring buffer implements the bounded FIFO queue of the design: for a device that
  satisfies the invariant and has its backend, every sequence of deliveries, reads and
  writes run on the device gives the outputs, the fault (if one occurs) and the final
  abstract state that the same sequence gives when run on the specification.
\<close>

theorem vty_run_refines:
  assumes "vty_ready dev"
  shows "abs_result (vty_run dev ops) = spec_run (vty_abs dev) ops"
proof -
  have "map_sum id (map_prod (map id) vty_abs) (vty_run dev ops) =
      spec_run (vty_abs dev) (map id ops)"
  proof (rule run_result_refines [where I = vty_ready and P = "\<lambda>s e. True"])
    show "vty_ready dev'" if "vty_ready dev" and "vty_exec dev op = Inr (out, dev')"
      for dev op out dev'
      using that(2,1) by (rule vty_ready_exec)
    show "map_sum id (map_prod id vty_abs) (vty_exec dev op) = spec_exec (vty_abs dev) (id op)"
      if "vty_ready dev" for dev op
      using that vty_exec_abs [of dev op] by (simp add: abs_result_def)
  qed (simp_all add: assms)
  then show ?thesis
    by (simp add: abs_result_def)
qed

theorem vty_run_refines_witness:
  "abs_result (vty_run vty_near_wrap [Receive [1, 2, 3], Receive [4, 5], Getchars 16, Receive [6]]) =
     Inr ([[], [], [1, 2, 3, 4, 5], []], \<lparr>pending = [6], notifies = 2, sink = []\<rparr>)"
proof -
  let ?ops = "[Receive [1, 2, 3], Receive [4, 5], Getchars 16, Receive [6]]"
  have "abs_result (vty_run vty_near_wrap ?ops) = spec_run (vty_abs vty_near_wrap) ?ops"
    by (rule vty_run_refines) simp
  also have "\<dots> = Inr ([[], [], [1, 2, 3, 4, 5], []], \<lparr>pending = [6], notifies = 2, sink = []\<rparr>)"
    by (simp add: spec_enqueue_def spec_dequeue_def)
  finally show ?thesis .
qed

text \<open>
  C25. A delivery that returns appends its bytes, in their order, behind the bytes that
  are pending, also when the write cursor wraps around the end of the buffer or at
  \<open>2 ^ 32\<close>; it pulses the interrupt line once if the ring was empty and the batch is
  not, and not at all otherwise.
\<close>

theorem vty_receive_enqueues:
  assumes "vty_inv dev" and "vty_receive dev bs = Inr dev'"
  shows "vty_queue dev' = vty_queue dev @ bs \<and>
         qirq dev' = qirq dev + (if vty_queue dev = [] \<and> bs \<noteq> [] then 1 else 0)"
  using vty_receive_Inr [OF assms(2,1)] by simp

theorem vty_receive_enqueues_witness:
  "\<exists>dev'. vty_receive vty_near_wrap [1, 2, 3] = Inr dev' \<and> vty_queue dev' = [1, 2, 3] \<and>
          qirq dev' = 1"
proof -
  have "is_ok (vty_receive vty_near_wrap [1, 2, 3])"
    by (simp add: vty_receive_fits)
  then obtain dev' where r: "vty_receive vty_near_wrap [1, 2, 3] = Inr dev'"
    by (auto simp: is_ok_iff)
  from vty_receive_enqueues [OF _ r] r show ?thesis
    by simp
qed

text \<open>
  C26. \<open>vty_getchars\<close> with limit \<open>m\<close> takes the first \<open>m\<close> pending bytes (all of them
  if fewer are pending) out of the ring, oldest first: they are the first \<open>n\<close> bytes of
  the caller's array afterwards, the rest of the array is as it was, and the bytes that
  stay pending are the ones behind those taken.
\<close>

theorem vty_getchars_dequeues:
  assumes "min m (vty_count dev) \<le> length obuf"
  shows "(case vty_getchars dev obuf (int m) of
            (dev', obuf', n) \<Rightarrow>
              nat n = min m (vty_count dev) \<and>
              take (nat n) obuf' = take m (vty_queue dev) \<and>
              drop (nat n) obuf' = drop (nat n) obuf \<and>
              vty_queue dev' = drop m (vty_queue dev))"
  using vty_queue_getchars [of dev obuf m] assms
  by (simp add: vty_getchars_eq [OF assms] min_def)

theorem vty_getchars_dequeues_witness:
  "(case vty_getchars (vty_near_wrap\<lparr>vin := 1, buf := [3, 0, 0, 0, 0, 0, 0, 0, 0, 0, 0, 0, 0, 0, 1, 2]\<rparr>)
          (replicate 4 9) 2 of
      (dev', obuf', n) \<Rightarrow>
        n = 2 \<and> take 2 obuf' = [1, 2] \<and> drop 2 obuf' = replicate 2 9 \<and> vty_queue dev' = [3])"
proof -
  let ?dev = "vty_near_wrap\<lparr>vin := 1, buf := [3, 0, 0, 0, 0, 0, 0, 0, 0, 0, 0, 0, 0, 0, 1, 2]\<rparr>"
  have c: "vty_count ?dev = 3"
    by (simp add: vty_count_def)
  then have q: "vty_queue ?dev = [1, 2, 3]"
    by (simp add: vty_queue_def vty_slot_def upt_rec)
  from vty_getchars_dequeues [of 2 ?dev "replicate 4 9"] c q show ?thesis
    by (auto split: prod.splits)
qed

text \<open>
  C38. \<open>vty_putchars\<close> hands the first \<open>len\<close> bytes of its buffer to the character
  backend as one write and touches neither the ring nor the interrupt line; on a device
  without a backend it dereferences the null pointer.
\<close>

theorem vty_putchars_through:
  "(chardev dev = None \<longrightarrow> vty_putchars dev b len = Inl Null_chardev) \<and>
   (chardev dev \<noteq> None \<longrightarrow>
      (\<exists>dev'. vty_putchars dev b len = Inr dev' \<and>
         vty_sink dev' = vty_sink dev @ [take (nat len) b] \<and>
         vty_queue dev' = vty_queue dev \<and> qirq dev' = qirq dev \<and> reg dev' = reg dev))"
proof (cases "chardev dev")
  case None
  then show ?thesis
    by (simp add: vty_putchars_def)
next
  case (Some chr)
  then have "vty_sink (dev\<lparr>chardev := Some (qemu_chr_fe_write chr b len)\<rparr>) =
      vty_sink dev @ [take (nat len) b]"
    by (simp add: vty_sink_def qemu_chr_fe_write_def)
  with Some show ?thesis
    by (simp add: vty_putchars_Some)
qed

theorem vty_putchars_through_witness:
  "\<exists>dev'. vty_putchars vty_near_wrap [65, 66, 67, 68] 3 = Inr dev' \<and>
          vty_sink dev' = [[65, 66, 67]] \<and> vty_queue dev' = []"
  using vty_putchars_through [of vty_near_wrap "[65, 66, 67, 68]" 3]
  by (auto simp: vty_sink_def)

text \<open>
  Round trip through the ring: what is delivered into an empty ring, up to 16 bytes,
  is what one read of 16 takes out, in the same order, and the ring is empty again.
\<close>

lemma vty_receive_getchars_roundtrip:
  assumes "vty_inv dev" and "vty_count dev = 0" and "length bs \<le> 16" and "length obuf = 16"
  shows "\<exists>dev' dev'' obuf'.
           vty_receive dev bs = Inr dev' \<and>
           vty_getchars dev' obuf 16 = (dev'', obuf', int (length bs)) \<and>
           take (length bs) obuf' = bs \<and> vty_count dev'' = 0"
proof -
  from assms obtain dev' where r: "vty_receive dev bs = Inr dev'"
    using vty_receive_fits [of dev bs] by (auto simp: is_ok_iff)
  from assms(2) have "vty_queue dev = []"
    by (simp add: vty_queue_def)
  with vty_receive_Inr(1) [OF r assms(1)] have q: "vty_queue dev' = bs"
    by simp
  then have c: "vty_count dev' = length bs"
    by (simp add: length_vty_queue [symmetric] del: length_vty_queue)
  with assms(3,4) have "min 16 (vty_count dev') \<le> length obuf"
    by simp
  from vty_getchars_eq [OF this] vty_count_getchars [of dev' obuf 16] q c assms(3) r
  show ?thesis
    by (simp add: min_def)
qed

end
