(* ===== verification/VioBus.thy ===== *)
theory VioBus
  imports VtyRing
begin

text \<open>
  The VIO bus as far as \<^verbatim>\<open>src/hw/spapr_vty.c\<close> looks at it, and the selection of the
  device a hypercall addresses: \<open>spapr_vty_get_default\<close> and \<open>vty_lookup\<close>.

  The bus is the list of its children in the order of \<^verbatim>\<open>QTAILQ_FOREACH\<close>. A child is a
  VTY or some other VIO device (the bus also carries network and storage adapters, which
  is why \<open>spapr_vty_get_default\<close> tests the type of each child). A pointer to a child is
  its position in the list; \<^verbatim>\<open>NULL\<close> is \<open>None\<close>. \<open>spapr_vio_find_by_reg\<close> belongs to the
  bus code outside this file and is modelled from its contract: the first child whose
  \<open>reg\<close> is the one asked for. Bus and machine inherit the type parameter \<open>'chr\<close> of the
  device; the lookup reads \<open>reg\<close> and the type of a child only and is defined for every
  \<open>'chr\<close>.

  Lemmas: what the selection loop returns (a VTY of least \<open>reg\<close>, the first such in bus
  order; nothing exactly when the bus has no VTY), and the case analysis of
  \<open>vty_lookup\<close>.
\<close>

section \<open>Bus and children\<close>

datatype 'chr DeviceState = Spapr_vty "'chr VIOsPAPRVTYDevice" | Spapr_other VIOsPAPRDevice

type_synonym 'chr VIOsPAPRBus = "'chr DeviceState list"

record 'chr sPAPREnvironment =
  vio_bus :: "'chr VIOsPAPRBus"

fun dev_reg :: "'chr DeviceState \<Rightarrow> target_ulong" where
  "dev_reg (Spapr_vty dev) = reg dev"
| "dev_reg (Spapr_other sdev) = reg sdev"

fun is_vty :: "'chr DeviceState \<Rightarrow> bool" where
  "is_vty (Spapr_vty dev) = True"
| "is_vty (Spapr_other sdev) = False"

definition spapr_vio_find_by_reg :: "'chr VIOsPAPRBus \<Rightarrow> target_ulong \<Rightarrow> nat option" where
  "spapr_vio_find_by_reg bus r = find (\<lambda>i. dev_reg (bus ! i) = r) [0..<length bus]"

section \<open>Selection\<close>

text \<open>
  The loop of \<open>spapr_vty_get_default\<close> over the children still to visit; \<open>selected\<close> is
  the candidate so far.
\<close>

fun get_default_loop :: "'chr VIOsPAPRBus \<Rightarrow> nat list \<Rightarrow> nat option \<Rightarrow> nat option" where
  "get_default_loop bus [] selected = selected"
| "get_default_loop bus (iter # rest) selected =
     (if \<not> is_vty (bus ! iter) then get_default_loop bus rest selected
      else case selected of
             None \<Rightarrow> get_default_loop bus rest (Some iter)
           | Some sel \<Rightarrow>
               if dev_reg (bus ! iter) < dev_reg (bus ! sel)
               then get_default_loop bus rest (Some iter)
               else get_default_loop bus rest selected)"

definition spapr_vty_get_default :: "'chr VIOsPAPRBus \<Rightarrow> nat option" where
  "spapr_vty_get_default bus = get_default_loop bus [0..<length bus] None"

definition vty_lookup :: "'chr sPAPREnvironment \<Rightarrow> target_ulong \<Rightarrow> nat option" where
  "vty_lookup spapr r =
     (case spapr_vio_find_by_reg (vio_bus spapr) r of
        None \<Rightarrow> if r = 0 then spapr_vty_get_default (vio_bus spapr) else None
      | Some sdev \<Rightarrow> Some sdev)"

section \<open>What selection promises\<close>

text \<open>
  \<open>least_vty bus S sel\<close>: among the children at the positions \<open>S\<close>, \<open>sel\<close> is the VTY of
  least \<open>reg\<close>, the earliest one if several share it; \<open>None\<close> if there is no VTY.
\<close>

definition least_vty :: "'chr VIOsPAPRBus \<Rightarrow> nat set \<Rightarrow> nat option \<Rightarrow> bool" where
  "least_vty bus S sel \<longleftrightarrow>
     (case sel of
        None \<Rightarrow> \<forall>j \<in> S. \<not> is_vty (bus ! j)
      | Some s \<Rightarrow> s \<in> S \<and> is_vty (bus ! s) \<and>
          (\<forall>j \<in> S. is_vty (bus ! j) \<longrightarrow>
             dev_reg (bus ! s) < dev_reg (bus ! j) \<or> (dev_reg (bus ! s) = dev_reg (bus ! j) \<and> s \<le> j)))"

text \<open>
  \<open>same_shape\<close>: two buses have the same children as far as lookup can tell, the kind and
  the \<open>reg\<close> at each position.
\<close>

definition same_shape :: "'a VIOsPAPRBus \<Rightarrow> 'b VIOsPAPRBus \<Rightarrow> bool" where
  "same_shape bus bus' \<longleftrightarrow> map dev_reg bus = map dev_reg bus' \<and> map is_vty bus = map is_vty bus'"

text \<open>A bus to evaluate on: VTYs with \<open>reg\<close> 5, 2 and 9 and a network adapter between them.\<close>

definition bus_529 :: "CharDriverState VIOsPAPRBus" where
  "bus_529 =
     [Spapr_vty (vty_fresh 5 (Some (chr_idle 0))),
      Spapr_other \<lparr>reg = 1, qirq = 0\<rparr>,
      Spapr_vty (vty_fresh 2 (Some (chr_idle 2))),
      Spapr_vty (vty_fresh 9 (Some (chr_idle 3)))]"

lemmas [vty_defs] = spapr_vio_find_by_reg_def spapr_vty_get_default_def vty_lookup_def

section \<open>The selection loop\<close>

lemma least_vty_empty: "least_vty bus {} None"
  by (simp add: least_vty_def)

lemma least_vty_skip:
  "least_vty bus S sel \<Longrightarrow> \<not> is_vty (bus ! i) \<Longrightarrow> least_vty bus (insert i S) sel"
  by (auto simp: least_vty_def split: option.splits)

lemma least_vty_first:
  "least_vty bus S None \<Longrightarrow> is_vty (bus ! i) \<Longrightarrow> least_vty bus (insert i S) (Some i)"
  by (auto simp: least_vty_def)

lemma least_vty_better:
  "least_vty bus S (Some s) \<Longrightarrow> is_vty (bus ! i) \<Longrightarrow> dev_reg (bus ! i) < dev_reg (bus ! s) \<Longrightarrow>
     least_vty bus (insert i S) (Some i)"
  by (fastforce simp: least_vty_def)

lemma least_vty_keep:
  "least_vty bus S (Some s) \<Longrightarrow> \<not> dev_reg (bus ! i) < dev_reg (bus ! s) \<Longrightarrow> \<forall>j \<in> S. j < i \<Longrightarrow>
     least_vty bus (insert i S) (Some s)"
  by (fastforce simp: least_vty_def)

lemma get_default_loop_least:
  assumes "least_vty bus S sel" and "\<forall>i \<in> set is. \<forall>j \<in> S. j < i" and "sorted_wrt (<) is"
  shows "least_vty bus (S \<union> set is) (get_default_loop bus is sel)"
  using assms
proof (induction "is" arbitrary: S sel)
  case Nil
  then show ?case by simp
next
  case (Cons iter rest)
  let ?sel = "if \<not> is_vty (bus ! iter) then sel
              else case sel of None \<Rightarrow> Some iter
                   | Some s \<Rightarrow> if dev_reg (bus ! iter) < dev_reg (bus ! s) then Some iter else sel"
  have step: "least_vty bus (insert iter S) ?sel"
    using Cons.prems(1,2)
    by (auto split: option.splits
        intro: least_vty_skip least_vty_first least_vty_better least_vty_keep)
  have "get_default_loop bus (iter # rest) sel = get_default_loop bus rest ?sel"
    by (simp split: option.splits)
  moreover have "least_vty bus (insert iter S \<union> set rest) (get_default_loop bus rest ?sel)"
    using step Cons.prems(2,3) by (intro Cons.IH) auto
  ultimately show ?case
    by simp
qed

lemma spapr_vty_get_default_least:
  "least_vty bus {0..<length bus} (spapr_vty_get_default bus)"
  using get_default_loop_least [of bus "{}" None "[0..<length bus]"]
  by (simp add: spapr_vty_get_default_def least_vty_empty)

lemma least_vty_unique:
  "least_vty bus S a \<Longrightarrow> least_vty bus S b \<Longrightarrow> a = b"
  by (cases a; cases b) (fastforce simp: least_vty_def)+

lemma least_vtyI:
  assumes "s < length bus" and "is_vty (bus ! s)"
    and le: "\<And>j. j < length bus \<Longrightarrow> is_vty (bus ! j) \<Longrightarrow> dev_reg (bus ! s) \<le> dev_reg (bus ! j)"
    and first: "\<And>j. j < s \<Longrightarrow> is_vty (bus ! j) \<Longrightarrow> dev_reg (bus ! s) < dev_reg (bus ! j)"
  shows "least_vty bus {0..<length bus} (Some s)"
proof -
  have "dev_reg (bus ! s) < dev_reg (bus ! j) \<or> (dev_reg (bus ! s) = dev_reg (bus ! j) \<and> s \<le> j)"
    if "j < length bus" and "is_vty (bus ! j)" for j
    using le [OF that] first [of j] that by (cases "j < s") (auto simp: order_le_less)
  with assms(1,2) show ?thesis
    by (simp add: least_vty_def)
qed

lemma spapr_vty_get_default_Some:
  assumes "spapr_vty_get_default bus = Some s"
  shows "s < length bus" and "is_vty (bus ! s)"
    and "\<And>j. j < length bus \<Longrightarrow> is_vty (bus ! j) \<Longrightarrow> dev_reg (bus ! s) \<le> dev_reg (bus ! j)"
    and "\<And>j. j < s \<Longrightarrow> is_vty (bus ! j) \<Longrightarrow> dev_reg (bus ! s) < dev_reg (bus ! j)"
  using spapr_vty_get_default_least [of bus] assms
  by (fastforce simp: least_vty_def)+

lemma spapr_vty_get_default_None_iff:
  "spapr_vty_get_default bus = None \<longleftrightarrow> (\<forall>j < length bus. \<not> is_vty (bus ! j))"
  using spapr_vty_get_default_least [of bus]
  by (cases "spapr_vty_get_default bus") (auto simp: least_vty_def)

section \<open>Lookup\<close>

lemma spapr_vio_find_by_reg_Some:
  "spapr_vio_find_by_reg bus r = Some i \<longleftrightarrow>
     i < length bus \<and> dev_reg (bus ! i) = r \<and> (\<forall>j < i. dev_reg (bus ! j) \<noteq> r)"
  by (auto simp: spapr_vio_find_by_reg_def find_Some_iff)

lemma spapr_vio_find_by_reg_None:
  "spapr_vio_find_by_reg bus r = None \<longleftrightarrow> (\<forall>i < length bus. dev_reg (bus ! i) \<noteq> r)"
  by (auto simp: spapr_vio_find_by_reg_def find_None_iff)

lemma vty_lookup_bound:
  "vty_lookup spapr r = Some i \<Longrightarrow> i < length (vio_bus spapr)"
  by (auto simp: vty_lookup_def spapr_vio_find_by_reg_Some
      dest: spapr_vty_get_default_Some(1) split: option.splits if_splits)

section \<open>Buses of the same shape\<close>

lemma same_shape_refl [simp]: "same_shape bus bus"
  by (simp add: same_shape_def)

lemma same_shape_trans: "same_shape a b \<Longrightarrow> same_shape b c \<Longrightarrow> same_shape a c"
  by (simp add: same_shape_def)

lemma same_shape_length: "same_shape bus bus' \<Longrightarrow> length bus' = length bus"
  by (auto simp: same_shape_def dest: map_eq_imp_length_eq)

lemma same_shape_nth:
  assumes "same_shape bus bus'" and "i < length bus"
  shows "dev_reg (bus' ! i) = dev_reg (bus ! i)" and "is_vty (bus' ! i) = is_vty (bus ! i)"
proof -
  from assms have "i < length bus'"
    by (simp add: same_shape_length)
  with assms have "map dev_reg bus' ! i = map dev_reg bus ! i" "map is_vty bus' ! i = map is_vty bus ! i"
    by (simp_all add: same_shape_def)
  with assms \<open>i < length bus'\<close> show "dev_reg (bus' ! i) = dev_reg (bus ! i)"
    and "is_vty (bus' ! i) = is_vty (bus ! i)"
    by simp_all
qed

lemma same_shape_update:
  assumes "i < length bus" and "bus ! i = Spapr_vty dev" and "reg dev' = reg dev"
  shows "same_shape bus (bus[i := Spapr_vty dev'])"
proof -
  from assms have "(map dev_reg bus)[i := reg dev] = map dev_reg bus"
    and "(map is_vty bus)[i := True] = map is_vty bus"
    by (simp_all add: list_update_same_conv)
  with assms show ?thesis
    by (simp add: same_shape_def map_update)
qed

lemma same_shape_find_by_reg:
  assumes "same_shape bus bus'"
  shows "spapr_vio_find_by_reg bus' r = spapr_vio_find_by_reg bus r"
proof -
  have "find (\<lambda>i. dev_reg (bus' ! i) = r) [0..<length bus] =
      find (\<lambda>i. dev_reg (bus ! i) = r) [0..<length bus]"
    using assms by (intro find_cong) (simp_all add: same_shape_nth)
  with assms show ?thesis
    by (simp add: spapr_vio_find_by_reg_def same_shape_length)
qed

lemma same_shape_get_default_loop:
  assumes "same_shape bus bus'" and "\<forall>i \<in> set is. i < length bus"
    and "\<forall>s. sel = Some s \<longrightarrow> s < length bus"
  shows "get_default_loop bus' is sel = get_default_loop bus is sel"
  using assms(2,3)
proof (induction "is" arbitrary: sel)
  case Nil
  then show ?case by simp
next
  case (Cons iter rest)
  from Cons.prems assms(1) have iter: "is_vty (bus' ! iter) = is_vty (bus ! iter)"
    "dev_reg (bus' ! iter) = dev_reg (bus ! iter)"
    by (simp_all add: same_shape_nth)
  show ?case
  proof (cases sel)
    case None
    with Cons.prems iter show ?thesis
      by (simp add: Cons.IH)
  next
    case (Some s)
    with Cons.prems assms(1) have "dev_reg (bus' ! s) = dev_reg (bus ! s)"
      by (simp add: same_shape_nth)
    with Some Cons.prems iter show ?thesis
      by (simp add: Cons.IH)
  qed
qed

lemma same_shape_get_default:
  "same_shape bus bus' \<Longrightarrow> spapr_vty_get_default bus' = spapr_vty_get_default bus"
  using same_shape_get_default_loop [of bus bus' "[0..<length bus]" None]
  by (simp add: spapr_vty_get_default_def same_shape_length)

lemma vty_lookup_same_shape:
  "same_shape (vio_bus spapr) (vio_bus spapr') \<Longrightarrow> vty_lookup spapr' r = vty_lookup spapr r"
  by (simp add: vty_lookup_def same_shape_find_by_reg same_shape_get_default
      cong: option.case_cong)

lemma same_shape_all_vty:
  assumes "same_shape bus bus'" and "list_all is_vty bus"
  shows "list_all is_vty bus'"
proof -
  from assms(1) have eq: "map is_vty bus' = map is_vty bus"
    by (simp add: same_shape_def)
  from assms(2) have "list_all (\<lambda>b. b) (map is_vty bus)"
    by (simp add: list.pred_map comp_def)
  then have "list_all (\<lambda>b. b) (map is_vty bus')"
    by (simp only: eq)
  then show ?thesis
    by (simp add: list.pred_map comp_def)
qed

section \<open>The bus to evaluate on\<close>

lemma bus_529_simps [simp]:
  "length bus_529 = 4"
  "map is_vty bus_529 = [True, False, True, True]"
  "map dev_reg bus_529 = [5, 1, 2, 9]"
  by (simp_all add: bus_529_def)

lemma bus_529_nth [simp]:
  "i < 4 \<Longrightarrow> is_vty (bus_529 ! i) = ([True, False, True, True] ! i)"
  "i < 4 \<Longrightarrow> dev_reg (bus_529 ! i) = ([5, 1, 2, 9] ! i)"
  using nth_map [of i bus_529 is_vty] nth_map [of i bus_529 dev_reg] by simp_all

lemma less_4_cases: "i < 4 \<longleftrightarrow> i = 0 \<or> i = 1 \<or> i = 2 \<or> i = (3 :: nat)"
  by auto

lemma spapr_vty_get_default_529 [simp]: "spapr_vty_get_default bus_529 = Some 2"
  by (simp add: spapr_vty_get_default_def bus_529_def upt_rec)

section \<open>Properties of selection and lookup\<close>

text \<open>
  C6. \<open>spapr_vty_get_default\<close> returns the VTY with the lowest \<open>reg\<close> on the bus, and
  of several VTYs with that \<open>reg\<close> the first in bus order; children that are no VTY are
  never returned, whatever their \<open>reg\<close>. It returns nothing exactly when the bus has no
  VTY.
\<close>

theorem spapr_vty_get_default_lowest:
  "(spapr_vty_get_default bus = Some s \<longleftrightarrow>
      s < length bus \<and> is_vty (bus ! s) \<and>
      (\<forall>j < length bus. is_vty (bus ! j) \<longrightarrow> dev_reg (bus ! s) \<le> dev_reg (bus ! j)) \<and>
      (\<forall>j < s. is_vty (bus ! j) \<longrightarrow> dev_reg (bus ! s) < dev_reg (bus ! j))) \<and>
   (spapr_vty_get_default bus = None \<longleftrightarrow> (\<forall>j < length bus. \<not> is_vty (bus ! j)))"
proof -
  have "spapr_vty_get_default bus = Some s"
    if "s < length bus" and "is_vty (bus ! s)"
      and "\<forall>j < length bus. is_vty (bus ! j) \<longrightarrow> dev_reg (bus ! s) \<le> dev_reg (bus ! j)"
      and "\<forall>j < s. is_vty (bus ! j) \<longrightarrow> dev_reg (bus ! s) < dev_reg (bus ! j)"
  proof -
    from that have "least_vty bus {0..<length bus} (Some s)"
      by (intro least_vtyI) simp_all
    with spapr_vty_get_default_least [of bus] show ?thesis
      by (rule least_vty_unique)
  qed
  then show ?thesis
    by (auto simp: spapr_vty_get_default_None_iff dest: spapr_vty_get_default_Some)
qed

theorem spapr_vty_get_default_lowest_witness:
  "spapr_vty_get_default bus_529 = Some 2 \<and>
   spapr_vty_get_default ([] :: CharDriverState VIOsPAPRBus) = None"
  using spapr_vty_get_default_lowest [of bus_529 2]
    spapr_vty_get_default_lowest [of "[] :: CharDriverState VIOsPAPRBus" 0]
  by simp

text \<open>
  C7. \<open>vty_lookup\<close> resolves a \<open>reg\<close> in this order: the first child of the bus with
  exactly that \<open>reg\<close>, of whatever kind; if there is none and the \<open>reg\<close> asked for is
  0, the default VTY; otherwise nothing. A device with \<open>reg\<close> 0 therefore always wins
  over the default, and a \<open>reg\<close> other than 0 never falls back.
\<close>

theorem vty_lookup_resolution:
  "vty_lookup spapr r = Some i \<longleftrightarrow>
     (i < length (vio_bus spapr) \<and> dev_reg (vio_bus spapr ! i) = r \<and>
      (\<forall>j < i. dev_reg (vio_bus spapr ! j) \<noteq> r)) \<or>
     (r = 0 \<and> (\<forall>j < length (vio_bus spapr). dev_reg (vio_bus spapr ! j) \<noteq> 0) \<and>
      spapr_vty_get_default (vio_bus spapr) = Some i)"
proof (cases "spapr_vio_find_by_reg (vio_bus spapr) r")
  case None
  then have "\<forall>j < length (vio_bus spapr). dev_reg (vio_bus spapr ! j) \<noteq> r"
    by (simp add: spapr_vio_find_by_reg_None)
  moreover from None
  have "vty_lookup spapr r = (if r = 0 then spapr_vty_get_default (vio_bus spapr) else None)"
    by (simp add: vty_lookup_def)
  ultimately show ?thesis
    by auto
next
  case (Some k)
  then have "vty_lookup spapr r = Some i \<longleftrightarrow> spapr_vio_find_by_reg (vio_bus spapr) r = Some i"
    by (simp add: vty_lookup_def)
  with Some show ?thesis
    by (auto simp: spapr_vio_find_by_reg_Some)
qed

theorem vty_lookup_resolution_witness:
  "vty_lookup \<lparr>vio_bus = bus_529\<rparr> 0 = Some 2 \<and> vty_lookup \<lparr>vio_bus = bus_529\<rparr> 1 = Some 1 \<and>
   vty_lookup \<lparr>vio_bus = bus_529\<rparr> 7 \<noteq> Some 0"
  using vty_lookup_resolution [of "\<lparr>vio_bus = bus_529\<rparr>" 0 2]
    vty_lookup_resolution [of "\<lparr>vio_bus = bus_529\<rparr>" 1 1]
    vty_lookup_resolution [of "\<lparr>vio_bus = bus_529\<rparr>" 7 0]
  by (simp add: less_4_cases)

text \<open>
  \<open>vty_lookup\<close> returns a VTY whenever every child of the bus that carries the
  \<open>reg\<close> asked for is a VTY: the fallback for \<open>reg\<close> 0 always yields a VTY, and an
  exact match yields whatever device has the \<open>reg\<close>.
\<close>

lemma vty_lookup_is_vty:
  assumes "vty_lookup spapr r = Some i"
    and "\<forall>j < length (vio_bus spapr). dev_reg (vio_bus spapr ! j) = r \<longrightarrow> is_vty (vio_bus spapr ! j)"
  shows "is_vty (vio_bus spapr ! i)"
  using assms
  by (auto simp: vty_lookup_def spapr_vio_find_by_reg_Some
      dest: spapr_vty_get_default_Some(2) split: option.splits if_splits)

end
