(* ===== verification/VtyHcall.thy ===== *)
theory VtyHcall
  imports VtyWire VtyQueue VioBus
begin

text \<open>
  The two hypercall handlers of \<^verbatim>\<open>src/hw/spapr_vty.c\<close>: \<open>h_put_term_char\<close> and
  \<open>h_get_term_char\<close>.

  A handler takes the machine (\<open>sPAPREnvironment\<close>) and the argument array \<^verbatim>\<open>args\<close> of
  the hypercall as a list of registers, and returns the status, the machine after the
  call and, for the read, the argument array with the results written into it. The
  device pointer that \<open>vty_lookup\<close> returns is a position on the bus; the handler reads
  the device there and writes the updated device back (\<open>store_vty\<close>). Where the C code
  uses the pointer as a \<^verbatim>\<open>VIOsPAPRVTYDevice *\<close> without looking at the type of the device,
  the model faults with \<open>Bad_cast\<close> if the device is no VTY. The local array
  \<^verbatim>\<open>uint8_t buf[16]\<close> of \<open>h_get_term_char\<close> is not initialised in C: the model takes its
  contents as a parameter, and they are shown not to matter.

  Lemmas: the status of each handler on every branch, what a successful write hands to
  the backend, what a successful read returns and removes from the ring, and that a
  write never touches the ring.
\<close>

section \<open>Definitions\<close>

datatype hstatus = H_SUCCESS | H_PARAMETER

definition store_vty :: "'chr sPAPREnvironment \<Rightarrow> nat \<Rightarrow> 'chr VIOsPAPRVTYDevice \<Rightarrow> 'chr sPAPREnvironment" where
  "store_vty spapr sdev dev = spapr\<lparr>vio_bus := (vio_bus spapr)[sdev := Spapr_vty dev]\<rparr>"

text \<open>
  The \<^verbatim>\<open>if\<close> with the \<^verbatim>\<open>memset\<close> in \<open>h_get_term_char\<close>: the bytes of the 16-byte array
  from position \<open>len\<close> on are set to zero.
\<close>

definition zero_fill :: "u8 list \<Rightarrow> target_ulong \<Rightarrow> u8 list" where
  "zero_fill b len =
     (if len < 16 then take (unat len) b @ replicate (16 - unat len) 0 else b)"

definition h_put_term_char ::
  "CharDriverState sPAPREnvironment \<Rightarrow> target_ulong list \<Rightarrow> (hstatus \<times> CharDriverState sPAPREnvironment) result" where
  "h_put_term_char spapr args =
     (let reg = args ! 0; len = args ! 1; char0_7 = args ! 2; char8_15 = args ! 3 in
      case vty_lookup spapr reg of
        None \<Rightarrow> Inr (H_PARAMETER, spapr)
      | Some sdev \<Rightarrow>
          if len > 16 then Inr (H_PARAMETER, spapr)
          else
            (let b = wire_bytes char0_7 char8_15 in
             case vio_bus spapr ! sdev of
               Spapr_other _ \<Rightarrow> Inl Bad_cast
             | Spapr_vty dev \<Rightarrow>
                 bind_result (vty_putchars dev b (uint len))
                   (\<lambda>dev'. Inr (H_SUCCESS, store_vty spapr sdev dev'))))"

definition h_get_term_char ::
  "'chr sPAPREnvironment \<Rightarrow> u8 list \<Rightarrow> target_ulong list \<Rightarrow>
     (hstatus \<times> target_ulong list \<times> 'chr sPAPREnvironment) result" where
  "h_get_term_char spapr stack args =
     (let reg = args ! 0 in
      case vty_lookup spapr reg of
        None \<Rightarrow> Inr (H_PARAMETER, args, spapr)
      | Some sdev \<Rightarrow>
          (case vio_bus spapr ! sdev of
             Spapr_other _ \<Rightarrow> Inl Bad_cast
           | Spapr_vty dev \<Rightarrow>
               (case vty_getchars dev stack 16 of
                  (dev', b, n) \<Rightarrow>
                    let len = (word_of_int n :: target_ulong);
                        (char0_7, char8_15) = wire_words (zero_fill b len)
                    in Inr (H_SUCCESS, args[0 := len, 1 := char0_7, 2 := char8_15],
                            store_vty spapr sdev dev'))))"

text \<open>What the guest sees of a read: the status and the result registers.\<close>

definition get_view ::
  "(hstatus \<times> target_ulong list \<times> 'chr sPAPREnvironment) result \<Rightarrow> (hstatus \<times> target_ulong list) result" where
  "get_view r = map_sum id (\<lambda>(st, args', s). (st, args')) r"

section \<open>Well-formed machines\<close>

text \<open>
  \<open>spapr_inv\<close>: every VTY on the bus satisfies the ring invariant and has its backend.
\<close>

definition child_ok :: "CharDriverState DeviceState \<Rightarrow> bool" where
  "child_ok c = (case c of Spapr_vty dev \<Rightarrow> vty_ready dev | Spapr_other _ \<Rightarrow> True)"

definition spapr_inv :: "CharDriverState sPAPREnvironment \<Rightarrow> bool" where
  "spapr_inv spapr \<longleftrightarrow> list_all child_ok (vio_bus spapr)"

text \<open>A machine to evaluate on: the bus \<open>bus_529\<close>.\<close>

definition spapr_529 :: "CharDriverState sPAPREnvironment" where
  "spapr_529 = \<lparr>vio_bus = bus_529\<rparr>"

lemmas [vty_defs] = store_vty_def zero_fill_def h_put_term_char_def h_get_term_char_def

section \<open>The write handler, branch by branch\<close>

lemma h_put_term_char_unresolved:
  "vty_lookup spapr (args ! 0) = None \<Longrightarrow> h_put_term_char spapr args = Inr (H_PARAMETER, spapr)"
  by (simp add: h_put_term_char_def)

lemma h_put_term_char_too_long:
  "16 < args ! 1 \<Longrightarrow> h_put_term_char spapr args = Inr (H_PARAMETER, spapr)"
  by (simp add: h_put_term_char_def Let_def split: option.splits)

lemma h_put_term_char_other:
  "vty_lookup spapr (args ! 0) = Some sdev \<Longrightarrow> vio_bus spapr ! sdev = Spapr_other d \<Longrightarrow>
     args ! 1 \<le> 16 \<Longrightarrow> h_put_term_char spapr args = Inl Bad_cast"
  by (simp add: h_put_term_char_def Let_def)

lemma h_put_term_char_vty:
  "vty_lookup spapr (args ! 0) = Some sdev \<Longrightarrow> vio_bus spapr ! sdev = Spapr_vty dev \<Longrightarrow>
     args ! 1 \<le> 16 \<Longrightarrow>
     h_put_term_char spapr args =
       bind_result (vty_putchars dev (wire_bytes (args ! 2) (args ! 3)) (uint (args ! 1)))
         (\<lambda>dev'. Inr (H_SUCCESS, store_vty spapr sdev dev'))"
  by (auto simp: h_put_term_char_def Let_def)

section \<open>The read handler, branch by branch\<close>

lemma len_word_simps:
  "k \<le> 16 \<Longrightarrow> unat (of_nat k :: target_ulong) = k"
  "k \<le> 16 \<Longrightarrow> (of_nat k :: target_ulong) < 16 \<longleftrightarrow> k < 16"
  by (simp_all add: word_less_nat_alt unat_of_nat)

lemma vty_getchars_16:
  assumes "length stack = 16"
  shows "vty_getchars dev stack 16 =
           (fst (vty_getchars dev stack 16),
            take 16 (vty_queue dev) @ drop (min 16 (vty_count dev)) stack,
            int (min 16 (vty_count dev)))"
proof -
  from assms have "fst (snd (vty_getchars dev stack (int 16))) =
      take 16 (vty_queue dev) @ drop (min 16 (vty_count dev)) stack"
    by (intro vty_getchars_obuf) simp
  moreover have "snd (snd (vty_getchars dev stack 16)) = int (min 16 (vty_count dev))"
    by (simp add: vty_getchars_count)
  ultimately show ?thesis
    by (metis of_nat_numeral prod.collapse)
qed

text \<open>
  The 16 bytes the read handler encodes: the pending bytes, at most 16 of them, and zeros
  up to 16.
\<close>

lemma zero_fill_chunk:
  assumes "length stack = 16" and "length q = c"
  shows "zero_fill (take 16 q @ drop (min 16 c) stack) (of_nat (min 16 c)) =
           take 16 q @ replicate (16 - min 16 c) 0"
  using assms by (cases "c < 16") (simp_all add: zero_fill_def min_def len_word_simps)

lemma h_get_term_char_unresolved:
  "vty_lookup spapr (args ! 0) = None \<Longrightarrow>
     h_get_term_char spapr stack args = Inr (H_PARAMETER, args, spapr)"
  by (simp add: h_get_term_char_def)

lemma h_get_term_char_other:
  "vty_lookup spapr (args ! 0) = Some sdev \<Longrightarrow> vio_bus spapr ! sdev = Spapr_other d \<Longrightarrow>
     h_get_term_char spapr stack args = Inl Bad_cast"
  by (simp add: h_get_term_char_def)

lemma h_get_term_char_vty:
  assumes "vty_lookup spapr (args ! 0) = Some sdev" and "vio_bus spapr ! sdev = Spapr_vty dev"
    and "length stack = 16"
  shows "h_get_term_char spapr stack args =
           (case wire_words (take 16 (vty_queue dev) @ replicate (16 - min 16 (vty_count dev)) 0) of
              (char0_7, char8_15) \<Rightarrow>
                Inr (H_SUCCESS,
                     args[0 := of_nat (min 16 (vty_count dev)), 1 := char0_7, 2 := char8_15],
                     store_vty spapr sdev (fst (vty_getchars dev stack 16))))"
proof -
  note g = vty_getchars_16 [OF assms(3), of dev]
  have "h_get_term_char spapr stack args =
      (case (fst (vty_getchars dev stack 16),
             take 16 (vty_queue dev) @ drop (min 16 (vty_count dev)) stack,
             int (min 16 (vty_count dev))) of
         (dev', b, n) \<Rightarrow>
           let len = (word_of_int n :: target_ulong);
               (char0_7, char8_15) = wire_words (zero_fill b len)
           in Inr (H_SUCCESS, args[0 := len, 1 := char0_7, 2 := char8_15],
                   store_vty spapr sdev dev'))"
    using assms(1,2) by (simp add: h_get_term_char_def g [symmetric])
  then show ?thesis
    by (simp add: Let_def zero_fill_chunk [OF assms(3)])
qed

section \<open>Machines\<close>

lemma vio_bus_store_vty [simp]:
  "vio_bus (store_vty spapr i dev) = (vio_bus spapr)[i := Spapr_vty dev]"
  by (simp add: store_vty_def)

lemma spapr_inv_nth:
  "spapr_inv spapr \<Longrightarrow> i < length (vio_bus spapr) \<Longrightarrow> vio_bus spapr ! i = Spapr_vty dev \<Longrightarrow>
     vty_ready dev"
  by (auto simp: spapr_inv_def list_all_length child_ok_def split: DeviceState.splits)

lemma spapr_inv_store:
  "spapr_inv spapr \<Longrightarrow> vty_ready dev \<Longrightarrow> spapr_inv (store_vty spapr i dev)"
  by (cases "i < length (vio_bus spapr)")
     (auto simp: spapr_inv_def list_all_length child_ok_def nth_list_update)

lemma same_shape_store:
  "i < length (vio_bus spapr) \<Longrightarrow> vio_bus spapr ! i = Spapr_vty dev \<Longrightarrow> reg dev' = reg dev \<Longrightarrow>
     same_shape (vio_bus spapr) (vio_bus (store_vty spapr i dev'))"
  by (simp add: same_shape_update)

lemma vty_putchars_frame:
  "vty_putchars dev b len = Inr dev' \<Longrightarrow>
     reg dev' = reg dev \<and> qirq dev' = qirq dev \<and> vin dev' = vin dev \<and> vout dev' = vout dev \<and>
     buf dev' = buf dev"
  by (auto simp: vty_putchars_def split: option.splits)

section \<open>Both handlers keep the machine well-formed\<close>

lemma h_put_term_char_cases:
  assumes "h_put_term_char spapr args = Inr (st, spapr')"
  obtains (parameter) "st = H_PARAMETER" and "spapr' = spapr"
    | (success) sdev dev dev' where "st = H_SUCCESS" and "vty_lookup spapr (args ! 0) = Some sdev"
        and "vio_bus spapr ! sdev = Spapr_vty dev" and "args ! 1 \<le> 16"
        and "vty_putchars dev (wire_bytes (args ! 2) (args ! 3)) (uint (args ! 1)) = Inr dev'"
        and "spapr' = store_vty spapr sdev dev'"
  using assms
  by (auto simp: h_put_term_char_def Let_def bind_result_eq_Inr_iff not_less
      split: option.splits if_splits DeviceState.splits)

lemma h_get_term_char_cases:
  assumes "h_get_term_char spapr stack args = Inr (st, args', spapr')"
  obtains (parameter) "st = H_PARAMETER" and "spapr' = spapr" and "args' = args"
    | (success) sdev dev where "st = H_SUCCESS" and "vty_lookup spapr (args ! 0) = Some sdev"
        and "vio_bus spapr ! sdev = Spapr_vty dev"
        and "spapr' = store_vty spapr sdev (fst (vty_getchars dev stack 16))"
  using assms
  by (auto simp: h_get_term_char_def Let_def case_prod_beta
      split: option.splits DeviceState.splits)

lemma h_put_term_char_inv:
  assumes "h_put_term_char spapr args = Inr (st, spapr')" and "spapr_inv spapr"
  shows "spapr_inv spapr' \<and> same_shape (vio_bus spapr) (vio_bus spapr')"
  using assms(1)
proof (cases rule: h_put_term_char_cases)
  case parameter
  with assms show ?thesis by simp
next
  case (success sdev dev dev')
  from success(2) have bound: "sdev < length (vio_bus spapr)"
    by (rule vty_lookup_bound)
  with assms(2) have "vty_ready dev"
    using success(3) by (rule spapr_inv_nth)
  with success(5) have "vty_ready dev'" and "reg dev' = reg dev"
    by (auto dest: vty_ready_putchars vty_putchars_frame)
  with assms(2) bound success(3,6) show ?thesis
    by (simp add: spapr_inv_store same_shape_update)
qed

lemma h_get_term_char_inv:
  assumes "h_get_term_char spapr stack args = Inr (st, args', spapr')" and "spapr_inv spapr"
  shows "spapr_inv spapr' \<and> same_shape (vio_bus spapr) (vio_bus spapr')"
  using assms(1)
proof (cases rule: h_get_term_char_cases)
  case parameter
  with assms show ?thesis by simp
next
  case (success sdev dev)
  from success(2) have bound: "sdev < length (vio_bus spapr)"
    by (rule vty_lookup_bound)
  with assms(2) have "vty_ready dev"
    using success(3) by (rule spapr_inv_nth)
  then have "vty_ready (fst (vty_getchars dev stack 16))"
    by (rule vty_ready_getchars)
  with assms(2) bound success(3,4) show ?thesis
    by (simp add: spapr_inv_store same_shape_update)
qed

section \<open>Faults\<close>

lemma h_put_term_char_fault:
  assumes "h_put_term_char spapr args = Inl f" and "spapr_inv spapr"
  shows "f = Bad_cast \<and> (\<exists>sdev d. vty_lookup spapr (args ! 0) = Some sdev \<and>
           vio_bus spapr ! sdev = Spapr_other d)"
proof (cases "vty_lookup spapr (args ! 0)")
  case None
  with assms show ?thesis
    by (simp add: h_put_term_char_unresolved)
next
  case (Some sdev)
  from assms(1) have len: "args ! 1 \<le> 16"
    using h_put_term_char_too_long [of args spapr] by (cases "16 < args ! 1") auto
  show ?thesis
  proof (cases "vio_bus spapr ! sdev")
    case (Spapr_vty dev)
    with Some assms(2) have "vty_ready dev"
      by (auto dest: vty_lookup_bound spapr_inv_nth)
    then obtain chr where "chardev dev = Some chr"
      by (auto simp: vty_ready_def)
    with Some Spapr_vty len assms(1) show ?thesis
      by (simp add: h_put_term_char_vty vty_putchars_Some)
  next
    case (Spapr_other d)
    with Some len assms(1) show ?thesis
      by (simp add: h_put_term_char_other)
  qed
qed

lemma h_get_term_char_fault:
  assumes "h_get_term_char spapr stack args = Inl f"
  shows "f = Bad_cast \<and> (\<exists>sdev d. vty_lookup spapr (args ! 0) = Some sdev \<and>
           vio_bus spapr ! sdev = Spapr_other d)"
  using assms
  by (auto simp: h_get_term_char_def Let_def case_prod_beta
      split: option.splits DeviceState.splits)

lemma h_put_term_char_fault_kind:
  "h_put_term_char spapr args = Inl f \<Longrightarrow> f = Bad_cast \<or> f = Null_chardev"
  by (auto simp: h_put_term_char_def vty_putchars_def Let_def bind_result_eq_Inl_iff
      split: option.splits DeviceState.splits if_splits)

section \<open>What a read shows\<close>

lemma get_view_simps [simp]:
  "get_view (Inl f) = Inl f" "get_view (Inr (st, args', s)) = Inr (st, args')"
  by (simp_all add: get_view_def)

lemma h_get_term_char_visible:
  assumes "length stack = 16" and "vty_lookup spapr (args ! 0) = Some k"
    and "vio_bus spapr ! k = Spapr_vty d" and "vty_lookup spapr' (args ! 0) = Some k"
    and "vio_bus spapr' ! k = Spapr_vty d'" and "vty_queue d' = vty_queue d"
  shows "get_view (h_get_term_char spapr' stack args) = get_view (h_get_term_char spapr stack args)"
proof -
  from assms(6) have "vty_count d' = vty_count d"
    by (simp add: length_vty_queue [symmetric] del: length_vty_queue)
  with assms show ?thesis
    by (simp add: h_get_term_char_vty case_prod_beta)
qed

lemma h_get_term_char_store_visible:
  assumes stack: "length stack = 16" and bound: "sdev < length (vio_bus spapr)"
    and vty: "vio_bus spapr ! sdev = Spapr_vty dev"
    and frame: "reg dev' = reg dev" "vty_queue dev' = vty_queue dev"
  shows "get_view (h_get_term_char (store_vty spapr sdev dev') stack args) =
         get_view (h_get_term_char spapr stack args)"
proof -
  let ?s' = "store_vty spapr sdev dev'"
  from bound vty frame(1) have "same_shape (vio_bus spapr) (vio_bus ?s')"
    by (simp add: same_shape_update)
  then have look: "vty_lookup ?s' r = vty_lookup spapr r" for r
    by (rule vty_lookup_same_shape)
  show ?thesis
  proof (cases "vty_lookup spapr (args ! 0)")
    case None
    then show ?thesis
      by (simp add: h_get_term_char_unresolved look)
  next
    case (Some k)
    show ?thesis
    proof (cases "k = sdev")
      case True
      with Some vty bound frame(2) stack show ?thesis
        by (intro h_get_term_char_visible [where k = sdev and d = dev and d' = dev'])
           (simp_all add: look)
    next
      case False
      then have same: "vio_bus ?s' ! k = vio_bus spapr ! k"
        by simp
      show ?thesis
      proof (cases "vio_bus spapr ! k")
        case (Spapr_vty d)
        with Some same stack show ?thesis
          by (intro h_get_term_char_visible [where k = k and d = d and d' = d])
             (simp_all add: look)
      next
        case (Spapr_other d)
        with Some same show ?thesis
          by (simp add: h_get_term_char_other [of _ _ k] look)
      qed
    qed
  qed
qed

section \<open>The machine to evaluate on\<close>

lemma spapr_529_simps [simp]:
  "vio_bus spapr_529 = bus_529"
  "spapr_inv spapr_529"
  "vty_lookup spapr_529 0 = Some 2" "vty_lookup spapr_529 9 = Some 3"
  "vty_lookup spapr_529 1 = Some 1" "vty_lookup spapr_529 7 = None"
  by (simp_all add: vty_defs spapr_529_def spapr_inv_def child_ok_def vty_ready_def bus_529_def
      upt_rec)

lemma bus_529_children [simp]:
  "bus_529 ! Suc 0 = Spapr_other \<lparr>reg = 1, qirq = 0\<rparr>"
  "bus_529 ! 2 = Spapr_vty (vty_fresh 2 (Some (chr_idle 2)))"
  "bus_529 ! 3 = Spapr_vty (vty_fresh 9 (Some (chr_idle 3)))"
  by (simp_all add: bus_529_def)

section \<open>Properties of the handlers\<close>

text \<open>
  C9. \<open>h_put_term_char\<close> answers \<^verbatim>\<open>H_PARAMETER\<close> exactly when the \<open>reg\<close> does not
  resolve to a device or the length is above 16, and then the machine is as it was:
  nothing reaches the backend.
\<close>

theorem h_put_term_char_parameter:
  "h_put_term_char spapr args = Inr (H_PARAMETER, spapr') \<longleftrightarrow>
     (vty_lookup spapr (args ! 0) = None \<or> 16 < args ! 1) \<and> spapr' = spapr"
proof (cases "vty_lookup spapr (args ! 0) = None \<or> 16 < args ! 1")
  case True
  then have "h_put_term_char spapr args = Inr (H_PARAMETER, spapr)"
    by (auto simp: h_put_term_char_unresolved h_put_term_char_too_long)
  with True show ?thesis
    by auto
next
  case False
  then show ?thesis
    by (auto simp: h_put_term_char_def Let_def bind_result_eq_Inr_iff split: DeviceState.splits)
qed

theorem h_put_term_char_parameter_witness:
  "h_put_term_char spapr_529 [7, 3, 0, 0] = Inr (H_PARAMETER, spapr_529) \<and>
   h_put_term_char spapr_529 [9, 17, 0, 0] = Inr (H_PARAMETER, spapr_529)"
  using h_put_term_char_parameter [of spapr_529 "[7, 3, 0, 0]" spapr_529]
    h_put_term_char_parameter [of spapr_529 "[9, 17, 0, 0]" spapr_529]
  by simp

text \<open>
  C4. A write of at most 16 bytes to a VTY succeeds: the handler answers
  \<^verbatim>\<open>H_SUCCESS\<close>, the backend of that device receives, as one write, the first \<open>len\<close>
  of the 16 bytes that the two registers carry big-endian, and nothing else changes: not
  the ring of the device (bytes written are not read back), not its \<open>reg\<close>, not any
  other device.
\<close>

theorem h_put_term_char_success:
  assumes inv: "spapr_inv spapr"
    and look: "vty_lookup spapr (args ! 0) = Some sdev"
    and vty: "vio_bus spapr ! sdev = Spapr_vty dev"
    and len: "args ! 1 \<le> 16"
  shows "\<exists>dev'. h_put_term_char spapr args = Inr (H_SUCCESS, store_vty spapr sdev dev') \<and>
           vty_abs dev' =
             spec_write_through (vty_abs dev)
               (take (unat (args ! 1)) (wire_bytes (args ! 2) (args ! 3))) \<and>
           reg dev' = reg dev \<and> vty_ready dev'"
proof -
  from look have "sdev < length (vio_bus spapr)"
    by (rule vty_lookup_bound)
  with inv have ready: "vty_ready dev"
    using vty by (rule spapr_inv_nth)
  then have chr: "chardev dev \<noteq> None"
    by (simp add: vty_ready_def)
  then obtain dev' where put: "vty_putchars dev (wire_bytes (args ! 2) (args ! 3)) (uint (args ! 1)) = Inr dev'"
    by (auto simp: vty_putchars_def)
  with vty_putchars_abs [OF chr, of "wire_bytes (args ! 2) (args ! 3)" "uint (args ! 1)"]
  have "vty_abs dev' =
      spec_write_through (vty_abs dev) (take (unat (args ! 1)) (wire_bytes (args ! 2) (args ! 3)))"
    by simp
  moreover from put ready have "vty_ready dev'" and "reg dev' = reg dev"
    by (auto dest: vty_ready_putchars vty_putchars_frame)
  moreover from look vty len put have "h_put_term_char spapr args = Inr (H_SUCCESS, store_vty spapr sdev dev')"
    by (simp add: h_put_term_char_vty)
  ultimately show ?thesis
    by blast
qed

theorem h_put_term_char_success_witness:
  "\<exists>dev'. h_put_term_char spapr_529 [9, 3, 0x4142430000000000, 0] =
            Inr (H_SUCCESS, store_vty spapr_529 3 dev') \<and>
          sink (vty_abs dev') = [[0x41, 0x42, 0x43]] \<and> pending (vty_abs dev') = []"
  using h_put_term_char_success [of spapr_529 "[9, 3, 0x4142430000000000, 0]" 3
      "vty_fresh 9 (Some (chr_idle 3))"]
  by (auto simp: vty_abs_def spec_write_through_def vty_sink_def wire_bytes_def
      cpu_to_be64_explicit drop_bit_eq_div)

text \<open>
  C3. A read from a VTY succeeds: the handler answers \<^verbatim>\<open>H_SUCCESS\<close>, writes the
  number of pending bytes into the first result register and, into the other two, the
  pending bytes in the order of their arrival, big-endian and padded with zeros to 16
  bytes; afterwards the ring of that device is empty and nothing else has changed.
\<close>

theorem h_get_term_char_success:
  assumes inv: "spapr_inv spapr"
    and look: "vty_lookup spapr (args ! 0) = Some sdev"
    and vty: "vio_bus spapr ! sdev = Spapr_vty dev"
    and stack: "length stack = 16"
  shows "\<exists>dev' char0_7 char8_15.
           h_get_term_char spapr stack args =
             Inr (H_SUCCESS, args[0 := of_nat (vty_count dev), 1 := char0_7, 2 := char8_15],
                  store_vty spapr sdev dev') \<and>
           wire_bytes char0_7 char8_15 = vty_queue dev @ replicate (16 - vty_count dev) 0 \<and>
           vty_abs dev' = snd (spec_dequeue (vty_abs dev) 16) \<and>
           reg dev' = reg dev \<and> vty_ready dev'"
proof -
  from look have "sdev < length (vio_bus spapr)"
    by (rule vty_lookup_bound)
  with inv have ready: "vty_ready dev"
    using vty by (rule spapr_inv_nth)
  then have dinv: "vty_inv dev" and le: "vty_count dev \<le> 16"
    by (simp_all add: vty_ready_def vty_inv_def)
  let ?dev' = "fst (vty_getchars dev stack 16)"
  let ?b = "vty_queue dev @ replicate (16 - vty_count dev) 0"
  obtain char0_7 char8_15 where w: "wire_words ?b = (char0_7, char8_15)"
    by (cases "wire_words ?b")
  from le have "length ?b = 16"
    by simp
  from wire_bytes_wire_words [OF this] w have "wire_bytes char0_7 char8_15 = ?b"
    by simp
  moreover from look vty stack le w have "h_get_term_char spapr stack args =
      Inr (H_SUCCESS, args[0 := of_nat (vty_count dev), 1 := char0_7, 2 := char8_15],
           store_vty spapr sdev ?dev')"
    by (simp add: h_get_term_char_vty min_def)
  moreover have "vty_abs ?dev' = snd (spec_dequeue (vty_abs dev) 16)"
    using arg_cong [OF vty_getchars_abs [of 16 dev stack], of snd] stack le
    by (simp add: case_prod_beta)
  moreover from ready have "vty_ready ?dev'"
    by (rule vty_ready_getchars)
  ultimately show ?thesis
    by (intro exI [of _ ?dev'] exI [of _ char0_7] exI [of _ char8_15]) simp
qed

theorem h_get_term_char_success_witness:
  "\<exists>dev' char0_7 char8_15.
     h_get_term_char spapr_529 (replicate 16 0xFF) [0, 7, 7, 7] =
       Inr (H_SUCCESS, [0, char0_7, char8_15, 7], store_vty spapr_529 2 dev') \<and>
     wire_bytes char0_7 char8_15 = replicate 16 0"
  using h_get_term_char_success [of spapr_529 "[0, 7, 7, 7]" 2
      "vty_fresh 2 (Some (chr_idle 2))" "replicate 16 0xFF"]
  by auto

text \<open>
  C37. The local array of \<open>h_get_term_char\<close>, which the C code does not initialise,
  never reaches the guest: status, result registers and machine are the same whatever
  the array holds before the call.
\<close>

theorem h_get_term_char_stack_independent:
  assumes "length stack = 16" and "length stack' = 16"
  shows "h_get_term_char spapr stack args = h_get_term_char spapr stack' args"
proof (cases "vty_lookup spapr (args ! 0)")
  case None
  then show ?thesis
    by (simp add: h_get_term_char_unresolved)
next
  case (Some sdev)
  show ?thesis
  proof (cases "vio_bus spapr ! sdev")
    case (Spapr_vty dev)
    with Some assms show ?thesis
      by (simp add: h_get_term_char_vty vty_getchars_dev)
  next
    case (Spapr_other d)
    with Some show ?thesis
      by (simp add: h_get_term_char_other)
  qed
qed

theorem h_get_term_char_stack_independent_witness:
  "h_get_term_char spapr_529 (replicate 16 0) [0, 7, 7] =
   h_get_term_char spapr_529 (replicate 16 0xFF) [0, 7, 7]"
  by (rule h_get_term_char_stack_independent) simp_all

text \<open>
  \<open>h_get_term_char\<close> answers \<^verbatim>\<open>H_PARAMETER\<close> exactly when the \<open>reg\<close> does not
  resolve to a device, and then neither the result registers nor the machine change.
\<close>

lemma h_get_term_char_parameter:
  "h_get_term_char spapr stack args = Inr (H_PARAMETER, args', spapr') \<longleftrightarrow>
     vty_lookup spapr (args ! 0) = None \<and> args' = args \<and> spapr' = spapr"
  by (auto simp: h_get_term_char_def Let_def case_prod_beta
      split: option.splits DeviceState.splits)

text \<open>
  C32. The handlers use the device that \<open>vty_lookup\<close> returns as a VTY without looking
  at its type. On a machine whose VTYs all have their backend, the only way a handler
  can leave its normal control flow is this: the \<open>reg\<close> resolves, by exact match, to a
  device that is no VTY (and, for the write, the length is at most 16).
\<close>

theorem hcall_fault_iff:
  assumes "spapr_inv spapr"
  shows "(h_put_term_char spapr args = Inl f \<longleftrightarrow>
            f = Bad_cast \<and> args ! 1 \<le> 16 \<and>
            (\<exists>sdev d. vty_lookup spapr (args ! 0) = Some sdev \<and> vio_bus spapr ! sdev = Spapr_other d)) \<and>
         (h_get_term_char spapr stack args = Inl f \<longleftrightarrow>
            f = Bad_cast \<and>
            (\<exists>sdev d. vty_lookup spapr (args ! 0) = Some sdev \<and> vio_bus spapr ! sdev = Spapr_other d))"
proof -
  have "args ! 1 \<le> 16" if "h_put_term_char spapr args = Inl f"
    using that h_put_term_char_too_long [of args spapr] by (cases "16 < args ! 1") auto
  then show ?thesis
    using assms
    by (auto dest: h_put_term_char_fault h_get_term_char_fault
        simp: h_put_term_char_other h_get_term_char_other)
qed

theorem hcall_fault_iff_witness:
  "h_put_term_char spapr_529 [1, 3, 0, 0] = Inl Bad_cast \<and>
   h_get_term_char spapr_529 (replicate 16 0) [1, 0, 0] = Inl Bad_cast"
  using hcall_fault_iff [of spapr_529 "[1, 3, 0, 0]" Bad_cast]
    hcall_fault_iff [of spapr_529 "[1, 0, 0]" Bad_cast "replicate 16 0"]
  by simp

end
