(* ===== verification/VtyMachine.thy ===== *)
theory VtyMachine
  imports VtyHcall
begin

text \<open>
  The machine as a whole: how terminals come onto the bus (\<open>spapr_vty_create\<close>), the
  events that reach the code of \<^verbatim>\<open>src/hw/spapr_vty.c\<close> while the machine runs, and the
  states that can be reached.

  An event is a delivery of host input by the character backend to one terminal
  (\<open>Chr_read\<close>, the call of \<open>vty_receive\<close>) or one of the two hypercalls (\<open>Hcall_put\<close>,
  \<open>Hcall_get\<close>). \<open>spapr_step\<close> runs one event and \<open>spapr_run\<close> a list of them,
  stopping at the first fault; both return what the guest sees of each event. The
  backend follows the protocol of its callbacks: it asks \<open>vty_can_receive\<close> and then
  delivers at least one and at most that many bytes (\<open>chr_may_deliver\<close>). \<open>spapr_trans\<close>
  is the step relation over all events that are allowed, \<open>reachable\<close> its closure from a
  start state, and \<open>built\<close> the buses that device creation can produce.

  Lemmas: creation and every step keep \<open>spapr_inv\<close> and the shape of the bus, so in
  every reachable state each ring holds at most 16 bytes, and no allowed delivery makes
  the \<^verbatim>\<open>assert\<close> of \<open>vty_receive\<close> fail.
\<close>

section \<open>Creation\<close>

text \<open>
  The three calls into the device framework, as \<open>spapr_vty_create\<close> relies on them: a
  new zeroed child at the end of the bus with the \<open>reg\<close> the bus gives it, a property
  set on it, and its initialisation through \<open>spapr_vty_init\<close>, where the framework
  exits if that fails.
\<close>

definition qdev_create :: "'chr VIOsPAPRBus \<Rightarrow> target_ulong \<Rightarrow> 'chr VIOsPAPRBus \<times> nat" where
  "qdev_create bus r = (bus @ [Spapr_vty (vty_fresh r None)], length bus)"

definition qdev_prop_set_chr ::
  "'chr VIOsPAPRBus \<Rightarrow> nat \<Rightarrow> 'chr option \<Rightarrow> 'chr VIOsPAPRBus" where
  "qdev_prop_set_chr bus dev chr =
     (case bus ! dev of
        Spapr_vty d \<Rightarrow> bus[dev := Spapr_vty (d\<lparr>chardev := chr\<rparr>)]
      | Spapr_other _ \<Rightarrow> bus)"

definition qdev_init_nofail :: "CharDriverState VIOsPAPRBus \<Rightarrow> nat \<Rightarrow> CharDriverState VIOsPAPRBus result" where
  "qdev_init_nofail bus dev =
     (case bus ! dev of
        Spapr_vty d \<Rightarrow> bind_result (spapr_vty_init dev d) (\<lambda>(d', rc). Inr (bus[dev := Spapr_vty d']))
      | Spapr_other _ \<Rightarrow> Inr bus)"

definition spapr_vty_create ::
  "CharDriverState VIOsPAPRBus \<Rightarrow> target_ulong \<Rightarrow> CharDriverState option \<Rightarrow> CharDriverState VIOsPAPRBus result" where
  "spapr_vty_create bus r chr =
     (case qdev_create bus r of
        (bus', dev) \<Rightarrow> qdev_init_nofail (qdev_prop_set_chr bus' dev chr) dev)"

inductive built :: "CharDriverState VIOsPAPRBus \<Rightarrow> bool" where
  empty: "built []"
| other: "built bus \<Longrightarrow> built (bus @ [Spapr_other d])"
| vty: "built bus \<Longrightarrow> spapr_vty_create bus r chr = Inr bus' \<Longrightarrow> built bus'"

section \<open>Events\<close>

datatype event =
    Chr_read nat "u8 list"
  | Hcall_put "target_ulong list"
  | Hcall_get "u8 list" "target_ulong list"

datatype response =
    Delivered
  | Put_done hstatus
  | Get_done hstatus "target_ulong list"

definition chr_may_deliver :: "CharDriverState VIOsPAPRVTYDevice \<Rightarrow> u8 list \<Rightarrow> bool" where
  "chr_may_deliver dev bs \<longleftrightarrow> bs \<noteq> [] \<and> int (length bs) \<le> vty_can_receive dev"

fun allowed :: "CharDriverState sPAPREnvironment \<Rightarrow> event \<Rightarrow> bool" where
  "allowed s (Chr_read sdev bs) =
     (sdev < length (vio_bus s) \<and>
      (case vio_bus s ! sdev of
         Spapr_vty dev \<Rightarrow> chr_may_deliver dev bs
       | Spapr_other _ \<Rightarrow> False))"
| "allowed s (Hcall_put args) = True"
| "allowed s (Hcall_get stack args) = (length stack = 16)"

fun spapr_step :: "CharDriverState sPAPREnvironment \<Rightarrow> event \<Rightarrow> (response \<times> CharDriverState sPAPREnvironment) result" where
  "spapr_step s (Chr_read sdev bs) =
     (case vio_bus s ! sdev of
        Spapr_vty dev \<Rightarrow>
          bind_result (vty_receive dev bs) (\<lambda>dev'. Inr (Delivered, store_vty s sdev dev'))
      | Spapr_other _ \<Rightarrow> Inl Bad_cast)"
| "spapr_step s (Hcall_put args) =
     bind_result (h_put_term_char s args) (\<lambda>(st, s'). Inr (Put_done st, s'))"
| "spapr_step s (Hcall_get stack args) =
     bind_result (h_get_term_char s stack args) (\<lambda>(st, args', s'). Inr (Get_done st args', s'))"

abbreviation spapr_run ::
  "CharDriverState sPAPREnvironment \<Rightarrow> event list \<Rightarrow>
     (response list \<times> CharDriverState sPAPREnvironment) result" where
  "spapr_run \<equiv> run_result spapr_step"

inductive spapr_trans :: "CharDriverState sPAPREnvironment \<Rightarrow> CharDriverState sPAPREnvironment \<Rightarrow> bool" where
  step: "allowed s e \<Longrightarrow> spapr_step s e = Inr (r, s') \<Longrightarrow> spapr_trans s s'"

inductive reachable :: "CharDriverState sPAPREnvironment \<Rightarrow> CharDriverState sPAPREnvironment \<Rightarrow> bool" for s0 where
  start: "reachable s0 s0"
| next_state: "reachable s0 s \<Longrightarrow> spapr_trans s s' \<Longrightarrow> reachable s0 s'"

definition vtys_only :: "CharDriverState sPAPREnvironment \<Rightarrow> bool" where
  "vtys_only s \<longleftrightarrow> list_all is_vty (vio_bus s)"

text \<open>
  \<open>run_allowed s es\<close>: each event of \<open>es\<close> is allowed in the state in which
  \<open>spapr_run\<close> runs it.
\<close>

abbreviation run_allowed :: "CharDriverState sPAPREnvironment \<Rightarrow> event list \<Rightarrow> bool" where
  "run_allowed \<equiv> run_ok allowed spapr_step"

text \<open>A machine to evaluate on: one VTY whose cursors are about to wrap.\<close>

definition spapr_wrap :: "CharDriverState sPAPREnvironment" where
  "spapr_wrap = \<lparr>vio_bus = [Spapr_vty vty_near_wrap]\<rparr>"

lemmas [vty_defs] =
  qdev_create_def qdev_prop_set_chr_def qdev_init_nofail_def spapr_vty_create_def
  chr_may_deliver_def

inductive_cases spapr_transE: "spapr_trans s s'"

section \<open>Creation gives well-formed machines\<close>

lemma vty_ready_fresh [simp]: "vty_ready (vty_fresh r (Some chr))"
  by (simp add: vty_ready_def)

lemma spapr_vty_create_Some:
  "spapr_vty_create bus r (Some c) =
     Inr (bus @ [Spapr_vty (vty_fresh r (Some (qemu_chr_add_handlers c
            (Some FN_vty_can_receive) (Some FN_vty_receive) None (Some (length bus)))))])"
  by (simp add: vty_defs vty_fresh_def)

lemma spapr_vty_create_None: "spapr_vty_create bus r None = Inl Exit_failure"
  by (simp add: vty_defs vty_fresh_def)

lemma spapr_vty_create_unfold:
  "spapr_vty_create bus r chr =
     bind_result (spapr_vty_init (length bus) (vty_fresh r chr))
       (\<lambda>(dev, rc). Inr (bus @ [Spapr_vty dev]))"
  by (cases chr) (simp_all add: spapr_vty_create_Some spapr_vty_create_None spapr_vty_init_def vty_fresh_def)

lemma spapr_inv_append:
  "spapr_inv \<lparr>vio_bus = bus @ [c]\<rparr> \<longleftrightarrow> spapr_inv \<lparr>vio_bus = bus\<rparr> \<and> child_ok c"
  by (simp add: spapr_inv_def)

lemma built_inv: "built bus \<Longrightarrow> spapr_inv \<lparr>vio_bus = bus\<rparr>"
proof (induction rule: built.induct)
  case empty
  show ?case by (simp add: spapr_inv_def)
next
  case (other bus d)
  then show ?case by (simp add: spapr_inv_append child_ok_def)
next
  case (vty bus r chr bus')
  then show ?case
    by (cases chr) (auto simp: spapr_vty_create_Some spapr_vty_create_None spapr_inv_append child_ok_def)
qed

section \<open>Steps\<close>

lemma chr_may_deliver_room:
  "chr_may_deliver dev bs \<Longrightarrow> length bs = 1 \<and> vty_count dev < 16"
  by (cases bs) (auto simp: chr_may_deliver_def vty_can_receive_def vty_guard_iff split: if_splits)

lemma chr_read_ok:
  assumes "vty_inv dev" and "chr_may_deliver dev bs"
  shows "is_ok (vty_receive dev bs)"
  using assms chr_may_deliver_room [of dev bs] by (simp add: vty_receive_ok_iff)

lemma spapr_step_inv:
  assumes "spapr_step s e = Inr (r, s')" and "allowed s e" and "spapr_inv s"
  shows "spapr_inv s' \<and> same_shape (vio_bus s) (vio_bus s')"
proof (cases e)
  case (Chr_read sdev bs)
  with assms(1,2) obtain dev dev' where dev: "vio_bus s ! sdev = Spapr_vty dev"
    and bound: "sdev < length (vio_bus s)"
    and rcv: "vty_receive dev bs = Inr dev'" and s': "s' = store_vty s sdev dev'"
    by (auto simp: bind_result_eq_Inr_iff split: DeviceState.splits)
  from assms(3) bound dev have "vty_ready dev"
    by (rule spapr_inv_nth)
  with rcv have "vty_ready dev'" and "reg dev' = reg dev"
    by (auto dest: vty_ready_receive vty_receive_frame)
  with assms(3) bound dev s' show ?thesis
    by (simp add: spapr_inv_store same_shape_update)
next
  case (Hcall_put args)
  with assms show ?thesis
    by (auto simp: bind_result_eq_Inr_iff dest: h_put_term_char_inv)
next
  case (Hcall_get stack args)
  with assms show ?thesis
    by (auto simp: bind_result_eq_Inr_iff dest: h_get_term_char_inv)
qed

lemma spapr_trans_inv:
  "spapr_trans s s' \<Longrightarrow> spapr_inv s \<Longrightarrow> spapr_inv s' \<and> same_shape (vio_bus s) (vio_bus s')"
  by (auto elim!: spapr_transE dest: spapr_step_inv)

lemma reachable_inv:
  "reachable s0 s \<Longrightarrow> spapr_inv s0 \<Longrightarrow> spapr_inv s \<and> same_shape (vio_bus s0) (vio_bus s)"
proof (induction rule: reachable.induct)
  case start
  then show ?case by simp
next
  case (next_state s s')
  then have "spapr_inv s" and "same_shape (vio_bus s0) (vio_bus s)"
    by simp_all
  moreover from next_state.hyps(2) \<open>spapr_inv s\<close>
  have "spapr_inv s' \<and> same_shape (vio_bus s) (vio_bus s')"
    by (rule spapr_trans_inv)
  ultimately show ?case
    by (blast intro: same_shape_trans)
qed

section \<open>Faults\<close>

lemma vtys_only_nth:
  "vtys_only s \<Longrightarrow> i < length (vio_bus s) \<Longrightarrow> \<exists>dev. vio_bus s ! i = Spapr_vty dev"
  by (cases "vio_bus s ! i") (auto simp: vtys_only_def list_all_length)

lemma spapr_step_fault:
  assumes "spapr_step s e = Inl f" and "allowed s e" and "spapr_inv s"
  shows "f = Bad_cast \<and> \<not> vtys_only s"
proof (cases e)
  case (Chr_read sdev bs)
  with assms(2) obtain dev where dev: "vio_bus s ! sdev = Spapr_vty dev"
    and bound: "sdev < length (vio_bus s)" and may: "chr_may_deliver dev bs"
    by (auto split: DeviceState.splits)
  from assms(3) bound dev have "vty_inv dev"
    by (auto dest: spapr_inv_nth simp: vty_ready_def)
  then have "is_ok (vty_receive dev bs)"
    using may by (rule chr_read_ok)
  with assms(1) Chr_read dev show ?thesis
    by (auto simp: is_ok_iff)
next
  case (Hcall_put args)
  with assms(1) have "h_put_term_char s args = Inl f"
    by (auto simp: bind_result_eq_Inl_iff)
  from h_put_term_char_fault [OF this assms(3)] show ?thesis
    by (auto dest: vty_lookup_bound vtys_only_nth)
next
  case (Hcall_get stack args)
  with assms(1) have "h_get_term_char s stack args = Inl f"
    by (auto simp: bind_result_eq_Inl_iff)
  from h_get_term_char_fault [OF this] show ?thesis
    by (auto dest: vty_lookup_bound vtys_only_nth)
qed

lemma spapr_step_fault_kind:
  "spapr_step s ev = Inl f \<Longrightarrow> f = Assert_failed \<or> f = Bad_cast \<or> f = Null_chardev"
  by (cases ev)
     (auto simp: bind_result_eq_Inl_iff vty_receive_def
        dest: vty_receive_loop_fault h_put_term_char_fault_kind h_get_term_char_fault
        split: DeviceState.splits)

lemma reachable_vtys_only:
  assumes "reachable s0 s" and "spapr_inv s0" and "vtys_only s0"
  shows "vtys_only s"
  using reachable_inv [OF assms(1,2)] assms(3)
  by (auto simp: vtys_only_def dest: same_shape_all_vty)

section \<open>Runs\<close>

lemma reachable_step:
  "reachable s0 s \<Longrightarrow> allowed s e \<Longrightarrow> spapr_step s e = Inr (r, s') \<Longrightarrow> reachable s0 s'"
  by (auto intro: reachable.next_state spapr_trans.step)

lemma reachable_trans: "reachable s1 s2 \<Longrightarrow> reachable s0 s1 \<Longrightarrow> reachable s0 s2"
  by (induction rule: reachable.induct) (auto intro: reachable.next_state)

lemma chr_read_step:
  assumes "spapr_inv s" and "allowed s (Chr_read sdev bs)"
  shows "\<exists>s'. spapr_step s (Chr_read sdev bs) = Inr (Delivered, s')"
proof -
  from assms(2) obtain dev where dev: "vio_bus s ! sdev = Spapr_vty dev"
    and bound: "sdev < length (vio_bus s)" and may: "chr_may_deliver dev bs"
    by (auto split: DeviceState.splits)
  from assms(1) bound dev have "vty_inv dev"
    by (auto dest: spapr_inv_nth simp: vty_ready_def)
  then have "is_ok (vty_receive dev bs)"
    using may by (rule chr_read_ok)
  then obtain dev' where "vty_receive dev bs = Inr dev'"
    by (auto simp: is_ok_iff)
  with dev show ?thesis
    by simp
qed

section \<open>The machines to evaluate on\<close>

lemma built_529: "built bus_529"
proof -
  let ?chr = "Some chr_unbound"
  have "spapr_vty_create [] 5 ?chr = Inr [bus_529 ! 0]"
    by (simp add: spapr_vty_create_Some bus_529_def)
  with built.empty have "built [bus_529 ! 0]"
    by (rule built.vty)
  then have "built ([bus_529 ! 0] @ [Spapr_other \<lparr>reg = 1, qirq = 0\<rparr>])"
    by (rule built.other)
  moreover have "spapr_vty_create ([bus_529 ! 0] @ [Spapr_other \<lparr>reg = 1, qirq = 0\<rparr>]) 2 ?chr =
      Inr (take 3 bus_529)"
    by (simp add: spapr_vty_create_Some bus_529_def)
  ultimately have "built (take 3 bus_529)"
    by (rule built.vty)
  moreover have "spapr_vty_create (take 3 bus_529) 9 ?chr = Inr bus_529"
    by (simp add: spapr_vty_create_Some bus_529_def)
  ultimately show ?thesis
    by (rule built.vty)
qed

lemma spapr_wrap_simps [simp]:
  "vio_bus spapr_wrap = [Spapr_vty vty_near_wrap]"
  "spapr_inv spapr_wrap" "vtys_only spapr_wrap"
  "vty_lookup spapr_wrap 0 = Some 0"
  by (simp_all add: vty_defs spapr_wrap_def spapr_inv_def child_ok_def vtys_only_def)

lemma chr_may_deliver_near_wrap [simp]: "chr_may_deliver vty_near_wrap [b]"
  by (simp add: chr_may_deliver_def vty_can_receive_def vty_guard_iff)

section \<open>Properties of the machine\<close>

text \<open>
  C40. \<open>spapr_vty_create\<close> with a backend appends to the bus one VTY with the \<open>reg\<close>
  the bus assigns, an empty ring with both cursors at 0, a zeroed buffer, and that
  backend with the handlers of the terminal registered and the new device as their
  \<^verbatim>\<open>opaque\<close> pointer; without a backend it ends the program with \<^verbatim>\<open>exit(1)\<close>.
\<close>

theorem spapr_vty_create_eq:
  "spapr_vty_create bus r chr =
     (case chr of
        None \<Rightarrow> Inl Exit_failure
      | Some c \<Rightarrow>
          Inr (bus @ [Spapr_vty \<lparr>reg = r, qirq = 0,
                                 chardev = Some (c\<lparr>chr_can_read := Some FN_vty_can_receive,
                                                   chr_read := Some FN_vty_receive,
                                                   chr_event := None,
                                                   handler_opaque := Some (length bus)\<rparr>),
                                 vin = 0, vout = 0, buf = replicate 16 0\<rparr>]))"
  by (cases chr)
     (simp_all add: spapr_vty_create_Some spapr_vty_create_None vty_fresh_def
        qemu_chr_add_handlers_def)

text \<open>
  On a bus put together by device creation, every state the machine reaches through
  allowed events is well-formed: each VTY has its 16-slot buffer, at most 16 bytes
  pending and its backend, and the bus has the children it started with.
\<close>

lemma built_reachable_inv:
  assumes "built bus" and "reachable \<lparr>vio_bus = bus\<rparr> s"
  shows "spapr_inv s \<and> same_shape bus (vio_bus s)"
  using reachable_inv [OF assms(2)] built_inv [OF assms(1)] by simp

text \<open>
  C29. In every state reachable from a well-formed machine the ring of every VTY holds at
  most 16 bytes in a buffer of 16 slots, and the VTY has its backend.
\<close>

theorem reachable_ring_bounded:
  assumes "reachable s0 s" and "spapr_inv s0"
    and "i < length (vio_bus s)" and "vio_bus s ! i = Spapr_vty dev"
  shows "length (vty_queue dev) \<le> 16 \<and> length (buf dev) = 16 \<and> chardev dev \<noteq> None"
proof -
  from assms(1,2) have "spapr_inv s"
    by (simp add: reachable_inv)
  then have "vty_ready dev"
    using assms(3,4) by (rule spapr_inv_nth)
  then show ?thesis
    by (simp add: vty_ready_def vty_inv_def)
qed

theorem reachable_ring_bounded_witness:
  "length (vty_queue vty_near_wrap) \<le> 16 \<and> length (buf vty_near_wrap) = 16 \<and>
   chardev vty_near_wrap \<noteq> None"
  by (rule reachable_ring_bounded [of spapr_wrap spapr_wrap 0]) (simp_all add: reachable.start)

text \<open>
  C8. No event the backend or the guest is allowed to raise makes the \<^verbatim>\<open>assert\<close> of
  \<open>vty_receive\<close> fail or reaches a null backend, in any state reachable from a
  well-formed machine. The only fault left is the use of a device that is no VTY as a
  VTY, and it needs such a device on the bus.
\<close>

theorem reachable_only_bad_cast:
  assumes "reachable s0 s" and "spapr_inv s0" and "allowed s e" and "spapr_step s e = Inl f"
  shows "f = Bad_cast \<and> \<not> vtys_only s0"
proof -
  from assms(1,2) have inv: "spapr_inv s"
    by (simp add: reachable_inv)
  from spapr_step_fault [OF assms(4,3) inv] have "f = Bad_cast" and "\<not> vtys_only s"
    by simp_all
  with assms(1,2) show ?thesis
    by (auto dest: reachable_vtys_only)
qed

theorem reachable_only_bad_cast_witness:
  "spapr_step spapr_529 (Hcall_put [1, 3, 0, 0]) = Inl Bad_cast \<and> \<not> vtys_only spapr_529"
proof -
  have step: "spapr_step spapr_529 (Hcall_put [1, 3, 0, 0]) = Inl Bad_cast"
    by (simp add: h_put_term_char_other [of _ _ 1])
  with reachable_only_bad_cast [OF reachable.start _ _ step] show ?thesis
    by simp
qed

text \<open>
  A machine whose bus carries only VTYs never faults: from every state reachable
  from a well-formed start, every allowed event runs to its end and leads to a reachable
  state.
\<close>

lemma vtys_only_progress:
  assumes "reachable s0 s" and "spapr_inv s0" and "vtys_only s0" and "allowed s e"
  shows "\<exists>r s'. spapr_step s e = Inr (r, s') \<and> reachable s0 s'"
proof (cases "spapr_step s e")
  case (Inl f)
  from assms(1,2) have "spapr_inv s"
    by (simp add: reachable_inv)
  with Inl assms(4) have "\<not> vtys_only s"
    by (auto dest: spapr_step_fault)
  with assms(1-3) show ?thesis
    by (auto dest: reachable_vtys_only)
next
  case (Inr p)
  then obtain r s' where "spapr_step s e = Inr (r, s')"
    by (cases p) simp
  with assms(1,4) show ?thesis
    by (auto intro: reachable.next_state spapr_trans.step)
qed

text \<open>
  The console does not move: in every state reachable from a well-formed machine
  each \<open>reg\<close>, 0 included, resolves to the same device as at the start.
\<close>

lemma reachable_lookup_stable:
  assumes "reachable s0 s" and "spapr_inv s0"
  shows "vty_lookup s r = vty_lookup s0 r"
  using reachable_inv [OF assms] by (simp add: vty_lookup_same_shape)

text \<open>
  On a well-formed machine with only VTYs on its bus, every sequence of events that
  are allowed when their turn comes runs to its end: \<open>spapr_run\<close> returns one response
  per event and a state that is reachable.
\<close>

lemma spapr_run_allowed_total:
  assumes "spapr_inv s" and "vtys_only s" and "run_allowed s es"
  shows "\<exists>rs s'. spapr_run s es = Inr (rs, s') \<and> length rs = length es \<and> reachable s s'"
proof -
  let ?I = "\<lambda>s'. spapr_inv s' \<and> vtys_only s' \<and> reachable s s'"
  have "\<exists>r s2. spapr_step s1 e = Inr (r, s2) \<and> ?I s2" if "?I s1" and al: "allowed s1 e" for s1 e
  proof -
    from that obtain r s2 where step: "spapr_step s1 e = Inr (r, s2)"
      by (cases "spapr_step s1 e") (auto dest: spapr_step_fault)
    with al that(1) have "reachable s s2"
      by (auto intro: reachable_step)
    with assms(1,2) step show ?thesis
      by (auto dest: reachable_inv reachable_vtys_only)
  qed
  with assms run_result_total [where I = ?I and P = allowed and step = spapr_step, of s es]
  show ?thesis
    by (auto simp: reachable.start)
qed

end
