(* ===== verification/VtyQom.thy ===== *)
theory VtyQom
  imports VtyMachine
begin

text \<open>
  The tables of \<^verbatim>\<open>src/hw/spapr_vty.c\<close> and the calls that go through them: the property
  list, the class initialiser and the type description of the device (lines 135-158),
  and the registration of the type and of the two hypercalls (lines 212-219).

  None of the functions of the file is called by name from outside: the emulator finds
  \<open>spapr_vty_init\<close> in the class of the device, the two handlers in the hypercall table
  and the two callbacks in the character backend. A function pointer is a tag (\<open>fnptr\<close>),
  and each kind of call has its environment, a function \<open>call_\<dots>\<close> that says which
  function a tag stands for; a tag of another kind is the fault \<open>Bad_call\<close>. The tables
  themselves (\<open>QemuState\<close>), the functions that fill and read them and the object model
  belong to the emulator outside this file and are modelled from their contracts, as far
  as this file uses them.

  \<open>qemu_step\<close> is the machine as the emulator drives it: a hypercall is an opcode
  looked up in the hypercall table, input from the host is offered to the callbacks the
  backend holds, with the \<^verbatim>\<open>opaque\<close> pointer the backend holds (\<open>opaque_vty\<close>): the device
  that receives is the one \<open>spapr_vty_init\<close> passed to \<^verbatim>\<open>qemu_chr_add_handlers\<close>. Lemmas: what registration leaves in the tables, that the class of the
  registered type creates the device that \<open>spapr_vty_create\<close> creates, and that every
  step through the tables is an allowed step of \<open>spapr_step\<close> or changes nothing.
\<close>

section \<open>Properties, class and type of the device\<close>

text \<open>
  An entry of a property array: the two macros the file uses and the end marker. The
  expansion of \<^verbatim>\<open>DEFINE_SPAPR_PROPERTIES\<close> is not in the file; only \<^verbatim>\<open>DEFINE_PROP_CHR\<close> names
  its property here.
\<close>

datatype Property =
    DEFINE_SPAPR_PROPERTIES string string nat
  | DEFINE_PROP_CHR string string string
  | DEFINE_PROP_END_OF_LIST

definition spapr_vty_properties :: "Property list" where
  "spapr_vty_properties =
     [DEFINE_SPAPR_PROPERTIES ''VIOsPAPRVTYDevice'' ''sdev'' 0,
      DEFINE_PROP_CHR ''chardev'' ''VIOsPAPRVTYDevice'' ''chardev'',
      DEFINE_PROP_END_OF_LIST]"

text \<open>
  The class of a VIO device, with the fields that \<^verbatim>\<open>DEVICE_CLASS\<close> and
  \<^verbatim>\<open>VIO_SPAPR_DEVICE_CLASS\<close> give access to. A pointer field that is not set is \<open>None\<close>.
\<close>

record ObjectClass =
  init :: "fnptr option"
  dt_name :: "string option"
  dt_type :: "string option"
  dt_compatible :: "string option"
  props :: "Property list option"

definition spapr_vty_class_init :: "ObjectClass \<Rightarrow> ObjectClass" where
  "spapr_vty_class_init klass =
     klass\<lparr>init := Some FN_spapr_vty_init,
           dt_name := Some ''vty'',
           dt_type := Some ''serial'',
           dt_compatible := Some ''hvterm1'',
           props := Some spapr_vty_properties\<rparr>"

datatype csize = Sizeof string

record TypeInfo =
  name :: string
  parent :: string
  instance_size :: csize
  class_init :: "fnptr option"

abbreviation TYPE_VIO_SPAPR_DEVICE :: string where
  "TYPE_VIO_SPAPR_DEVICE \<equiv> ''vio-spapr-device''"

definition spapr_vty_info :: TypeInfo where
  "spapr_vty_info =
     \<lparr>name = ''spapr-vty'',
      parent = TYPE_VIO_SPAPR_DEVICE,
      instance_size = Sizeof ''VIOsPAPRVTYDevice'',
      class_init = Some FN_spapr_vty_class_init\<rparr>"

section \<open>Registration\<close>

text \<open>
  The tables of the emulator that the file writes to: the hypercall table, the table of
  types, and the list of module initialisers that \<^verbatim>\<open>type_init\<close> appends to.
\<close>

record QemuState =
  papr_hypercall_table :: "(target_ulong \<times> fnptr) list"
  type_table :: "TypeInfo list"
  init_type_list :: "fnptr list"

abbreviation H_GET_TERM_CHAR :: target_ulong where
  "H_GET_TERM_CHAR \<equiv> 0x54"

abbreviation H_PUT_TERM_CHAR :: target_ulong where
  "H_PUT_TERM_CHAR \<equiv> 0x58"

abbreviation H_FUNCTION :: target_ulong where
  "H_FUNCTION \<equiv> - 2"

text \<open>
  Registration of a handler asserts that the slot of the opcode is free or already holds
  the same handler.
\<close>

definition spapr_register_hypercall :: "target_ulong \<Rightarrow> fnptr \<Rightarrow> QemuState \<Rightarrow> QemuState result" where
  "spapr_register_hypercall opcode fn q =
     (case map_of (papr_hypercall_table q) opcode of
        None \<Rightarrow> Inr (q\<lparr>papr_hypercall_table := (opcode, fn) # papr_hypercall_table q\<rparr>)
      | Some slot \<Rightarrow> if fn = slot then Inr q else Inl Assert_failed)"

definition type_register_static :: "TypeInfo \<Rightarrow> QemuState \<Rightarrow> QemuState" where
  "type_register_static info q = q\<lparr>type_table := type_table q @ [info]\<rparr>"

definition spapr_vty_register_types :: "QemuState \<Rightarrow> QemuState result" where
  "spapr_vty_register_types q =
     bind_result (spapr_register_hypercall H_PUT_TERM_CHAR FN_h_put_term_char q) (\<lambda>q1.
     bind_result (spapr_register_hypercall H_GET_TERM_CHAR FN_h_get_term_char q1) (\<lambda>q2.
     Inr (type_register_static spapr_vty_info q2)))"

definition type_init :: "fnptr \<Rightarrow> QemuState \<Rightarrow> QemuState" where
  "type_init fn q = q\<lparr>init_type_list := init_type_list q @ [fn]\<rparr>"

text \<open>The last line of the file, which runs when the program is loaded.\<close>

definition spapr_vty_module :: "QemuState \<Rightarrow> QemuState" where
  "spapr_vty_module q = type_init FN_spapr_vty_register_types q"

section \<open>Calls through function pointers\<close>

definition call_module_init :: "fnptr \<Rightarrow> QemuState \<Rightarrow> QemuState result" where
  "call_module_init fn q =
     (case fn of FN_spapr_vty_register_types \<Rightarrow> spapr_vty_register_types q | _ \<Rightarrow> Inl Bad_call)"

definition call_class_init :: "fnptr \<Rightarrow> ObjectClass \<Rightarrow> ObjectClass result" where
  "call_class_init fn klass =
     (case fn of FN_spapr_vty_class_init \<Rightarrow> Inr (spapr_vty_class_init klass) | _ \<Rightarrow> Inl Bad_call)"

definition call_init ::
  "fnptr \<Rightarrow> nat \<Rightarrow> CharDriverState VIOsPAPRVTYDevice \<Rightarrow>
     (CharDriverState VIOsPAPRVTYDevice \<times> int) result" where
  "call_init fn sdev dev =
     (case fn of FN_spapr_vty_init \<Rightarrow> spapr_vty_init sdev dev | _ \<Rightarrow> Inl Bad_call)"

definition call_can_read :: "fnptr \<Rightarrow> 'chr VIOsPAPRVTYDevice \<Rightarrow> int result" where
  "call_can_read fn dev =
     (case fn of FN_vty_can_receive \<Rightarrow> Inr (vty_can_receive dev) | _ \<Rightarrow> Inl Bad_call)"

definition call_read ::
  "fnptr \<Rightarrow> 'chr VIOsPAPRVTYDevice \<Rightarrow> u8 list \<Rightarrow> 'chr VIOsPAPRVTYDevice result" where
  "call_read fn dev bs = (case fn of FN_vty_receive \<Rightarrow> vty_receive dev bs | _ \<Rightarrow> Inl Bad_call)"

fun hstatus_code :: "hstatus \<Rightarrow> target_ulong" where
  "hstatus_code H_SUCCESS = 0"
| "hstatus_code H_PARAMETER = - 4"

text \<open>
  A handler called through the hypercall table returns its status as a number; the
  write handler leaves the argument array as it is.
\<close>

definition call_hcall ::
  "fnptr \<Rightarrow> CharDriverState sPAPREnvironment \<Rightarrow> u8 list \<Rightarrow> target_ulong list \<Rightarrow>
     (target_ulong \<times> target_ulong list \<times> CharDriverState sPAPREnvironment) result" where
  "call_hcall fn spapr stack args =
     (case fn of
        FN_h_put_term_char \<Rightarrow>
          bind_result (h_put_term_char spapr args) (\<lambda>(st, spapr'). Inr (hstatus_code st, args, spapr'))
      | FN_h_get_term_char \<Rightarrow>
          bind_result (h_get_term_char spapr stack args)
            (\<lambda>(st, args', spapr'). Inr (hstatus_code st, args', spapr'))
      | _ \<Rightarrow> Inl Bad_call)"

section \<open>The emulator's side of the tables\<close>

text \<open>Program start: the module initialisers run in the order of their registration.\<close>

fun module_call_init_loop :: "fnptr list \<Rightarrow> QemuState \<Rightarrow> QemuState result" where
  "module_call_init_loop [] q = Inr q"
| "module_call_init_loop (fn # fns) q = bind_result (call_module_init fn q) (module_call_init_loop fns)"

definition module_call_init :: "QemuState \<Rightarrow> QemuState result" where
  "module_call_init q = module_call_init_loop (init_type_list q) q"

definition qemu_empty :: QemuState where
  "qemu_empty = \<lparr>papr_hypercall_table = [], type_table = [], init_type_list = []\<rparr>"

text \<open>
  A hypercall: the handler in the slot of the opcode decides; an opcode without a handler
  is answered \<^verbatim>\<open>H_FUNCTION\<close>.
\<close>

definition spapr_hypercall ::
  "QemuState \<Rightarrow> CharDriverState sPAPREnvironment \<Rightarrow> u8 list \<Rightarrow> target_ulong \<Rightarrow> target_ulong list \<Rightarrow>
     (target_ulong \<times> target_ulong list \<times> CharDriverState sPAPREnvironment) result" where
  "spapr_hypercall q spapr stack opcode args =
     (case map_of (papr_hypercall_table q) opcode of
        None \<Rightarrow> Inr (H_FUNCTION, args, spapr)
      | Some fn \<Rightarrow> call_hcall fn spapr stack args)"

text \<open>
  The class of a type: the class of the parent, here the abstract VIO device with no field
  set, passed through the class initialiser of the type.
\<close>

definition vio_spapr_device_class :: ObjectClass where
  "vio_spapr_device_class =
     \<lparr>init = None, dt_name = None, dt_type = None, dt_compatible = None, props = None\<rparr>"

definition object_class_by_name :: "QemuState \<Rightarrow> string \<Rightarrow> ObjectClass result option" where
  "object_class_by_name q typename =
     (case find (\<lambda>info. name info = typename) (type_table q) of
        None \<Rightarrow> None
      | Some info \<Rightarrow>
          Some (case class_init info of
                  None \<Rightarrow> Inr vio_spapr_device_class
                | Some fn \<Rightarrow> call_class_init fn vio_spapr_device_class))"

text \<open>The names of the properties of an array, up to its end marker.\<close>

fun prop_names :: "Property list \<Rightarrow> string list" where
  "prop_names [] = []"
| "prop_names (DEFINE_PROP_END_OF_LIST # ps) = []"
| "prop_names (DEFINE_PROP_CHR nm ty field # ps) = nm # prop_names ps"
| "prop_names (DEFINE_SPAPR_PROPERTIES ty field dma # ps) = prop_names ps"

text \<open>
  Creation of a device by the name of its type, as \<open>spapr_vty_create\<close> asks for it: the
  type must be registered, the property \<^verbatim>\<open>chardev\<close> must be one of the class, and the
  initialiser is the one the class holds.
\<close>

definition qom_vty_create ::
  "QemuState \<Rightarrow> CharDriverState VIOsPAPRBus \<Rightarrow> target_ulong \<Rightarrow> CharDriverState option \<Rightarrow> CharDriverState VIOsPAPRBus result" where
  "qom_vty_create q bus r chr =
     (case object_class_by_name q ''spapr-vty'' of
        None \<Rightarrow> Inl Exit_failure
      | Some k \<Rightarrow>
          bind_result k (\<lambda>klass.
            if ''chardev'' \<notin> set (prop_names (case props klass of None \<Rightarrow> [] | Some ps \<Rightarrow> ps))
            then Inl Assert_failed
            else (case init klass of
                    None \<Rightarrow> Inr (bus @ [Spapr_vty (vty_fresh r chr)])
                  | Some fn \<Rightarrow>
                      bind_result (call_init fn (length bus) (vty_fresh r chr))
                        (\<lambda>(dev, rc). Inr (bus @ [Spapr_vty dev])))))"

text \<open>
  The device behind the \<^verbatim>\<open>opaque\<close> pointer of a callback. Both callbacks of this file cast
  the pointer to \<^verbatim>\<open>VIOsPAPRVTYDevice *\<close> and use it.
\<close>

definition opaque_vty ::
  "'chr sPAPREnvironment \<Rightarrow> nat option \<Rightarrow> (nat \<times> 'chr VIOsPAPRVTYDevice) result" where
  "opaque_vty s opaque =
     (case opaque of
        None \<Rightarrow> Inl Null_opaque
      | Some sdev \<Rightarrow>
          if sdev < length (vio_bus s)
          then (case vio_bus s ! sdev of
                  Spapr_vty dev \<Rightarrow> Inr (sdev, dev)
                | Spapr_other _ \<Rightarrow> Inl Bad_cast)
          else Inl Bad_cast)"

text \<open>
  Input from the host at a backend: the backend asks the callback \<^verbatim>\<open>fd_can_read\<close> how many
  bytes the device takes and hands at most that many of the bytes it has to \<^verbatim>\<open>fd_read\<close>,
  both times with the \<^verbatim>\<open>opaque\<close> pointer it was given together with the callbacks. The
  result says how many bytes were taken.
\<close>

definition qemu_chr_deliver ::
  "'chr sPAPREnvironment \<Rightarrow> CharDriverState \<Rightarrow> u8 list \<Rightarrow> (nat \<times> 'chr sPAPREnvironment) result" where
  "qemu_chr_deliver s chr bs =
     (case (chr_can_read chr, chr_read chr) of
        (Some can_read, Some rd) \<Rightarrow>
          bind_result (opaque_vty s (handler_opaque chr)) (\<lambda>(sdev, dev).
          bind_result (call_can_read can_read dev) (\<lambda>n.
            let input = take (nat n) bs in
            if input = [] then Inr (0, s)
            else bind_result (call_read rd dev input)
                   (\<lambda>dev'. Inr (length input, store_vty s sdev dev'))))
      | _ \<Rightarrow> Inr (0, s))"

section \<open>The machine behind the tables\<close>

datatype qemu_event =
    Guest_hcall target_ulong "u8 list" "target_ulong list"
  | Host_input nat "u8 list"

datatype qemu_response =
    Hcall_ret target_ulong "target_ulong list"
  | Input_taken nat

fun qemu_step ::
  "QemuState \<Rightarrow> CharDriverState sPAPREnvironment \<Rightarrow> qemu_event \<Rightarrow> (qemu_response \<times> CharDriverState sPAPREnvironment) result" where
  "qemu_step q s (Guest_hcall opcode stack args) =
     bind_result (spapr_hypercall q s stack opcode args)
       (\<lambda>(ret, args', s'). Inr (Hcall_ret ret args', s'))"
| "qemu_step q s (Host_input sdev bs) =
     (if sdev < length (vio_bus s)
      then (case vio_bus s ! sdev of
              Spapr_vty dev \<Rightarrow>
                (case chardev dev of
                   None \<Rightarrow> Inr (Input_taken 0, s)
                 | Some chr \<Rightarrow>
                     bind_result (qemu_chr_deliver s chr bs) (\<lambda>(n, s'). Inr (Input_taken n, s')))
            | Spapr_other _ \<Rightarrow> Inr (Input_taken 0, s))
      else Inr (Input_taken 0, s))"

text \<open>
  The event of \<open>spapr_step\<close> that an event of the emulator amounts to, if any, and the
  response of the emulator that a response of \<open>spapr_step\<close> amounts to.
\<close>

fun direct_event :: "CharDriverState sPAPREnvironment \<Rightarrow> qemu_event \<Rightarrow> event option" where
  "direct_event s (Guest_hcall opcode stack args) =
     (if opcode = H_PUT_TERM_CHAR then Some (Hcall_put args)
      else if opcode = H_GET_TERM_CHAR then Some (Hcall_get stack args)
      else None)"
| "direct_event s (Host_input sdev bs) =
     (if sdev < length (vio_bus s) \<and> bs \<noteq> []
      then (case vio_bus s ! sdev of
              Spapr_vty dev \<Rightarrow> if vty_can_receive dev = 1 then Some (Chr_read sdev [hd bs]) else None
            | Spapr_other _ \<Rightarrow> None)
      else None)"

fun qemu_view :: "target_ulong list \<Rightarrow> response \<Rightarrow> qemu_response" where
  "qemu_view args Delivered = Input_taken 1"
| "qemu_view args (Put_done st) = Hcall_ret (hstatus_code st) args"
| "qemu_view args (Get_done st args') = Hcall_ret (hstatus_code st) args'"

text \<open>What the emulator answers to an event that reaches no function of this file.\<close>

fun idle_response :: "qemu_event \<Rightarrow> qemu_response" where
  "idle_response (Guest_hcall opcode stack args) = Hcall_ret H_FUNCTION args"
| "idle_response (Host_input sdev bs) = Input_taken 0"

abbreviation qemu_run ::
  "QemuState \<Rightarrow> CharDriverState sPAPREnvironment \<Rightarrow> qemu_event list \<Rightarrow>
     (qemu_response list \<times> CharDriverState sPAPREnvironment) result" where
  "qemu_run q \<equiv> run_result (qemu_step q)"

fun event_args :: "qemu_event \<Rightarrow> target_ulong list" where
  "event_args (Guest_hcall opcode stack args) = args"
| "event_args (Host_input sdev bs) = []"

fun event_ok :: "qemu_event \<Rightarrow> bool" where
  "event_ok (Guest_hcall opcode stack args) = (length stack = 16)"
| "event_ok (Host_input sdev bs) = True"

section \<open>Well-formed tables and backends\<close>

text \<open>
  \<open>hcalls_registered\<close>: the hypercall table holds the two handlers of this file under
  their opcodes, and nothing under any other opcode.
\<close>

definition hcalls_registered :: "QemuState \<Rightarrow> bool" where
  "hcalls_registered q \<longleftrightarrow>
     map_of (papr_hypercall_table q) H_PUT_TERM_CHAR = Some FN_h_put_term_char \<and>
     map_of (papr_hypercall_table q) H_GET_TERM_CHAR = Some FN_h_get_term_char \<and>
     set (map fst (papr_hypercall_table q)) \<subseteq> {H_PUT_TERM_CHAR, H_GET_TERM_CHAR}"

definition type_registered :: "QemuState \<Rightarrow> bool" where
  "type_registered q \<longleftrightarrow>
     find (\<lambda>info. name info = ''spapr-vty'') (type_table q) = Some spapr_vty_info"

text \<open>
  \<open>chr_bound sdev dev\<close>: the backend of the device \<open>dev\<close> at the position \<open>sdev\<close> holds
  the two callbacks of this file and, as their \<^verbatim>\<open>opaque\<close> pointer, the position of the
  device. \<open>spapr_bound\<close>: this holds of every VTY on the bus.
\<close>

definition chr_bound :: "nat \<Rightarrow> CharDriverState VIOsPAPRVTYDevice \<Rightarrow> bool" where
  "chr_bound sdev dev \<longleftrightarrow>
     (case chardev dev of
        None \<Rightarrow> False
      | Some chr \<Rightarrow>
          chr_can_read chr = Some FN_vty_can_receive \<and> chr_read chr = Some FN_vty_receive \<and>
          handler_opaque chr = Some sdev)"

definition spapr_bound :: "CharDriverState sPAPREnvironment \<Rightarrow> bool" where
  "spapr_bound s \<longleftrightarrow>
     list_all (\<lambda>(sdev, c). case c of Spapr_vty dev \<Rightarrow> chr_bound sdev dev | Spapr_other _ \<Rightarrow> True)
       (enumerate 0 (vio_bus s))"

text \<open>The tables after program start, when this file is the only module.\<close>

definition qemu_booted :: QemuState where
  "qemu_booted =
     \<lparr>papr_hypercall_table =
        [(H_GET_TERM_CHAR, FN_h_get_term_char), (H_PUT_TERM_CHAR, FN_h_put_term_char)],
      type_table = [spapr_vty_info],
      init_type_list = [FN_spapr_vty_register_types]\<rparr>"

lemmas [vty_defs] =
  spapr_vty_properties_def spapr_vty_class_init_def spapr_vty_info_def
  spapr_register_hypercall_def type_register_static_def spapr_vty_register_types_def
  type_init_def spapr_vty_module_def call_module_init_def call_class_init_def call_init_def
  call_can_read_def call_read_def call_hcall_def module_call_init_def qemu_empty_def
  spapr_hypercall_def vio_spapr_device_class_def object_class_by_name_def

section \<open>What registration leaves in the tables\<close>

lemma spapr_register_hypercall_Inr:
  assumes "spapr_register_hypercall opcode fn q = Inr q'"
  shows "map_of (papr_hypercall_table q') = (map_of (papr_hypercall_table q))(opcode \<mapsto> fn)"
    and "set (map fst (papr_hypercall_table q')) = insert opcode (set (map fst (papr_hypercall_table q)))"
    and "type_table q' = type_table q" and "init_type_list q' = init_type_list q"
  using assms
  by (auto simp: spapr_register_hypercall_def fun_eq_iff map_of_eq_None_iff
      split: option.splits if_splits dest: map_of_SomeD intro: rev_image_eqI)

lemma spapr_register_hypercall_ok_iff:
  "is_ok (spapr_register_hypercall opcode fn q) \<longleftrightarrow>
     map_of (papr_hypercall_table q) opcode \<in> {None, Some fn}"
  by (auto simp: spapr_register_hypercall_def split: option.splits)

lemma spapr_register_hypercall_fault:
  "spapr_register_hypercall opcode fn q = Inl f \<Longrightarrow> f = Assert_failed"
  by (auto simp: spapr_register_hypercall_def split: option.splits if_splits)

lemma spapr_vty_register_types_Inr:
  assumes "spapr_vty_register_types q = Inr q'"
  shows "map_of (papr_hypercall_table q') =
           (map_of (papr_hypercall_table q))
             (H_PUT_TERM_CHAR \<mapsto> FN_h_put_term_char, H_GET_TERM_CHAR \<mapsto> FN_h_get_term_char)"
    and "set (map fst (papr_hypercall_table q')) =
           {H_PUT_TERM_CHAR, H_GET_TERM_CHAR} \<union> set (map fst (papr_hypercall_table q))"
    and "type_table q' = type_table q @ [spapr_vty_info]"
    and "init_type_list q' = init_type_list q"
proof -
  from assms obtain q1 q2
    where 1: "spapr_register_hypercall H_PUT_TERM_CHAR FN_h_put_term_char q = Inr q1"
      and 2: "spapr_register_hypercall H_GET_TERM_CHAR FN_h_get_term_char q1 = Inr q2"
      and 3: "q' = type_register_static spapr_vty_info q2"
    by (auto simp: spapr_vty_register_types_def bind_result_eq_Inr_iff)
  note r1 = spapr_register_hypercall_Inr [OF 1] and r2 = spapr_register_hypercall_Inr [OF 2]
  from 3 r1(1) r2(1) show "map_of (papr_hypercall_table q') =
      (map_of (papr_hypercall_table q))
        (H_PUT_TERM_CHAR \<mapsto> FN_h_put_term_char, H_GET_TERM_CHAR \<mapsto> FN_h_get_term_char)"
    by (simp add: type_register_static_def)
  from 3 r1(2) r2(2) show "set (map fst (papr_hypercall_table q')) =
      {H_PUT_TERM_CHAR, H_GET_TERM_CHAR} \<union> set (map fst (papr_hypercall_table q))"
    by (auto simp: type_register_static_def)
  from 3 r1(3) r2(3) show "type_table q' = type_table q @ [spapr_vty_info]"
    by (simp add: type_register_static_def)
  from 3 r1(4) r2(4) show "init_type_list q' = init_type_list q"
    by (simp add: type_register_static_def)
qed

lemma spapr_vty_register_types_ok_iff:
  "is_ok (spapr_vty_register_types q) \<longleftrightarrow>
     map_of (papr_hypercall_table q) H_PUT_TERM_CHAR \<in> {None, Some FN_h_put_term_char} \<and>
     map_of (papr_hypercall_table q) H_GET_TERM_CHAR \<in> {None, Some FN_h_get_term_char}"
proof (cases "spapr_register_hypercall H_PUT_TERM_CHAR FN_h_put_term_char q")
  case (Inl f)
  with spapr_register_hypercall_ok_iff [of H_PUT_TERM_CHAR FN_h_put_term_char q] show ?thesis
    by (simp add: spapr_vty_register_types_def)
next
  case (Inr q1)
  with spapr_register_hypercall_ok_iff [of H_PUT_TERM_CHAR FN_h_put_term_char q]
    spapr_register_hypercall_ok_iff [of H_GET_TERM_CHAR FN_h_get_term_char q1]
    spapr_register_hypercall_Inr(1) [OF Inr]
  show ?thesis
    by (cases "spapr_register_hypercall H_GET_TERM_CHAR FN_h_get_term_char q1")
       (simp_all add: spapr_vty_register_types_def)
qed

lemma spapr_vty_register_types_fault:
  "spapr_vty_register_types q = Inl f \<Longrightarrow> f = Assert_failed"
  by (auto simp: spapr_vty_register_types_def bind_result_eq_Inl_iff
      dest: spapr_register_hypercall_fault)

lemma type_registered_append:
  "\<forall>info \<in> set ts. name info \<noteq> ''spapr-vty'' \<Longrightarrow>
     find (\<lambda>info. name info = ''spapr-vty'') (ts @ [spapr_vty_info]) = Some spapr_vty_info"
  by (induction ts) (simp_all add: spapr_vty_info_def)


section \<open>Dispatch\<close>

lemma hcalls_registered_lookup:
  assumes "hcalls_registered q"
  shows "map_of (papr_hypercall_table q) opcode =
           (if opcode = H_PUT_TERM_CHAR then Some FN_h_put_term_char
            else if opcode = H_GET_TERM_CHAR then Some FN_h_get_term_char else None)"
proof -
  have "map_of (papr_hypercall_table q) opcode = None"
    if "opcode \<noteq> H_PUT_TERM_CHAR" and "opcode \<noteq> H_GET_TERM_CHAR"
    using that assms by (auto simp: hcalls_registered_def map_of_eq_None_iff)
  with assms show ?thesis
    by (simp add: hcalls_registered_def)
qed

lemma spapr_hypercall_registered:
  assumes "hcalls_registered q"
  shows "spapr_hypercall q spapr stack opcode args =
           (if opcode = H_PUT_TERM_CHAR then call_hcall FN_h_put_term_char spapr stack args
            else if opcode = H_GET_TERM_CHAR then call_hcall FN_h_get_term_char spapr stack args
            else Inr (H_FUNCTION, args, spapr))"
  by (simp add: spapr_hypercall_def hcalls_registered_lookup [OF assms])

lemma call_hcall_simps:
  "call_hcall FN_h_put_term_char spapr stack args =
     bind_result (h_put_term_char spapr args) (\<lambda>(st, spapr'). Inr (hstatus_code st, args, spapr'))"
  "call_hcall FN_h_get_term_char spapr stack args =
     bind_result (h_get_term_char spapr stack args)
       (\<lambda>(st, args', spapr'). Inr (hstatus_code st, args', spapr'))"
  by (simp_all add: call_hcall_def)

section \<open>Class and creation\<close>

lemma prop_names_spapr_vty [simp]: "prop_names spapr_vty_properties = [''chardev'']"
  by (simp add: spapr_vty_properties_def)

lemma object_class_by_name_registered:
  "type_registered q \<Longrightarrow>
     object_class_by_name q ''spapr-vty'' = Some (Inr (spapr_vty_class_init vio_spapr_device_class))"
  by (simp add: object_class_by_name_def type_registered_def spapr_vty_info_def call_class_init_def)

lemma object_class_by_name_unknown:
  "\<forall>info \<in> set (type_table q). name info \<noteq> typename \<Longrightarrow> object_class_by_name q typename = None"
  by (auto simp: object_class_by_name_def find_None_iff split: option.splits)

lemma qom_vty_create_registered:
  "type_registered q \<Longrightarrow> qom_vty_create q bus r chr = spapr_vty_create bus r chr"
  by (simp add: qom_vty_create_def object_class_by_name_registered spapr_vty_class_init_def
      call_init_def spapr_vty_create_unfold)

section \<open>Input from the host\<close>

lemma vty_can_receive_cases: "vty_can_receive dev = 0 \<or> vty_can_receive dev = 1"
  by (simp add: vty_can_receive_def)

lemma opaque_vty_Some:
  "sdev < length (vio_bus s) \<Longrightarrow> vio_bus s ! sdev = Spapr_vty dev \<Longrightarrow>
     opaque_vty s (Some sdev) = Inr (sdev, dev)"
  by (simp add: opaque_vty_def)

lemma qemu_chr_deliver_bound:
  assumes "chr_bound sdev dev" and "chardev dev = Some chr"
    and "sdev < length (vio_bus s)" and "vio_bus s ! sdev = Spapr_vty dev"
  shows "qemu_chr_deliver s chr bs =
           (if vty_can_receive dev = 1 \<and> bs \<noteq> []
            then bind_result (vty_receive dev [hd bs]) (\<lambda>dev'. Inr (1, store_vty s sdev dev'))
            else Inr (0, s))"
proof -
  from assms(1,2) have chr: "chr_can_read chr = Some FN_vty_can_receive"
    "chr_read chr = Some FN_vty_receive" "handler_opaque chr = Some sdev"
    by (simp_all add: chr_bound_def)
  have "take (Suc 0) bs = [hd bs]" if "bs \<noteq> []"
    using that by (cases bs) simp_all
  with chr vty_can_receive_cases [of dev] show ?thesis
    by (auto simp: qemu_chr_deliver_def opaque_vty_Some [OF assms(3,4)] call_can_read_def
        call_read_def Let_def)
qed

lemma spapr_bound_iff:
  "spapr_bound s \<longleftrightarrow>
     (\<forall>i < length (vio_bus s). \<forall>dev. vio_bus s ! i = Spapr_vty dev \<longrightarrow> chr_bound i dev)"
  by (auto simp: spapr_bound_def list_all_length nth_enumerate_eq split: DeviceState.splits)

lemma spapr_bound_nth:
  "spapr_bound s \<Longrightarrow> i < length (vio_bus s) \<Longrightarrow> vio_bus s ! i = Spapr_vty dev \<Longrightarrow> chr_bound i dev"
  by (simp add: spapr_bound_iff)

lemma spapr_bound_store:
  "spapr_bound s \<Longrightarrow> chr_bound i dev \<Longrightarrow> spapr_bound (store_vty s i dev)"
proof -
  have "chr_bound j d" if "spapr_bound s" "chr_bound i dev" "j < length (vio_bus s)"
    "(vio_bus s)[i := Spapr_vty dev] ! j = Spapr_vty d" for j d
    using that by (cases "j = i") (simp_all add: spapr_bound_iff)
  then show "spapr_bound s \<Longrightarrow> chr_bound i dev \<Longrightarrow> spapr_bound (store_vty s i dev)"
    by (simp add: spapr_bound_iff)
qed

lemma chr_bound_receive: "vty_receive dev bs = Inr dev' \<Longrightarrow> chr_bound i dev \<Longrightarrow> chr_bound i dev'"
  by (auto simp: chr_bound_def dest: vty_receive_frame)

lemma chr_bound_putchars:
  "vty_putchars dev b len = Inr dev' \<Longrightarrow> chr_bound i dev \<Longrightarrow> chr_bound i dev'"
  by (auto simp: chr_bound_def vty_putchars_def qemu_chr_fe_write_def split: option.splits)

lemma chr_bound_getchars: "chr_bound i dev \<Longrightarrow> chr_bound i (fst (vty_getchars dev obuf mx))"
  by (simp add: chr_bound_def)

lemma spapr_step_bound:
  assumes "spapr_step s e = Inr (r, s')" and "spapr_bound s"
  shows "spapr_bound s'"
proof (cases e)
  case (Chr_read sdev bs)
  show ?thesis
  proof (cases "sdev < length (vio_bus s)")
    case True
    with assms Chr_read show ?thesis
      by (auto simp: bind_result_eq_Inr_iff split: DeviceState.splits
          intro!: spapr_bound_store dest: spapr_bound_nth chr_bound_receive)
  next
    case False
    with assms Chr_read show ?thesis
      by (auto simp: bind_result_eq_Inr_iff spapr_bound_iff list_update_beyond
          split: DeviceState.splits)
  qed
next
  case (Hcall_put args)
  with assms obtain st where "h_put_term_char s args = Inr (st, s')"
    by (auto simp: bind_result_eq_Inr_iff)
  then show ?thesis
    using assms(2)
    by (cases rule: h_put_term_char_cases)
       (auto intro!: spapr_bound_store dest: vty_lookup_bound spapr_bound_nth chr_bound_putchars)
next
  case (Hcall_get stack args)
  with assms obtain st args' where "h_get_term_char s stack args = Inr (st, args', s')"
    by (auto simp: bind_result_eq_Inr_iff)
  then show ?thesis
    using assms(2)
    by (cases rule: h_get_term_char_cases)
       (auto intro!: spapr_bound_store chr_bound_getchars dest: vty_lookup_bound spapr_bound_nth)
qed

lemma reachable_bound: "reachable s0 s \<Longrightarrow> spapr_bound s0 \<Longrightarrow> spapr_bound s"
  by (induction rule: reachable.induct) (auto elim!: spapr_transE dest: spapr_step_bound)

lemma built_bound: "built bus \<Longrightarrow> spapr_bound \<lparr>vio_bus = bus\<rparr>"
proof (induction rule: built.induct)
  case empty
  show ?case by (simp add: spapr_bound_iff)
next
  case (other bus d)
  then show ?case by (auto simp: spapr_bound_iff nth_append)
next
  case (vty bus r chr bus')
  then show ?case
    by (cases chr)
       (auto simp: spapr_vty_create_Some spapr_vty_create_None spapr_bound_iff chr_bound_def
          qemu_chr_add_handlers_def nth_append vty_fresh_def split: if_splits)
qed

section \<open>Steps through the tables\<close>

lemma qemu_step_hcall:
  assumes "hcalls_registered q"
  shows "qemu_step q s (Guest_hcall opcode stack args) =
           (case direct_event s (Guest_hcall opcode stack args) of
              None \<Rightarrow> Inr (Hcall_ret H_FUNCTION args, s)
            | Some ev \<Rightarrow> bind_result (spapr_step s ev) (\<lambda>(r, s'). Inr (qemu_view args r, s')))"
proof -
  have "opcode = H_PUT_TERM_CHAR \<or> opcode = H_GET_TERM_CHAR \<or>
      (opcode \<noteq> H_PUT_TERM_CHAR \<and> opcode \<noteq> H_GET_TERM_CHAR)"
    by blast
  then show ?thesis
    by (elim disjE)
       (simp_all add: spapr_hypercall_registered [OF assms] call_hcall_simps bind_result_assoc
          split_def)
qed

lemma qemu_step_input:
  assumes "spapr_bound s"
  shows "qemu_step q s (Host_input sdev bs) =
           (case direct_event s (Host_input sdev bs) of
              None \<Rightarrow> Inr (Input_taken 0, s)
            | Some ev \<Rightarrow> bind_result (spapr_step s ev) (\<lambda>(r, s'). Inr (qemu_view [] r, s')))"
proof (cases "sdev < length (vio_bus s)")
  case False
  then show ?thesis by simp
next
  case True
  show ?thesis
  proof (cases "vio_bus s ! sdev")
    case (Spapr_other d)
    with True show ?thesis by simp
  next
    case (Spapr_vty dev)
    with assms True have bound: "chr_bound sdev dev"
      by (auto dest: spapr_bound_nth)
    then obtain chr where chr: "chardev dev = Some chr"
      by (auto simp: chr_bound_def split: option.splits)
    from qemu_chr_deliver_bound [OF bound chr True Spapr_vty, of bs] True Spapr_vty chr
    show ?thesis
      by (cases "vty_receive dev [hd bs]") auto
  qed
qed

lemma direct_event_allowed:
  "direct_event s e = Some ev \<Longrightarrow> event_ok e \<Longrightarrow> allowed s ev"
  by (cases e) (auto simp: chr_may_deliver_def split: if_splits DeviceState.splits)

lemma qemu_step_eq:
  assumes "hcalls_registered q" and "spapr_bound s"
  shows "qemu_step q s e =
           (case direct_event s e of
              None \<Rightarrow> Inr (idle_response e, s)
            | Some ev \<Rightarrow>
                bind_result (spapr_step s ev) (\<lambda>(r, s'). Inr (qemu_view (event_args e) r, s')))"
proof (cases e)
  case (Guest_hcall opcode stack args)
  with qemu_step_hcall [OF assms(1), of s opcode stack args] show ?thesis
    by (simp split: option.splits)
next
  case (Host_input sdev bs)
  with qemu_step_input [OF assms(2), of q sdev bs] show ?thesis
    by (simp split: option.splits)
qed

lemma qemu_step_progress:
  assumes "hcalls_registered q" and "spapr_inv s" and "spapr_bound s" and "vtys_only s"
    and "event_ok e"
  shows "\<exists>r s'. qemu_step q s e = Inr (r, s') \<and> reachable s s'"
proof (cases "direct_event s e")
  case None
  with assms show ?thesis
    by (simp add: qemu_step_eq reachable.start)
next
  case (Some ev)
  from this assms(5) have al: "allowed s ev"
    by (rule direct_event_allowed)
  with assms(2,4) obtain r s' where step: "spapr_step s ev = Inr (r, s')"
    by (cases "spapr_step s ev") (auto dest: spapr_step_fault)
  with al have "reachable s s'"
    by (auto intro: reachable_step reachable.start)
  with assms(1,3) Some step show ?thesis
    by (simp add: qemu_step_eq)
qed

section \<open>Program start\<close>

lemma module_call_init_boot: "module_call_init (spapr_vty_module qemu_empty) = Inr qemu_booted"
  by (simp add: vty_defs qemu_booted_def)

lemma spapr_vty_info_simps [simp]:
  "name spapr_vty_info = ''spapr-vty''" "class_init spapr_vty_info = Some FN_spapr_vty_class_init"
  by (simp_all add: spapr_vty_info_def)

lemma qemu_booted_simps [simp]:
  "hcalls_registered qemu_booted" "type_registered qemu_booted"
  by (simp_all add: hcalls_registered_def type_registered_def qemu_booted_def)

lemma spapr_bound_wrap [simp]: "spapr_bound spapr_wrap"
  by (simp add: spapr_bound_def spapr_wrap_def chr_bound_def vty_near_wrap_def)

section \<open>Properties of the tables\<close>

text \<open>
  C21. Every call through a function pointer finds a function of the kind the caller
  expects. Every bus that creation builds has the backends of its VTYs bound to the two
  callbacks of this file; with both handlers registered and the backends bound, no step
  of the emulator ends in \<open>Bad_call\<close>, and the backends are still bound after the step.
\<close>

theorem qemu_step_well_typed:
  "(built bus \<longrightarrow> spapr_bound \<lparr>vio_bus = bus\<rparr>) \<and>
   (hcalls_registered q \<and> spapr_bound s \<longrightarrow>
      qemu_step q s e \<noteq> Inl Bad_call \<and>
      (\<forall>r s'. qemu_step q s e = Inr (r, s') \<longrightarrow> spapr_bound s'))"
proof (intro conjI impI; (elim conjE)?)
  show "spapr_bound \<lparr>vio_bus = bus\<rparr>" if "built bus"
    using that by (rule built_bound)
next
  assume q: "hcalls_registered q" and s: "spapr_bound s"
  show "qemu_step q s e \<noteq> Inl Bad_call"
    using q s
    by (cases "direct_event s e")
       (auto simp: qemu_step_eq bind_result_eq_Inl_iff dest: spapr_step_fault_kind)
  show "\<forall>r s'. qemu_step q s e = Inr (r, s') \<longrightarrow> spapr_bound s'"
    using q s
    by (cases "direct_event s e")
       (auto simp: qemu_step_eq bind_result_eq_Inr_iff dest: spapr_step_bound)
qed

theorem qemu_step_well_typed_witness:
  "spapr_bound \<lparr>vio_bus = bus_529\<rparr> \<and>
   qemu_step qemu_booted spapr_wrap (Host_input 0 [0x41, 0x42]) \<noteq> Inl Bad_call \<and>
   (\<exists>r s'. qemu_step qemu_booted spapr_wrap (Host_input 0 [0x41, 0x42]) = Inr (r, s') \<and>
      spapr_bound s')"
proof -
  obtain r s' where "qemu_step qemu_booted spapr_wrap (Host_input 0 [0x41, 0x42]) = Inr (r, s')"
    using qemu_step_progress [of qemu_booted spapr_wrap "Host_input 0 [0x41, 0x42]"] by auto
  with qemu_step_well_typed [of bus_529 qemu_booted spapr_wrap "Host_input 0 [0x41, 0x42]"]
    built_529
  show ?thesis
    by auto
qed

text \<open>
  A machine that is driven through the tables never faults: on a well-formed machine
  with only VTYs on its bus, whose backends are bound, every sequence of hypercalls and of
  host input runs to its end, whatever the opcodes and however many bytes the host
  offers, with one response per event and in a state \<open>spapr_step\<close> can reach.
\<close>

lemma qemu_run_total:
  assumes "hcalls_registered q" and "spapr_inv s" and "spapr_bound s" and "vtys_only s"
    and "list_all event_ok es"
  shows "\<exists>rs s'. qemu_run q s es = Inr (rs, s') \<and> length rs = length es \<and> reachable s s'"
proof -
  let ?I = "\<lambda>s'. spapr_inv s' \<and> spapr_bound s' \<and> vtys_only s' \<and> reachable s s'"
  have "\<exists>r s2. qemu_step q s1 e = Inr (r, s2) \<and> ?I s2" if "?I s1" and "event_ok e" for s1 e
  proof -
    from that assms(1) obtain r s2 where "qemu_step q s1 e = Inr (r, s2)" and "reachable s1 s2"
      using qemu_step_progress [of q s1 e] by auto
    with that(1) show ?thesis
      by (auto dest: reachable_inv reachable_bound reachable_vtys_only intro: reachable_trans)
  qed
  with assms run_result_total [where I = ?I and P = "\<lambda>s. event_ok" and step = "qemu_step q", of s es]
  show ?thesis
    by (auto simp: reachable.start run_ok_list_all)
qed

text \<open>
  C20. The class that \<open>spapr_vty_class_init\<close> fills in creates the device of
  \<open>spapr_vty_create\<close>: once \<open>spapr_vty_info\<close> is registered, creation by the name
  \<^verbatim>\<open>spapr-vty\<close> finds the property \<^verbatim>\<open>chardev\<close> and runs \<open>spapr_vty_init\<close>; while no type of
  that name is registered, creation ends the program.
\<close>

theorem qom_vty_create_eq:
  "(type_registered q \<longrightarrow> qom_vty_create q bus r chr = spapr_vty_create bus r chr) \<and>
   ((\<forall>info \<in> set (type_table q). name info \<noteq> ''spapr-vty'') \<longrightarrow>
      qom_vty_create q bus r chr = Inl Exit_failure)"
  by (auto simp: qom_vty_create_registered)
     (simp add: qom_vty_create_def object_class_by_name_unknown)

theorem qom_vty_create_eq_witness:
  "qom_vty_create qemu_booted [] 0 (Some chr_unbound) = spapr_vty_create [] 0 (Some chr_unbound) \<and>
   qom_vty_create qemu_empty [] 0 (Some chr_unbound) = Inl Exit_failure"
  using qom_vty_create_eq [of qemu_booted "[]" 0 "Some chr_unbound"]
    qom_vty_create_eq [of qemu_empty "[]" 0 "Some chr_unbound"]
  by (simp add: qemu_empty_def)

text \<open>
  C19. After \<open>spapr_vty_register_types\<close> the opcode \<^verbatim>\<open>H_PUT_TERM_CHAR\<close> runs
  \<open>h_put_term_char\<close> and \<^verbatim>\<open>H_GET_TERM_CHAR\<close> runs \<open>h_get_term_char\<close>, every other opcode
  is answered as before, and the type table has \<open>spapr_vty_info\<close> as its new last
  entry.
\<close>

theorem spapr_vty_register_types_registered:
  assumes "spapr_vty_register_types q = Inr q'"
  shows "spapr_hypercall q' s stack H_PUT_TERM_CHAR args =
           bind_result (h_put_term_char s args) (\<lambda>(st, s'). Inr (hstatus_code st, args, s')) \<and>
         spapr_hypercall q' s stack H_GET_TERM_CHAR args =
           bind_result (h_get_term_char s stack args)
             (\<lambda>(st, args', s'). Inr (hstatus_code st, args', s')) \<and>
         (\<forall>opcode. opcode \<noteq> H_PUT_TERM_CHAR \<and> opcode \<noteq> H_GET_TERM_CHAR \<longrightarrow>
            spapr_hypercall q' s stack opcode args = spapr_hypercall q s stack opcode args) \<and>
         type_table q' = type_table q @ [spapr_vty_info]"
  by (simp add: spapr_hypercall_def spapr_vty_register_types_Inr [OF assms] call_hcall_simps)

theorem spapr_vty_register_types_registered_witness:
  "\<exists>q'. spapr_vty_register_types qemu_empty = Inr q' \<and>
     spapr_hypercall q' spapr_529 (replicate 16 0) H_PUT_TERM_CHAR [7, 0, 0, 0] =
       Inr (- 4, [7, 0, 0, 0], spapr_529) \<and>
     spapr_hypercall q' spapr_529 (replicate 16 0) 0x99 [7] = Inr (H_FUNCTION, [7], spapr_529) \<and>
     type_table q' = [spapr_vty_info]"
proof -
  obtain q' where q': "spapr_vty_register_types qemu_empty = Inr q'"
    by (simp add: vty_defs)
  have "vty_lookup spapr_529 7 = None"
    by (simp add: vty_lookup_def spapr_vio_find_by_reg_def upt_rec bus_529_def)
  with spapr_vty_register_types_registered [OF q', of spapr_529 "replicate 16 0" "[7, 0, 0, 0]"]
    spapr_vty_register_types_registered [OF q', of spapr_529 "replicate 16 0" "[7]"] q'
  show ?thesis
    by (simp add: h_put_term_char_unresolved spapr_hypercall_def qemu_empty_def)
qed

text \<open>
  C36. \<open>spapr_vty_register_types\<close> returns exactly when each of the two slots of the
  hypercall table is free or already holds the handler of this file; otherwise the
  assertion of the registration fails.
\<close>

theorem spapr_vty_register_types_ok:
  "(is_ok (spapr_vty_register_types q) \<longleftrightarrow>
      map_of (papr_hypercall_table q) H_PUT_TERM_CHAR \<in> {None, Some FN_h_put_term_char} \<and>
      map_of (papr_hypercall_table q) H_GET_TERM_CHAR \<in> {None, Some FN_h_get_term_char}) \<and>
   (\<not> is_ok (spapr_vty_register_types q) \<longrightarrow> spapr_vty_register_types q = Inl Assert_failed)"
  using spapr_vty_register_types_fault [of q] spapr_vty_register_types_ok_iff [of q]
  by (cases "spapr_vty_register_types q") auto

theorem spapr_vty_register_types_ok_witness:
  "is_ok (spapr_vty_register_types qemu_booted) \<and>
   spapr_vty_register_types (qemu_empty\<lparr>papr_hypercall_table := [(H_PUT_TERM_CHAR, FN_h_get_term_char)]\<rparr>)
     = Inl Assert_failed"
  using spapr_vty_register_types_ok [of qemu_booted]
    spapr_vty_register_types_ok
      [of "qemu_empty\<lparr>papr_hypercall_table := [(H_PUT_TERM_CHAR, FN_h_get_term_char)]\<rparr>"]
  by (simp add: qemu_booted_def)

end
