(* ===== verification/VtySystem.thy ===== *)
theory VtySystem
  imports VtyMachine
begin

text \<open>
  What the whole device promises, and that the machine keeps the promise.

  The promise is the design of the repository read as a program of its own: a registry
  of terminals, each an address with a bounded queue (\<open>vty_spec\<close> of \<open>VtyQueue\<close>), the
  three ways to find a terminal (\<open>lookup\<close>, \<open>select_default\<close>,
  \<open>resolve_guest_address\<close>), and the three operations on it (\<open>spec_deliver\<close>,
  \<open>spec_write\<close>, \<open>spec_read\<close>). Nothing here is taken from the C code:
  \<open>select_default\<close> is the first terminal that holds the least address, not a loop with
  a candidate, and a read pads what it dequeued, with no buffer and no \<^verbatim>\<open>memset\<close>.

  \<open>spapr_abs\<close> reads a machine as a registry: the VTYs of the bus in bus order, each as
  its \<open>reg\<close> and the queue \<open>vty_abs\<close> sees in it. \<open>abs_event\<close> and \<open>abs_response\<close>
  read an event of \<open>spapr_step\<close> as a request of the design and its response as a
  reply. The lemmas say that \<open>spapr_abs\<close> commutes with lookup and with each kind of
  step on a well-formed machine that has only VTYs on its bus; on a bus with other
  devices the C code can take one of them for a VTY, which the design has no word for.
\<close>

section \<open>The registry of the design\<close>

type_synonym terminal = "target_ulong \<times> vty_spec"

type_synonym registry = "terminal list"

definition lookup :: "registry \<Rightarrow> target_ulong \<Rightarrow> nat option" where
  "lookup ts a = find (\<lambda>i. fst (ts ! i) = a) [0..<length ts]"

definition select_default :: "registry \<Rightarrow> nat option" where
  "select_default ts = (if ts = [] then None else lookup ts (Min (set (map fst ts))))"

definition resolve_guest_address :: "registry \<Rightarrow> target_ulong \<Rightarrow> nat option" where
  "resolve_guest_address ts a =
     (case lookup ts a of
        Some i \<Rightarrow> Some i
      | None \<Rightarrow> if a = 0 then select_default ts else None)"

definition on_terminal :: "registry \<Rightarrow> nat \<Rightarrow> vty_spec \<Rightarrow> registry" where
  "on_terminal ts i q = ts[i := (fst (ts ! i), q)]"

section \<open>The operations of the design\<close>

datatype request =
    Deliver nat "u8 list"
  | Write target_ulong target_ulong target_ulong target_ulong
  | Read target_ulong

datatype reply =
    Delivery_done
  | Write_done hstatus
  | Read_done hstatus "(target_ulong \<times> target_ulong \<times> target_ulong) option"

definition spec_deliver :: "registry \<Rightarrow> nat \<Rightarrow> u8 list \<Rightarrow> registry result" where
  "spec_deliver ts i bs =
     bind_result (spec_enqueue (snd (ts ! i)) bs) (\<lambda>q. Inr (on_terminal ts i q))"

definition spec_write ::
  "registry \<Rightarrow> target_ulong \<Rightarrow> target_ulong \<Rightarrow> target_ulong \<Rightarrow> target_ulong \<Rightarrow> hstatus \<times> registry" where
  "spec_write ts a len w0 w1 =
     (if 16 < len then (H_PARAMETER, ts)
      else case resolve_guest_address ts a of
             None \<Rightarrow> (H_PARAMETER, ts)
           | Some i \<Rightarrow>
               (H_SUCCESS,
                on_terminal ts i (spec_write_through (snd (ts ! i)) (take (unat len) (wire_bytes w0 w1)))))"

definition spec_read ::
  "registry \<Rightarrow> target_ulong \<Rightarrow>
     hstatus \<times> (target_ulong \<times> target_ulong \<times> target_ulong) option \<times> registry" where
  "spec_read ts a =
     (case resolve_guest_address ts a of
        None \<Rightarrow> (H_PARAMETER, None, ts)
      | Some i \<Rightarrow>
          (case spec_dequeue (snd (ts ! i)) 16 of
             (bs, q) \<Rightarrow>
               (case wire_words (bs @ replicate (16 - length bs) 0) of
                  (w0, w1) \<Rightarrow> (H_SUCCESS, Some (of_nat (length bs), w0, w1), on_terminal ts i q))))"

fun spec_step :: "registry \<Rightarrow> request \<Rightarrow> (reply \<times> registry) result" where
  "spec_step ts (Deliver i bs) = bind_result (spec_deliver ts i bs) (\<lambda>ts'. Inr (Delivery_done, ts'))"
| "spec_step ts (Write a len w0 w1) =
     (case spec_write ts a len w0 w1 of (st, ts') \<Rightarrow> Inr (Write_done st, ts'))"
| "spec_step ts (Read a) = (case spec_read ts a of (st, out, ts') \<Rightarrow> Inr (Read_done st out, ts'))"

abbreviation spec_steps :: "registry \<Rightarrow> request list \<Rightarrow> (reply list \<times> registry) result" where
  "spec_steps \<equiv> run_result spec_step"

section \<open>The machine read as a registry\<close>

fun terminals :: "CharDriverState VIOsPAPRBus \<Rightarrow> CharDriverState VIOsPAPRVTYDevice list" where
  "terminals [] = []"
| "terminals (Spapr_vty dev # bus) = dev # terminals bus"
| "terminals (Spapr_other d # bus) = terminals bus"

definition term_abs :: "CharDriverState VIOsPAPRVTYDevice \<Rightarrow> terminal" where
  "term_abs dev = (reg dev, vty_abs dev)"

definition spapr_abs :: "CharDriverState sPAPREnvironment \<Rightarrow> registry" where
  "spapr_abs s = map term_abs (terminals (vio_bus s))"

fun abs_event :: "event \<Rightarrow> request" where
  "abs_event (Chr_read sdev bs) = Deliver sdev bs"
| "abs_event (Hcall_put args) = Write (args ! 0) (args ! 1) (args ! 2) (args ! 3)"
| "abs_event (Hcall_get stack args) = Read (args ! 0)"

fun abs_response :: "response \<Rightarrow> reply" where
  "abs_response Delivered = Delivery_done"
| "abs_response (Put_done st) = Write_done st"
| "abs_response (Get_done st args') =
     Read_done st (case st of H_SUCCESS \<Rightarrow> Some (args' ! 0, args' ! 1, args' ! 2) | H_PARAMETER \<Rightarrow> None)"

fun event_wf :: "event \<Rightarrow> bool" where
  "event_wf (Hcall_get stack args) = (3 \<le> length args)"
| "event_wf e = True"

definition abs_step :: "(response \<times> CharDriverState sPAPREnvironment) result \<Rightarrow> (reply \<times> registry) result" where
  "abs_step r = map_sum id (map_prod abs_response spapr_abs) r"

definition abs_run :: "(response list \<times> CharDriverState sPAPREnvironment) result \<Rightarrow> (reply list \<times> registry) result" where
  "abs_run r = map_sum id (map_prod (map abs_response) spapr_abs) r"

section \<open>Terminals of a bus of VTYs\<close>

lemma terminals_vtys:
  "list_all is_vty bus \<Longrightarrow> map Spapr_vty (terminals bus) = bus"
  by (induction bus rule: terminals.induct) simp_all

lemma terminals_length: "list_all is_vty bus \<Longrightarrow> length (terminals bus) = length bus"
  using terminals_vtys [of bus] by (metis length_map)

lemma terminals_nth:
  assumes "list_all is_vty bus" and "i < length bus"
  shows "bus ! i = Spapr_vty (terminals bus ! i)"
proof -
  from assms have "map Spapr_vty (terminals bus) ! i = Spapr_vty (terminals bus ! i)"
    by (simp add: terminals_length)
  with assms show ?thesis
    by (simp add: terminals_vtys)
qed

lemma terminals_update:
  assumes "list_all is_vty bus"
  shows "terminals (bus[i := Spapr_vty dev]) = (terminals bus)[i := dev]"
  using assms
proof (induction bus arbitrary: i rule: terminals.induct)
  case (2 d bus)
  then show ?case by (cases i) simp_all
qed simp_all

lemma spapr_abs_length [simp]: "vtys_only s \<Longrightarrow> length (spapr_abs s) = length (vio_bus s)"
  by (simp add: spapr_abs_def vtys_only_def terminals_length)

lemma spapr_abs_nth:
  assumes "vtys_only s" and "i < length (vio_bus s)" and "vio_bus s ! i = Spapr_vty dev"
  shows "spapr_abs s ! i = (reg dev, vty_abs dev)"
  using assms terminals_nth [of "vio_bus s" i]
  by (simp add: spapr_abs_def vtys_only_def terminals_length term_abs_def)

lemma spapr_abs_fst:
  assumes "vtys_only s" and "i < length (vio_bus s)"
  shows "fst (spapr_abs s ! i) = dev_reg (vio_bus s ! i)"
proof -
  from assms obtain dev where "vio_bus s ! i = Spapr_vty dev"
    by (auto dest: vtys_only_nth)
  with assms show ?thesis
    by (simp add: spapr_abs_nth)
qed

lemma spapr_abs_store:
  assumes "vtys_only s" and "i < length (vio_bus s)" and "vio_bus s ! i = Spapr_vty dev"
    and "reg dev' = reg dev"
  shows "spapr_abs (store_vty s i dev') = on_terminal (spapr_abs s) i (vty_abs dev')"
proof -
  from assms(1-3) have "fst (spapr_abs s ! i) = reg dev"
    by (simp add: spapr_abs_nth)
  moreover from assms(1) have "spapr_abs (store_vty s i dev') = (spapr_abs s)[i := term_abs dev']"
    by (simp add: spapr_abs_def vtys_only_def terminals_update map_update)
  ultimately show ?thesis
    using assms(4) by (simp add: on_terminal_def term_abs_def)
qed

section \<open>Lookup\<close>

lemma lookup_abs:
  assumes "vtys_only s"
  shows "lookup (spapr_abs s) a = spapr_vio_find_by_reg (vio_bus s) a"
proof -
  have "find (\<lambda>i. fst (spapr_abs s ! i) = a) [0..<length (vio_bus s)] =
      find (\<lambda>i. dev_reg (vio_bus s ! i) = a) [0..<length (vio_bus s)]"
    using assms by (intro find_cong) (simp_all add: spapr_abs_fst)
  with assms show ?thesis
    by (simp add: lookup_def spapr_vio_find_by_reg_def)
qed

lemma map_fst_spapr_abs: "vtys_only s \<Longrightarrow> map fst (spapr_abs s) = map dev_reg (vio_bus s)"
  by (auto intro: nth_equalityI simp: spapr_abs_fst)

lemma select_default_abs:
  assumes "vtys_only s"
  shows "select_default (spapr_abs s) = spapr_vty_get_default (vio_bus s)"
proof (cases "spapr_vty_get_default (vio_bus s)")
  case None
  with assms have "vio_bus s = []"
    by (cases "vio_bus s") (auto simp: spapr_vty_get_default_None_iff vtys_only_def)
  with None show ?thesis
    by (simp add: select_default_def spapr_abs_def)
next
  case (Some i)
  note sel = spapr_vty_get_default_Some [OF Some]
  let ?regs = "map dev_reg (vio_bus s)"
  from assms have vty: "is_vty (vio_bus s ! j)" if "j < length (vio_bus s)" for j
    using that by (simp add: vtys_only_def list_all_length)
  have "Min (set ?regs) = dev_reg (vio_bus s ! i)"
  proof (rule Min_eqI)
    show "dev_reg (vio_bus s ! i) \<in> set ?regs"
      using sel(1) by simp
    show "dev_reg (vio_bus s ! i) \<le> y" if "y \<in> set ?regs" for y
      using that sel(3) vty by (auto simp: in_set_conv_nth)
  qed simp
  moreover have "spapr_vio_find_by_reg (vio_bus s) (dev_reg (vio_bus s ! i)) = Some i"
    using sel(1,4) vty by (fastforce simp: spapr_vio_find_by_reg_Some)
  moreover from sel(1) assms have "spapr_abs s \<noteq> []"
    by (auto simp: spapr_abs_length [symmetric] simp del: spapr_abs_length)
  ultimately show ?thesis
    using assms Some by (simp add: select_default_def lookup_abs map_fst_spapr_abs)
qed

lemma resolve_guest_address_abs:
  "vtys_only s \<Longrightarrow> resolve_guest_address (spapr_abs s) a = vty_lookup s a"
  by (simp add: resolve_guest_address_def vty_lookup_def lookup_abs select_default_abs
      split: option.splits)


section \<open>Steps\<close>

lemma abs_step_simps [simp]:
  "abs_step (Inl f) = Inl f" "abs_step (Inr (r, s)) = Inr (abs_response r, spapr_abs s)"
  by (simp_all add: abs_step_def)

lemma chr_read_abs:
  assumes "spapr_inv s" and "vtys_only s" and "sdev < length (vio_bus s)"
  shows "abs_step (spapr_step s (Chr_read sdev bs)) = spec_step (spapr_abs s) (Deliver sdev bs)"
proof -
  from assms obtain dev where dev: "vio_bus s ! sdev = Spapr_vty dev"
    by (auto dest: vtys_only_nth)
  with assms have inv: "vty_inv dev"
    by (auto dest: spapr_inv_nth simp: vty_ready_def)
  note abs = vty_receive_abs [OF inv, of bs] and nth = spapr_abs_nth [OF assms(2,3) dev]
  show ?thesis
  proof (cases "vty_receive dev bs")
    case (Inl f)
    with abs have "spec_enqueue (vty_abs dev) bs = Inl f"
      by simp
    with Inl dev nth show ?thesis
      by (simp add: spec_deliver_def)
  next
    case (Inr dev')
    with abs have "spec_enqueue (vty_abs dev) bs = Inr (vty_abs dev')"
      by simp
    moreover from Inr have "reg dev' = reg dev"
      by (auto dest: vty_receive_frame)
    with assms dev have "spapr_abs (store_vty s sdev dev') = on_terminal (spapr_abs s) sdev (vty_abs dev')"
      by (intro spapr_abs_store)
    ultimately show ?thesis
      using Inr dev nth by (simp add: spec_deliver_def)
  qed
qed

lemma hcall_put_abs:
  assumes "spapr_inv s" and "vtys_only s"
  shows "abs_step (spapr_step s (Hcall_put args)) =
           spec_step (spapr_abs s) (Write (args ! 0) (args ! 1) (args ! 2) (args ! 3))"
proof (cases "16 < args ! 1")
  case True
  then show ?thesis
    by (simp add: h_put_term_char_too_long spec_write_def)
next
  case len: False
  show ?thesis
  proof (cases "vty_lookup s (args ! 0)")
    case None
    with assms len show ?thesis
      by (simp add: h_put_term_char_unresolved spec_write_def resolve_guest_address_abs)
  next
    case (Some sdev)
    then have bound: "sdev < length (vio_bus s)"
      by (rule vty_lookup_bound)
    with assms obtain dev where dev: "vio_bus s ! sdev = Spapr_vty dev"
      by (auto dest: vtys_only_nth)
    from assms(1) bound dev have "vty_ready dev"
      by (rule spapr_inv_nth)
    then obtain chr where chr: "chardev dev = Some chr"
      by (auto simp: vty_ready_def)
    let ?b = "wire_bytes (args ! 2) (args ! 3)"
    let ?dev' = "dev\<lparr>chardev := Some (qemu_chr_fe_write chr ?b (uint (args ! 1)))\<rparr>"
    from chr have put: "vty_putchars dev ?b (uint (args ! 1)) = Inr ?dev'"
      by (rule vty_putchars_Some)
    with vty_putchars_abs [of dev ?b "uint (args ! 1)"] chr
    have "vty_abs ?dev' = spec_write_through (vty_abs dev) (take (unat (args ! 1)) ?b)"
      by simp
    moreover from assms(2) bound dev
    have "spapr_abs (store_vty s sdev ?dev') = on_terminal (spapr_abs s) sdev (vty_abs ?dev')"
      by (intro spapr_abs_store) simp_all
    ultimately show ?thesis
      using assms(2) len Some dev bound put
      by (simp add: h_put_term_char_vty spec_write_def resolve_guest_address_abs spapr_abs_nth)
  qed
qed

lemma hcall_get_abs:
  assumes "spapr_inv s" and "vtys_only s" and "length stack = 16" and "3 \<le> length args"
  shows "abs_step (spapr_step s (Hcall_get stack args)) = spec_step (spapr_abs s) (Read (args ! 0))"
proof (cases "vty_lookup s (args ! 0)")
  case None
  with assms show ?thesis
    by (simp add: h_get_term_char_unresolved spec_read_def resolve_guest_address_abs)
next
  case (Some sdev)
  then have bound: "sdev < length (vio_bus s)"
    by (rule vty_lookup_bound)
  with assms obtain dev where dev: "vio_bus s ! sdev = Spapr_vty dev"
    by (auto dest: vtys_only_nth)
  let ?dev' = "fst (vty_getchars dev stack 16)"
  from assms(3) have "min 16 (vty_count dev) \<le> length stack"
    by simp
  from vty_getchars_abs [OF this]
  have deq: "spec_dequeue (vty_abs dev) 16 = (take 16 (vty_queue dev), vty_abs ?dev')"
    by (simp add: case_prod_beta spec_dequeue_def vty_abs_def)
  from assms(2) bound dev
  have "spapr_abs (store_vty s sdev ?dev') = on_terminal (spapr_abs s) sdev (vty_abs ?dev')"
    by (intro spapr_abs_store) simp_all
  moreover have "min (vty_count dev) 16 = min 16 (vty_count dev)"
    by simp
  moreover from assms(4) have "args \<noteq> []"
    by auto
  ultimately show ?thesis
    using assms Some dev bound deq
    by (simp add: h_get_term_char_vty spec_read_def resolve_guest_address_abs spapr_abs_nth
        split: prod.splits)
qed

lemma spapr_step_abs:
  assumes "spapr_inv s" and "vtys_only s" and "allowed s e" and "event_wf e"
  shows "abs_step (spapr_step s e) = spec_step (spapr_abs s) (abs_event e)"
  using assms by (cases e) (simp_all add: chr_read_abs hcall_put_abs hcall_get_abs del: spapr_step.simps spec_step.simps)


section \<open>Runs\<close>

lemma abs_run_simps [simp]:
  "abs_run (Inl f) = Inl f" "abs_run (Inr (rs, s)) = Inr (map abs_response rs, spapr_abs s)"
  by (simp_all add: abs_run_def)

lemma spapr_abs_wrap [simp]:
  "spapr_abs spapr_wrap = [(0x30000000, \<lparr>pending = [], notifies = 0, sink = []\<rparr>)]"
proof -
  have "reg vty_near_wrap = 0x30000000"
    by (simp add: vty_near_wrap_def)
  then show ?thesis
    by (simp add: spapr_abs_def term_abs_def)
qed

section \<open>Properties of the system\<close>

text \<open>
  C10. The machine implements the design: on a well-formed machine with only VTYs on its
  bus, a sequence of deliveries, writes and reads that are allowed when their turn comes
  gives, read through \<open>spapr_abs\<close>, the replies and the final registry that the design
  gives for the same requests, selection by address and the fallback for address 0
  included.
\<close>

theorem spapr_run_refines:
  assumes "spapr_inv s" and "vtys_only s" and "run_allowed s es" and "list_all event_wf es"
  shows "abs_run (spapr_run s es) = spec_steps (spapr_abs s) (map abs_event es)"
  unfolding abs_run_def
proof (rule run_result_refines
    [where I = "\<lambda>s. spapr_inv s \<and> vtys_only s" and P = "\<lambda>s e. allowed s e \<and> event_wf e"])
  from assms(3,4) show "run_ok (\<lambda>s e. allowed s e \<and> event_wf e) spapr_step s es"
    by (intro run_ok_conj run_ok_list_all)
  show "spapr_inv s' \<and> vtys_only s'"
    if "spapr_inv s \<and> vtys_only s" and "allowed s e \<and> event_wf e" and "spapr_step s e = Inr (r, s')"
    for s e r s'
    using that by (auto dest: spapr_step_inv same_shape_all_vty simp: vtys_only_def)
  show "map_sum id (map_prod abs_response spapr_abs) (spapr_step s e) =
      spec_step (spapr_abs s) (abs_event e)"
    if "spapr_inv s \<and> vtys_only s" and "allowed s e \<and> event_wf e" for s e
    using that spapr_step_abs [of s e] by (simp add: abs_step_def)
qed (simp add: assms)

theorem spapr_run_refines_witness:
  "abs_run (spapr_run spapr_wrap
      [Hcall_put [0, 2, 0x4849000000000000, 0], Hcall_get (replicate 16 0) [0, 0, 0]]) =
   Inr ([Write_done H_SUCCESS, Read_done H_SUCCESS (Some (0, 0, 0))],
        [(0x30000000, \<lparr>pending = [], notifies = 0, sink = [[0x48, 0x49]]\<rparr>)])"
proof -
  let ?es = "[Hcall_put [0, 2, 0x4849000000000000, 0], Hcall_get (replicate 16 0) [0, 0, 0]]"
  have "abs_run (spapr_run spapr_wrap ?es) = spec_steps (spapr_abs spapr_wrap) (map abs_event ?es)"
    by (rule spapr_run_refines) (simp_all split: sum.splits)
  also have "\<dots> = Inr ([Write_done H_SUCCESS, Read_done H_SUCCESS (Some (0, 0, 0))],
      [(0x30000000, \<lparr>pending = [], notifies = 0, sink = [[0x48, 0x49]]\<rparr>)])"
    by (simp add: spec_write_def spec_read_def resolve_guest_address_def lookup_def
        select_default_def on_terminal_def spec_write_through_def spec_dequeue_def
        wire_bytes_def cpu_to_be64_explicit drop_bit_eq_div)
  finally show ?thesis .
qed

end
