(* ===== verification/VtyPointers.thy ===== *)
theory VtyPointers
  imports VtyQom
begin

text \<open>
  The device, the bus and the machine are polymorphic in what a \<^verbatim>\<open>CharDriverState *\<close>
  stands for. This theory holds the map over that parameter, \<open>map_chardev\<close>, \<open>map_child\<close>
  and \<open>map_env\<close>, and shows that the functions which never follow the pointer commute with
  it: the ring, the lookup, \<open>h_get_term_char\<close> and the delivery of host input. It also
  holds the pointers of a bus and the device that owns one, with the lemmas on buses
  whose pointers are distinct. Theory \<open>VtyStore\<close> uses both to compare the machine on
  memory with the machine on values.
\<close>

section \<open>Reading a bus through its pointers\<close>

text \<open>
  \<open>map_chardev f\<close> replaces the pointer of a device by what \<open>f\<close> gives for it; a pointer
  for which \<open>f\<close> gives nothing becomes the null pointer. \<open>pointers\<close> lists the pointers the
  devices of a bus hold, in bus order, and \<open>owner\<close> is the first device that holds a given
  pointer.
\<close>

definition map_chardev :: "('a \<Rightarrow> 'b option) \<Rightarrow> 'a VIOsPAPRVTYDevice \<Rightarrow> 'b VIOsPAPRVTYDevice" where
  "map_chardev f dev =
     \<lparr>reg = reg dev, qirq = qirq dev, chardev = Option.bind (chardev dev) f,
      vin = vin dev, vout = vout dev, buf = buf dev\<rparr>"

fun map_child :: "('a \<Rightarrow> 'b option) \<Rightarrow> 'a DeviceState \<Rightarrow> 'b DeviceState" where
  "map_child f (Spapr_vty dev) = Spapr_vty (map_chardev f dev)"
| "map_child f (Spapr_other sdev) = Spapr_other sdev"

definition map_env :: "('a \<Rightarrow> 'b option) \<Rightarrow> 'a sPAPREnvironment \<Rightarrow> 'b sPAPREnvironment" where
  "map_env f s = \<lparr>vio_bus = map (map_child f) (vio_bus s)\<rparr>"

fun chardev_of :: "'chr DeviceState \<Rightarrow> 'chr option" where
  "chardev_of (Spapr_vty dev) = chardev dev"
| "chardev_of (Spapr_other sdev) = None"

definition pointers :: "'chr VIOsPAPRBus \<Rightarrow> 'chr list" where
  "pointers bus = List.map_filter chardev_of bus"

definition owner :: "'chr VIOsPAPRBus \<Rightarrow> 'chr \<Rightarrow> nat option" where
  "owner bus p = find (\<lambda>i. chardev_of (bus ! i) = Some p) [0..<length bus]"

section \<open>The ring does not look at the backend\<close>

lemma map_chardev_sel [simp]:
  "reg (map_chardev f dev) = reg dev" "qirq (map_chardev f dev) = qirq dev"
  "chardev (map_chardev f dev) = Option.bind (chardev dev) f"
  "vin (map_chardev f dev) = vin dev" "vout (map_chardev f dev) = vout dev"
  "buf (map_chardev f dev) = buf dev"
  by (simp_all add: map_chardev_def)

lemma map_chardev_update [simp]:
  "map_chardev f (dev\<lparr>vin := a\<rparr>) = (map_chardev f dev)\<lparr>vin := a\<rparr>"
  "map_chardev f (dev\<lparr>vout := b\<rparr>) = (map_chardev f dev)\<lparr>vout := b\<rparr>"
  "map_chardev f (dev\<lparr>buf := c\<rparr>) = (map_chardev f dev)\<lparr>buf := c\<rparr>"
  "map_chardev f (dev\<lparr>qirq := d\<rparr>) = (map_chardev f dev)\<lparr>qirq := d\<rparr>"
  by (simp_all add: map_chardev_def)

lemma ring_put_map [simp]: "ring_put (map_chardev f dev) b = map_chardev f (ring_put dev b)"
  by (simp add: ring_put_def)

lemma vty_receive_loop_map:
  "vty_receive_loop (map_chardev f dev) bs = map_sum id (map_chardev f) (vty_receive_loop dev bs)"
  by (induction bs arbitrary: dev) simp_all

lemma vty_receive_map:
  "vty_receive (map_chardev f dev) bs = map_sum id (map_chardev f) (vty_receive dev bs)"
  by (simp add: vty_receive_def qemu_irq_pulse_def vty_receive_loop_map [symmetric])

lemma vty_can_receive_map [simp]: "vty_can_receive (map_chardev f dev) = vty_can_receive dev"
  by (simp add: vty_can_receive_def)

lemma vty_getchars_loop_map:
  "vty_getchars_loop (map_chardev f dev) obuf mx n =
     (case vty_getchars_loop dev obuf mx n of (dev', obuf', n') \<Rightarrow> (map_chardev f dev', obuf', n'))"
proof (induction dev obuf mx n rule: vty_getchars_loop.induct)
  case (1 dev obuf mx n)
  show ?case
  proof (cases "n < mx \<and> vout dev \<noteq> vin dev")
    case True
    with 1 [OF True, of "fst (ring_get dev)" "snd (ring_get dev)"] show ?thesis
      by (simp add: vty_getchars_loop.simps [of dev] vty_getchars_loop.simps [of "map_chardev f dev"]
          ring_get_def)
  next
    case False
    then have "vty_getchars_loop dev obuf mx n = (dev, obuf, n)"
      and "vty_getchars_loop (map_chardev f dev) obuf mx n = (map_chardev f dev, obuf, n)"
      by (auto simp: vty_getchars_loop.simps [of dev] vty_getchars_loop.simps [of "map_chardev f dev"])
    then show ?thesis
      by simp
  qed
qed

lemma vty_getchars_map:
  "vty_getchars (map_chardev f dev) obuf mx =
     (case vty_getchars dev obuf mx of (dev', obuf', n) \<Rightarrow> (map_chardev f dev', obuf', n))"
  by (simp add: vty_getchars_def vty_getchars_loop_map)

section \<open>Lookup and the handlers that do not use the backend\<close>

lemma map_child_sel [simp]:
  "dev_reg (map_child f c) = dev_reg c" "is_vty (map_child f c) = is_vty c"
  by (cases c; simp)+

lemma vio_bus_map_env [simp]: "vio_bus (map_env f s) = map (map_child f) (vio_bus s)"
  by (simp add: map_env_def)

lemma same_shape_map_env: "same_shape (vio_bus s) (vio_bus (map_env f s))"
  by (simp add: same_shape_def comp_def)

lemma vty_lookup_map_env [simp]: "vty_lookup (map_env f s) r = vty_lookup s r"
  using same_shape_map_env by (rule vty_lookup_same_shape)

lemma store_vty_map_env:
  "store_vty (map_env f s) i (map_chardev f dev) = map_env f (store_vty s i dev)"
  by (simp add: store_vty_def map_env_def map_update)

lemma map_result_bind:
  "map_sum id g (bind_result r k) = bind_result r (\<lambda>x. map_sum id g (k x))"
  by (cases r) simp_all

lemma bind_map_result:
  "bind_result (map_sum id g r) k = bind_result r (\<lambda>x. k (g x))"
  by (cases r) simp_all

lemma h_get_term_char_map_env:
  "h_get_term_char (map_env f s) stack args =
     map_sum id (map_prod id (map_prod id (map_env f))) (h_get_term_char s stack args)"
proof (cases "vty_lookup s (args ! 0)")
  case None
  then show ?thesis
    by (simp add: h_get_term_char_def)
next
  case (Some sdev)
  then have "sdev < length (vio_bus s)"
    by (rule vty_lookup_bound)
  with Some show ?thesis
    by (cases "vio_bus s ! sdev")
       (simp_all add: h_get_term_char_def vty_getchars_map store_vty_map_env [symmetric]
          case_prod_beta Let_def)
qed

lemma opaque_vty_map_env:
  "opaque_vty (map_env f s) opaque = map_sum id (map_prod id (map_chardev f)) (opaque_vty s opaque)"
proof (cases opaque)
  case None
  then show ?thesis by (simp add: opaque_vty_def)
next
  case (Some sdev)
  then show ?thesis
    by (cases "vio_bus s ! sdev") (simp_all add: opaque_vty_def)
qed

lemma call_can_read_map [simp]: "call_can_read fn (map_chardev f dev) = call_can_read fn dev"
  by (cases fn) (simp_all add: call_can_read_def)

lemma call_read_map:
  "call_read fn (map_chardev f dev) bs = map_sum id (map_chardev f) (call_read fn dev bs)"
  by (cases fn) (simp_all add: call_read_def vty_receive_map)

lemma qemu_chr_deliver_map_env:
  "qemu_chr_deliver (map_env f s) chr bs =
     map_sum id (map_prod id (map_env f)) (qemu_chr_deliver s chr bs)"
proof (cases "chr_can_read chr")
  case None
  then show ?thesis by (simp add: qemu_chr_deliver_def)
next
  case can: (Some can_read)
  show ?thesis
  proof (cases "chr_read chr")
    case None
    with can show ?thesis by (simp add: qemu_chr_deliver_def)
  next
    case (Some rd)
    with can show ?thesis
      by (simp add: qemu_chr_deliver_def opaque_vty_map_env bind_map_result map_result_bind
          call_read_map store_vty_map_env case_prod_beta Let_def
          if_distrib [of "map_sum id (map_prod id (map_env f))"] cong: if_cong)
  qed
qed

section \<open>One owner for each backend\<close>

lemma pointers_Nil [simp]: "pointers [] = []"
  by (simp add: pointers_def map_filter_simps)

lemma pointers_Cons:
  "pointers (c # bus) = (case chardev_of c of None \<Rightarrow> pointers bus | Some p \<Rightarrow> p # pointers bus)"
  by (simp add: pointers_def map_filter_simps split: option.splits)

lemma pointers_append [simp]: "pointers (bus @ bus') = pointers bus @ pointers bus'"
  by (simp add: pointers_def map_filter_def)

lemma set_pointers: "set (pointers bus) = {p. \<exists>c\<in>set bus. chardev_of c = Some p}"
  by (induction bus) (auto simp: pointers_Cons split: option.splits)

lemma pointers_nth: "i < length bus \<Longrightarrow> chardev_of (bus ! i) = Some p \<Longrightarrow> p \<in> set (pointers bus)"
  by (auto simp: set_pointers)

lemma pointers_map: "pointers bus = map the (filter (\<lambda>x. x \<noteq> None) (map chardev_of bus))"
  by (simp add: pointers_def map_filter_def filter_map comp_def)

lemma pointers_cong: "map chardev_of bus' = map chardev_of bus \<Longrightarrow> pointers bus' = pointers bus"
  by (simp add: pointers_map)

lemma owner_unique:
  assumes "distinct (pointers bus)" and "i < length bus" and "j < length bus"
    and "chardev_of (bus ! i) = Some p" and "chardev_of (bus ! j) = Some p"
  shows "i = j"
  using assms
proof (induction bus arbitrary: i j)
  case Nil
  then show ?case by simp
next
  case (Cons c bus)
  then show ?case
    by (cases i; cases j) (auto simp: pointers_Cons dest: pointers_nth split: option.splits)
qed

lemma owner_Some:
  "owner bus p = Some i \<Longrightarrow> i < length bus \<and> chardev_of (bus ! i) = Some p"
  by (auto simp: owner_def find_Some_iff)

lemma owner_cong: "map chardev_of bus' = map chardev_of bus \<Longrightarrow> owner bus' p = owner bus p"
proof -
  assume eq: "map chardev_of bus' = map chardev_of bus"
  then have len: "length bus' = length bus"
    by (rule map_eq_imp_length_eq)
  have "chardev_of (bus' ! i) = chardev_of (bus ! i)" if "i < length bus" for i
    using that eq len by (metis nth_map)
  with len show ?thesis
    by (auto simp: owner_def intro: find_cong)
qed

lemma chardev_of_vty: "chardev_of c = Some p \<Longrightarrow> \<exists>dev. c = Spapr_vty dev \<and> chardev dev = Some p"
  by (cases c) simp_all

lemma map_child_update_other:
  "chardev_of c \<noteq> Some p \<Longrightarrow> map_child (f(p \<mapsto> x)) c = map_child f c"
  by (cases c) (auto simp: map_chardev_def split: Option.bind_split)

lemma map_child_fresh:
  assumes "p \<notin> set (pointers bus)"
  shows "map (map_child (f(p \<mapsto> c))) bus = map (map_child f) bus"
  using assms by (auto simp: set_pointers map_child_update_other)

lemma map_env_update:
  assumes "distinct (pointers (vio_bus s))" and "i < length (vio_bus s)"
    and "vio_bus s ! i = Spapr_vty dev" and "chardev dev = Some p"
  shows "map_env (f(p \<mapsto> c)) s = store_vty (map_env f s) i ((map_chardev f dev)\<lparr>chardev := Some c\<rparr>)"
proof -
  have "map_child (f(p \<mapsto> c)) (vio_bus s ! j) =
      (map (map_child f) (vio_bus s))[i := Spapr_vty ((map_chardev f dev)\<lparr>chardev := Some c\<rparr>)] ! j"
    if "j < length (vio_bus s)" for j
  proof (cases "j = i")
    case True
    with assms show ?thesis
      by (simp add: map_chardev_def)
  next
    case False
    with assms that have "chardev_of (vio_bus s ! j) \<noteq> Some p"
      by (auto dest: owner_unique [of "vio_bus s" j i p])
    with False that show ?thesis
      by (simp add: map_child_update_other)
  qed
  then show ?thesis
    by (auto simp: map_env_def store_vty_def intro: nth_equalityI)
qed

section \<open>Functions that keep the pointers\<close>

lemma chardev_of_update:
  "i < length bus \<Longrightarrow> chardev_of (bus ! i) = chardev dev' \<Longrightarrow>
     map chardev_of (bus[i := Spapr_vty dev']) = map chardev_of bus"
  by (simp add: map_update list_update_same_conv)

lemma h_get_term_char_pointers:
  assumes "h_get_term_char s stack args = Inr (st, args', s')"
  shows "map chardev_of (vio_bus s') = map chardev_of (vio_bus s)"
  using assms
proof (cases rule: h_get_term_char_cases)
  case parameter
  then show ?thesis by simp
next
  case (success sdev dev)
  then show ?thesis
    by (simp add: chardev_of_update vty_lookup_bound)
qed

lemma vty_receive_chardev: "vty_receive dev bs = Inr dev' \<Longrightarrow> chardev dev' = chardev dev"
  by (auto simp: vty_receive_def qemu_irq_pulse_def dest: vty_receive_loop_frame split: if_splits)

lemma opaque_vty_Inr:
  "opaque_vty s opaque = Inr (sdev, dev) \<Longrightarrow>
     opaque = Some sdev \<and> sdev < length (vio_bus s) \<and> vio_bus s ! sdev = Spapr_vty dev"
  by (auto simp: opaque_vty_def split: option.splits if_splits DeviceState.splits)

lemma call_read_Inr: "call_read fn dev bs = Inr dev' \<Longrightarrow> vty_receive dev bs = Inr dev'"
  by (cases fn) (simp_all add: call_read_def)

lemma qemu_chr_deliver_cases:
  assumes "qemu_chr_deliver s chr bs = Inr (n, s')"
  obtains (idle) "n = 0" and "s' = s"
    | (taken) sdev dev dev' where "handler_opaque chr = Some sdev" and "sdev < length (vio_bus s)"
        and "vio_bus s ! sdev = Spapr_vty dev" and "vty_receive dev (take n bs) = Inr dev'"
        and "s' = store_vty s sdev dev'"
proof (cases "chr_can_read chr = None \<or> chr_read chr = None")
  case True
  with assms idle show ?thesis
    by (auto simp: qemu_chr_deliver_def split: option.splits)
next
  case False
  then obtain can_read rd where "chr_can_read chr = Some can_read" and "chr_read chr = Some rd"
    by auto
  with assms obtain sdev dev k where op: "opaque_vty s (handler_opaque chr) = Inr (sdev, dev)"
    and rest: "(let input = take (nat k) bs in
          if input = [] then Inr (0, s)
          else bind_result (call_read rd dev input) (\<lambda>dev'. Inr (length input, store_vty s sdev dev')))
        = Inr (n, s')"
    by (auto simp: qemu_chr_deliver_def bind_result_eq_Inr_iff)
  show ?thesis
  proof (cases "take (nat k) bs = []")
    case True
    with rest idle show ?thesis
      by simp
  next
    case False
    with rest obtain dev' where "call_read rd dev (take (nat k) bs) = Inr dev'"
      and "n = length (take (nat k) bs)" and "s' = store_vty s sdev dev'"
      by (auto simp: bind_result_eq_Inr_iff)
    with op taken [of sdev dev dev'] show ?thesis
      by (auto dest!: opaque_vty_Inr call_read_Inr simp: min_def split: if_splits)
  qed
qed

lemma qemu_chr_deliver_pointers:
  assumes "qemu_chr_deliver s chr bs = Inr (n, s')"
  shows "map chardev_of (vio_bus s') = map chardev_of (vio_bus s)"
  using assms
proof (cases rule: qemu_chr_deliver_cases)
  case idle
  then show ?thesis by simp
next
  case (taken sdev dev dev')
  then show ?thesis
    by (simp add: chardev_of_update vty_receive_chardev)
qed

end
