(* ===== verification/VtyStore.thy ===== *)
theory VtyStore
  imports VtyPointers
begin

text \<open>
  The device of \<^verbatim>\<open>hw/spapr_vty.c\<close> with its backend behind a pointer. In the C struct
  \<^verbatim>\<open>chardev\<close> is a \<^verbatim>\<open>CharDriverState *\<close>, and nothing in the file keeps two devices from
  holding the same pointer. The theories before this one keep the backend inside the
  device, which is the same thing as long as no backend is shared. Here the backends live
  in a store, a device holds an address, and the four functions of the file that go
  through the pointer (\<open>vty_putchars\<close>, \<open>spapr_vty_init\<close>, and with them
  \<open>h_put_term_char\<close> and \<open>spapr_vty_create\<close>) are modelled again on this memory; the
  ring, the lookup and \<open>h_get_term_char\<close> are the polymorphic functions of the earlier
  theories at the type of addresses.

  The lemmas show that reading the memory through its pointers (\<open>deref\<close>) maps every
  operation on memory to the operation on values as long as the memory is \<open>unshared\<close>,
  that creation on fresh addresses and every step keep it unshared, and what happens when
  it is not: the backend calls back the terminal initialised last. They also show what the
  host is sent: the log of each backend after a run (\<open>written\<close>) is the writes of the
  hypercalls of the run whose terminal holds that backend, in the order of the run.
\<close>

section \<open>Memory\<close>

text \<open>
  A \<^verbatim>\<open>CharDriverState *\<close> is an address; \<open>m_chr\<close> is the store of the backends and
  \<open>m_spapr\<close> the machine whose devices hold addresses. An address without a backend is a
  wild pointer, and to follow it is a fault.
\<close>

type_synonym chr_ptr = nat

record Memory =
  m_spapr :: "chr_ptr sPAPREnvironment"
  m_chr :: "chr_ptr \<Rightarrow> CharDriverState option"

definition chr_at :: "Memory \<Rightarrow> chr_ptr \<Rightarrow> CharDriverState result" where
  "chr_at m p = (case m_chr m p of None \<Rightarrow> Inl Wild_pointer | Some chr \<Rightarrow> Inr chr)"

definition chr_store :: "Memory \<Rightarrow> chr_ptr \<Rightarrow> CharDriverState \<Rightarrow> Memory" where
  "chr_store m p chr = m\<lparr>m_chr := (m_chr m)(p \<mapsto> chr)\<rparr>"

section \<open>The functions that use the backend, on memory\<close>

text \<open>
  \<open>vty_putchars\<close> (lines 49-55) and \<open>spapr_vty_init\<close> (lines 57-70) with \<^verbatim>\<open>dev->chardev\<close>
  as a pointer: the write and the registration of the handlers change the backend in the
  store, not the device. \<open>sdev\<close> is the position of the device on the bus, which the
  backend keeps as \<^verbatim>\<open>opaque\<close>.
\<close>

definition vty_putchars_ptr ::
  "Memory \<Rightarrow> chr_ptr VIOsPAPRVTYDevice \<Rightarrow> u8 list \<Rightarrow> int \<Rightarrow> Memory result" where
  "vty_putchars_ptr m dev b len =
     (case chardev dev of
        None \<Rightarrow> Inl Null_chardev
      | Some p \<Rightarrow> bind_result (chr_at m p) (\<lambda>chr. Inr (chr_store m p (qemu_chr_fe_write chr b len))))"

definition spapr_vty_init_ptr ::
  "Memory \<Rightarrow> nat \<Rightarrow> chr_ptr VIOsPAPRVTYDevice \<Rightarrow> (Memory \<times> int) result" where
  "spapr_vty_init_ptr m sdev dev =
     (case chardev dev of
        None \<Rightarrow> Inl Exit_failure
      | Some p \<Rightarrow>
          bind_result (chr_at m p) (\<lambda>chr.
            Inr (chr_store m p (qemu_chr_add_handlers chr
                   (Some FN_vty_can_receive) (Some FN_vty_receive) None (Some sdev)), 0)))"

text \<open>
  \<open>spapr_vty_create\<close> (lines 126-133) over the same three qdev calls; the property
  \<^verbatim>\<open>chardev\<close> is set to the address it is given.
\<close>

definition qdev_init_nofail_ptr :: "Memory \<Rightarrow> nat \<Rightarrow> Memory result" where
  "qdev_init_nofail_ptr m dev =
     (case vio_bus (m_spapr m) ! dev of
        Spapr_vty d \<Rightarrow> bind_result (spapr_vty_init_ptr m dev d) (\<lambda>(m', rc). Inr m')
      | Spapr_other _ \<Rightarrow> Inr m)"

definition spapr_vty_create_ptr :: "Memory \<Rightarrow> target_ulong \<Rightarrow> chr_ptr option \<Rightarrow> Memory result" where
  "spapr_vty_create_ptr m r chr =
     (case qdev_create (vio_bus (m_spapr m)) r of
        (bus', dev) \<Rightarrow>
          qdev_init_nofail_ptr (m\<lparr>m_spapr := \<lparr>vio_bus = qdev_prop_set_chr bus' dev chr\<rparr>\<rparr>) dev)"

text \<open>
  The handlers. \<open>h_put_term_char\<close> (lines 73-98) writes through the pointer of the device
  it looked up; \<open>h_get_term_char\<close> (lines 100-124) does not touch the backend and is the
  function of theory \<open>VtyHcall\<close> on the machine of \<open>m_spapr\<close>.
\<close>

definition h_put_term_char_ptr ::
  "Memory \<Rightarrow> target_ulong list \<Rightarrow> (hstatus \<times> Memory) result" where
  "h_put_term_char_ptr m args =
     (let reg = args ! 0; len = args ! 1; char0_7 = args ! 2; char8_15 = args ! 3 in
      case vty_lookup (m_spapr m) reg of
        None \<Rightarrow> Inr (H_PARAMETER, m)
      | Some sdev \<Rightarrow>
          if len > 16 then Inr (H_PARAMETER, m)
          else
            (let b = wire_bytes char0_7 char8_15 in
             case vio_bus (m_spapr m) ! sdev of
               Spapr_other _ \<Rightarrow> Inl Bad_cast
             | Spapr_vty dev \<Rightarrow>
                 bind_result (vty_putchars_ptr m dev b (uint len)) (\<lambda>m'. Inr (H_SUCCESS, m'))))"

definition h_get_term_char_ptr ::
  "Memory \<Rightarrow> u8 list \<Rightarrow> target_ulong list \<Rightarrow> (hstatus \<times> target_ulong list \<times> Memory) result" where
  "h_get_term_char_ptr m stack args =
     bind_result (h_get_term_char (m_spapr m) stack args)
       (\<lambda>(st, args', s'). Inr (st, args', m\<lparr>m_spapr := s'\<rparr>))"

text \<open>
  Input at the backend at address \<open>p\<close>: the backend calls the handlers it holds with the
  \<^verbatim>\<open>opaque\<close> pointer it holds.
\<close>

definition chr_input :: "Memory \<Rightarrow> chr_ptr \<Rightarrow> u8 list \<Rightarrow> (nat \<times> Memory) result" where
  "chr_input m p bs =
     bind_result (chr_at m p) (\<lambda>chr.
       bind_result (qemu_chr_deliver (m_spapr m) chr bs) (\<lambda>(n, s'). Inr (n, m\<lparr>m_spapr := s'\<rparr>)))"

section \<open>The machine on memory\<close>

text \<open>
  The machine: hypercalls go through the hypercall table to the handlers on memory, as in
  \<open>qemu_step\<close>; host input names the backend it arrives at.
\<close>

definition call_hcall_ptr ::
  "fnptr \<Rightarrow> Memory \<Rightarrow> u8 list \<Rightarrow> target_ulong list \<Rightarrow>
     (target_ulong \<times> target_ulong list \<times> Memory) result" where
  "call_hcall_ptr fn m stack args =
     (case fn of
        FN_h_put_term_char \<Rightarrow>
          bind_result (h_put_term_char_ptr m args) (\<lambda>(st, m'). Inr (hstatus_code st, args, m'))
      | FN_h_get_term_char \<Rightarrow>
          bind_result (h_get_term_char_ptr m stack args)
            (\<lambda>(st, args', m'). Inr (hstatus_code st, args', m'))
      | _ \<Rightarrow> Inl Bad_call)"

definition spapr_hypercall_ptr ::
  "QemuState \<Rightarrow> Memory \<Rightarrow> u8 list \<Rightarrow> target_ulong \<Rightarrow> target_ulong list \<Rightarrow>
     (target_ulong \<times> target_ulong list \<times> Memory) result" where
  "spapr_hypercall_ptr q m stack opcode args =
     (case map_of (papr_hypercall_table q) opcode of
        None \<Rightarrow> Inr (H_FUNCTION, args, m)
      | Some fn \<Rightarrow> call_hcall_ptr fn m stack args)"

datatype mem_event =
    Mem_hcall target_ulong "u8 list" "target_ulong list"
  | Backend_input chr_ptr "u8 list"

fun mem_step :: "QemuState \<Rightarrow> Memory \<Rightarrow> mem_event \<Rightarrow> (qemu_response \<times> Memory) result" where
  "mem_step q m (Mem_hcall opcode stack args) =
     bind_result (spapr_hypercall_ptr q m stack opcode args)
       (\<lambda>(ret, args', m'). Inr (Hcall_ret ret args', m'))"
| "mem_step q m (Backend_input p bs) =
     bind_result (chr_input m p bs) (\<lambda>(n, m'). Inr (Input_taken n, m'))"

abbreviation mem_run ::
  "QemuState \<Rightarrow> Memory \<Rightarrow> mem_event list \<Rightarrow> (qemu_response list \<times> Memory) result" where
  "mem_run q \<equiv> run_result (mem_step q)"

section \<open>Memory read as a machine of values\<close>

text \<open>
  \<open>deref\<close> replaces every pointer by the backend it points to. \<open>unshared\<close>: no two
  devices hold the same address, and every address held has a backend. \<open>value_event\<close>
  names input at a backend by the device that holds the backend, if one does.
\<close>

definition deref :: "Memory \<Rightarrow> CharDriverState sPAPREnvironment" where
  "deref m = map_env (m_chr m) (m_spapr m)"

definition unshared :: "Memory \<Rightarrow> bool" where
  "unshared m \<longleftrightarrow>
     distinct (pointers (vio_bus (m_spapr m))) \<and>
     list_all (\<lambda>p. m_chr m p \<noteq> None) (pointers (vio_bus (m_spapr m)))"

fun value_event :: "Memory \<Rightarrow> mem_event \<Rightarrow> qemu_event option" where
  "value_event m (Mem_hcall opcode stack args) = Some (Guest_hcall opcode stack args)"
| "value_event m (Backend_input p bs) =
     map_option (\<lambda>sdev. Host_input sdev bs) (owner (vio_bus (m_spapr m)) p)"

definition deref_result :: "('a \<times> Memory) result \<Rightarrow> ('a \<times> CharDriverState sPAPREnvironment) result" where
  "deref_result r = map_sum id (map_prod id deref) r"

text \<open>
  \<open>mem_event_ok\<close>: the local array of \<open>h_get_term_char\<close> has its 16 bytes, and input
  arrives at a backend that a device holds. \<open>mem_inv\<close>: what every run keeps.
  \<open>built_mem\<close>: the memories that creation builds when each terminal gets a backend of
  its own.
\<close>

fun mem_event_ok :: "Memory \<Rightarrow> mem_event \<Rightarrow> bool" where
  "mem_event_ok m (Mem_hcall opcode stack args) = (length stack = 16)"
| "mem_event_ok m (Backend_input p bs) = (owner (vio_bus (m_spapr m)) p \<noteq> None)"

definition mem_inv :: "Memory \<Rightarrow> bool" where
  "mem_inv m \<longleftrightarrow> unshared m \<and> spapr_inv (deref m) \<and> spapr_bound (deref m)"

inductive built_mem :: "Memory \<Rightarrow> bool" where
  empty: "built_mem \<lparr>m_spapr = \<lparr>vio_bus = []\<rparr>, m_chr = h\<rparr>"
| other: "built_mem m \<Longrightarrow>
     built_mem (m\<lparr>m_spapr := \<lparr>vio_bus = vio_bus (m_spapr m) @ [Spapr_other d]\<rparr>\<rparr>)"
| vty: "built_mem m \<Longrightarrow> p \<notin> set (pointers (vio_bus (m_spapr m))) \<Longrightarrow>
     spapr_vty_create_ptr m r (Some p) = Inr m' \<Longrightarrow> built_mem m'"

text \<open>
  Memories to evaluate on: two unbound backends and no device; two terminals, each on its
  own backend; two terminals on the backend at address 0, as two calls of
  \<open>spapr_vty_create_ptr\<close> with that address leave them.
\<close>

definition mem_heap :: Memory where
  "mem_heap = \<lparr>m_spapr = \<lparr>vio_bus = []\<rparr>, m_chr = [0 \<mapsto> chr_unbound, 1 \<mapsto> chr_unbound]\<rparr>"

definition mem_two :: Memory where
  "mem_two =
     \<lparr>m_spapr = \<lparr>vio_bus = [Spapr_vty (vty_fresh 0x30000000 (Some 0)),
                            Spapr_vty (vty_fresh 0x30000001 (Some 1))]\<rparr>,
      m_chr = [0 \<mapsto> chr_idle 0, 1 \<mapsto> chr_idle 1]\<rparr>"

definition mem_shared :: Memory where
  "mem_shared =
     \<lparr>m_spapr = \<lparr>vio_bus = [Spapr_vty (vty_fresh 0x30000000 (Some 0)),
                            Spapr_vty (vty_fresh 0x30000001 (Some 0))]\<rparr>,
      m_chr = [0 \<mapsto> chr_idle 1, 1 \<mapsto> chr_unbound]\<rparr>"

lemmas [vty_defs] =
  chr_at_def chr_store_def vty_putchars_ptr_def spapr_vty_init_ptr_def qdev_init_nofail_ptr_def
  spapr_vty_create_ptr_def h_put_term_char_ptr_def h_get_term_char_ptr_def chr_input_def
  call_hcall_ptr_def spapr_hypercall_ptr_def

lemma unshared_valid:
  "unshared m \<Longrightarrow> i < length (vio_bus (m_spapr m)) \<Longrightarrow>
     chardev_of (vio_bus (m_spapr m) ! i) = Some p \<Longrightarrow> \<exists>chr. m_chr m p = Some chr"
  by (auto simp: unshared_def list_all_iff dest: pointers_nth)

text \<open>
  What the host has been sent. \<open>written m p\<close> is the log of the backend at \<open>p\<close>;
  \<open>h_put_written s p args\<close> is what a call of \<open>h_put_term_char\<close> with \<open>args\<close> sends to that
  backend, one write of the first \<^verbatim>\<open>len\<close> bytes when the terminal it resolves holds \<open>p\<close>, and
  \<open>put_written\<close> the same for an event of the machine, where the hypercall table says which
  opcode reaches \<open>h_put_term_char\<close>.
\<close>

definition written :: "Memory \<Rightarrow> chr_ptr \<Rightarrow> u8 list list" where
  "written m p = (case m_chr m p of None \<Rightarrow> [] | Some chr \<Rightarrow> chr_written chr)"

definition h_put_written ::
  "chr_ptr sPAPREnvironment \<Rightarrow> chr_ptr \<Rightarrow> target_ulong list \<Rightarrow> u8 list list" where
  "h_put_written s p args =
     (case vty_lookup s (args ! 0) of
        None \<Rightarrow> []
      | Some sdev \<Rightarrow>
          if args ! 1 > 16 \<or> chardev_of (vio_bus s ! sdev) \<noteq> Some p then []
          else [take (unat (args ! 1)) (wire_bytes (args ! 2) (args ! 3))])"

fun put_written :: "QemuState \<Rightarrow> Memory \<Rightarrow> chr_ptr \<Rightarrow> mem_event \<Rightarrow> u8 list list" where
  "put_written q m p (Mem_hcall opcode stack args) =
     (if map_of (papr_hypercall_table q) opcode = Some FN_h_put_term_char
      then h_put_written (m_spapr m) p args else [])"
| "put_written q m p (Backend_input p' bs) = []"

section \<open>Handlers on memory and on values\<close>

lemma deref_spapr_update [simp]: "deref (m\<lparr>m_spapr := s\<rparr>) = map_env (m_chr m) s"
  by (simp add: deref_def)

lemma deref_chr_store: "deref (chr_store m p chr) = map_env ((m_chr m)(p \<mapsto> chr)) (m_spapr m)"
  by (simp add: deref_def chr_store_def)

lemma vty_lookup_deref [simp]: "vty_lookup (deref m) r = vty_lookup (m_spapr m) r"
  by (simp add: deref_def)

lemma vio_bus_deref [simp]: "vio_bus (deref m) = map (map_child (m_chr m)) (vio_bus (m_spapr m))"
  by (simp add: deref_def)

lemma vty_putchars_ptr_deref:
  assumes "unshared m" and "i < length (vio_bus (m_spapr m))"
    and "vio_bus (m_spapr m) ! i = Spapr_vty dev"
  shows "map_sum id deref (vty_putchars_ptr m dev b len) =
           map_sum id (store_vty (deref m) i) (vty_putchars (map_chardev (m_chr m) dev) b len)"
proof (cases "chardev dev")
  case None
  then show ?thesis
    by (simp add: vty_putchars_ptr_def vty_putchars_def)
next
  case (Some p)
  with assms obtain chr where chr: "m_chr m p = Some chr"
    by (auto dest: unshared_valid)
  from assms(1) have "distinct (pointers (vio_bus (m_spapr m)))"
    by (simp add: unshared_def)
  from map_env_update [OF this assms(2,3) Some] Some chr show ?thesis
    by (simp add: vty_putchars_ptr_def vty_putchars_def chr_at_def deref_chr_store deref_def [of m])
qed

lemma h_put_term_char_ptr_deref:
  assumes "unshared m"
  shows "deref_result (h_put_term_char_ptr m args) = h_put_term_char (deref m) args"
proof (cases "vty_lookup (m_spapr m) (args ! 0)")
  case None
  then show ?thesis
    by (simp add: h_put_term_char_ptr_def h_put_term_char_def deref_result_def Let_def)
next
  case (Some sdev)
  then have bound: "sdev < length (vio_bus (m_spapr m))"
    by (rule vty_lookup_bound)
  show ?thesis
  proof (cases "vio_bus (m_spapr m) ! sdev")
    case (Spapr_other d)
    with Some bound show ?thesis
      by (simp add: h_put_term_char_ptr_def h_put_term_char_def deref_result_def Let_def)
  next
    case (Spapr_vty dev)
    from vty_putchars_ptr_deref [OF assms bound this, of "wire_bytes (args ! 2) (args ! 3)" "uint (args ! 1)"]
      Some bound Spapr_vty show ?thesis
      by (cases "vty_putchars_ptr m dev (wire_bytes (args ! 2) (args ! 3)) (uint (args ! 1))";
          cases "vty_putchars (map_chardev (m_chr m) dev) (wire_bytes (args ! 2) (args ! 3))
                   (uint (args ! 1))")
         (simp_all add: h_put_term_char_ptr_def h_put_term_char_def deref_result_def Let_def)
  qed
qed

lemma h_get_term_char_ptr_deref:
  "map_sum id (map_prod id (map_prod id deref)) (h_get_term_char_ptr m stack args) =
     h_get_term_char (deref m) stack args"
  by (cases "h_get_term_char (m_spapr m) stack args")
     (auto simp: h_get_term_char_ptr_def deref_def h_get_term_char_map_env)

lemma chr_input_deref:
  assumes "unshared m" and "owner (vio_bus (m_spapr m)) p = Some sdev"
  shows "deref_result (mem_step q m (Backend_input p bs)) = qemu_step q (deref m) (Host_input sdev bs)"
proof -
  from assms(2) have bound: "sdev < length (vio_bus (m_spapr m))"
    and own: "chardev_of (vio_bus (m_spapr m) ! sdev) = Some p"
    by (auto dest: owner_Some)
  from own obtain dev where dev: "vio_bus (m_spapr m) ! sdev = Spapr_vty dev" "chardev dev = Some p"
    by (auto dest: chardev_of_vty)
  from assms(1) bound own obtain chr where chr: "m_chr m p = Some chr"
    by (auto dest: unshared_valid)
  with bound dev show ?thesis
    by (cases "qemu_chr_deliver (m_spapr m) chr bs")
       (auto simp: chr_input_def chr_at_def deref_result_def qemu_chr_deliver_map_env deref_def)
qed

lemma call_hcall_ptr_deref:
  assumes "unshared m"
  shows "map_sum id (map_prod id (map_prod id deref)) (call_hcall_ptr fn m stack args) =
           call_hcall fn (deref m) stack args"
proof (cases fn)
  case FN_h_put_term_char
  with h_put_term_char_ptr_deref [OF assms, of args, symmetric] show ?thesis
    by (cases "h_put_term_char_ptr m args")
       (auto simp: call_hcall_ptr_def call_hcall_def deref_result_def)
next
  case FN_h_get_term_char
  with h_get_term_char_ptr_deref [of m stack args, symmetric] show ?thesis
    by (cases "h_get_term_char_ptr m stack args") (auto simp: call_hcall_ptr_def call_hcall_def)
qed (simp_all add: call_hcall_ptr_def call_hcall_def)

lemma spapr_hypercall_ptr_deref:
  assumes "unshared m"
  shows "map_sum id (map_prod id (map_prod id deref)) (spapr_hypercall_ptr q m stack opcode args) =
           spapr_hypercall q (deref m) stack opcode args"
  by (cases "map_of (papr_hypercall_table q) opcode")
     (simp_all add: spapr_hypercall_ptr_def spapr_hypercall_def call_hcall_ptr_deref [OF assms])

lemma mem_step_deref:
  assumes "unshared m" and "value_event m e = Some ev"
  shows "deref_result (mem_step q m e) = qemu_step q (deref m) ev"
proof (cases e)
  case (Mem_hcall opcode stack args)
  with assms spapr_hypercall_ptr_deref [OF assms(1), of q stack opcode args, symmetric]
  show ?thesis
    by (cases "spapr_hypercall_ptr q m stack opcode args") (auto simp: deref_result_def)
next
  case (Backend_input p bs)
  with assms show ?thesis
    by (auto simp: chr_input_deref simp del: mem_step.simps qemu_step.simps)
qed

section \<open>Steps keep the pointers\<close>

lemma vty_putchars_ptr_Inr:
  "vty_putchars_ptr m dev b len = Inr m' \<Longrightarrow>
     m_spapr m' = m_spapr m \<and> dom (m_chr m) \<subseteq> dom (m_chr m')"
  by (auto simp: vty_putchars_ptr_def chr_at_def chr_store_def bind_result_eq_Inr_iff
      split: option.splits)

lemma h_put_term_char_ptr_pointers:
  "h_put_term_char_ptr m args = Inr (st, m') \<Longrightarrow>
     m_spapr m' = m_spapr m \<and> dom (m_chr m) \<subseteq> dom (m_chr m')"
  by (auto simp: h_put_term_char_ptr_def Let_def bind_result_eq_Inr_iff
      dest!: vty_putchars_ptr_Inr split: option.splits if_splits DeviceState.splits)

lemma chr_input_pointers:
  assumes "chr_input m p bs = Inr (n, m')"
  shows "map chardev_of (vio_bus (m_spapr m')) = map chardev_of (vio_bus (m_spapr m)) \<and>
         m_chr m' = m_chr m"
  using assms
  by (auto simp: chr_input_def chr_at_def bind_result_eq_Inr_iff
      dest: qemu_chr_deliver_pointers split: option.splits)

lemma mem_step_cases:
  assumes "mem_step q m e = Inr (r, m')"
  obtains (unknown) opcode stack args where "e = Mem_hcall opcode stack args"
      and "map_of (papr_hypercall_table q) opcode = None" and "m' = m"
    | (put) opcode stack args st where "e = Mem_hcall opcode stack args"
        and "map_of (papr_hypercall_table q) opcode = Some FN_h_put_term_char"
        and "h_put_term_char_ptr m args = Inr (st, m')"
    | (get) opcode stack args st args' s' where "e = Mem_hcall opcode stack args"
        and "map_of (papr_hypercall_table q) opcode = Some FN_h_get_term_char"
        and "h_get_term_char (m_spapr m) stack args = Inr (st, args', s')"
        and "m' = m\<lparr>m_spapr := s'\<rparr>"
    | (input) p bs n where "e = Backend_input p bs" and "chr_input m p bs = Inr (n, m')"
proof (cases e)
  case (Mem_hcall opcode stack args)
  show ?thesis
  proof (cases "map_of (papr_hypercall_table q) opcode")
    case None
    with assms Mem_hcall have "m' = m"
      by (auto simp: spapr_hypercall_ptr_def)
    with Mem_hcall None show ?thesis
      by (rule unknown)
  next
    case (Some fn)
    with assms Mem_hcall obtain ret args' where
      call: "call_hcall_ptr fn m stack args = Inr (ret, args', m')"
      by (auto simp: spapr_hypercall_ptr_def bind_result_eq_Inr_iff)
    then show ?thesis
    proof (cases fn)
      case FN_h_put_term_char
      with call obtain st where "h_put_term_char_ptr m args = Inr (st, m')"
        by (auto simp: call_hcall_ptr_def bind_result_eq_Inr_iff)
      with Mem_hcall Some FN_h_put_term_char show ?thesis
        by (auto intro: put)
    next
      case FN_h_get_term_char
      with call obtain st s' where "h_get_term_char (m_spapr m) stack args = Inr (st, args', s')"
        and "m' = m\<lparr>m_spapr := s'\<rparr>"
        by (auto simp: call_hcall_ptr_def h_get_term_char_ptr_def bind_result_eq_Inr_iff)
      with Mem_hcall Some FN_h_get_term_char show ?thesis
        by (auto intro: get)
    qed (simp_all add: call_hcall_ptr_def)
  qed
next
  case (Backend_input p bs)
  with assms obtain n where "chr_input m p bs = Inr (n, m')"
    by (auto simp: bind_result_eq_Inr_iff)
  with Backend_input show ?thesis
    by (rule input)
qed

lemma mem_step_pointers:
  assumes "mem_step q m e = Inr (r, m')"
  shows "map chardev_of (vio_bus (m_spapr m')) = map chardev_of (vio_bus (m_spapr m))"
    and "dom (m_chr m) \<subseteq> dom (m_chr m')"
proof -
  from assms have "map chardev_of (vio_bus (m_spapr m')) = map chardev_of (vio_bus (m_spapr m)) \<and>
      dom (m_chr m) \<subseteq> dom (m_chr m')"
    by (cases rule: mem_step_cases)
       (auto dest: h_put_term_char_ptr_pointers h_get_term_char_pointers chr_input_pointers)
  then show "map chardev_of (vio_bus (m_spapr m')) = map chardev_of (vio_bus (m_spapr m))"
    and "dom (m_chr m) \<subseteq> dom (m_chr m')"
    by simp_all
qed

lemma unshared_cong:
  assumes "unshared m" and "map chardev_of (vio_bus (m_spapr m')) = map chardev_of (vio_bus (m_spapr m))"
    and "dom (m_chr m) \<subseteq> dom (m_chr m')"
  shows "unshared m'"
proof -
  from assms(3) have "m_chr m' p \<noteq> None" if "m_chr m p \<noteq> None" for p
    using that by (auto simp: dom_def)
  with assms(1) show ?thesis
    by (simp add: unshared_def list_all_iff pointers_cong [OF assms(2)])
qed

lemma mem_step_unshared: "mem_step q m e = Inr (r, m') \<Longrightarrow> unshared m \<Longrightarrow> unshared m'"
  by (blast intro: unshared_cong dest: mem_step_pointers)

lemma value_event_cong:
  "map chardev_of (vio_bus (m_spapr m')) = map chardev_of (vio_bus (m_spapr m)) \<Longrightarrow>
     value_event m' e = value_event m e"
  by (cases e) (simp_all add: owner_cong [of "vio_bus (m_spapr m')" "vio_bus (m_spapr m)"])

lemma mem_event_ok_cong:
  "map chardev_of (vio_bus (m_spapr m')) = map chardev_of (vio_bus (m_spapr m)) \<Longrightarrow>
     mem_event_ok m' e = mem_event_ok m e"
  by (cases e) (simp_all add: owner_cong [of "vio_bus (m_spapr m')" "vio_bus (m_spapr m)"])

lemma mem_step_events:
  assumes "mem_step q m e = Inr (r, m')"
  shows "value_event m' = value_event m" and "mem_event_ok m' = mem_event_ok m"
  using mem_step_pointers(1) [OF assms] by (auto intro!: ext value_event_cong mem_event_ok_cong)

section \<open>Creation on memory\<close>

lemma spapr_vty_create_ptr_Some:
  assumes "m_chr m p = Some chr"
  shows "spapr_vty_create_ptr m r (Some p) =
           Inr \<lparr>m_spapr = \<lparr>vio_bus = vio_bus (m_spapr m) @ [Spapr_vty (vty_fresh r (Some p))]\<rparr>,
                m_chr = (m_chr m)(p \<mapsto> qemu_chr_add_handlers chr (Some FN_vty_can_receive)
                          (Some FN_vty_receive) None (Some (length (vio_bus (m_spapr m)))))\<rparr>"
  using assms by (simp add: vty_defs vty_fresh_def)

lemma spapr_vty_create_ptr_fault:
  "spapr_vty_create_ptr m r None = Inl Exit_failure"
  "m_chr m p = None \<Longrightarrow> spapr_vty_create_ptr m r (Some p) = Inl Wild_pointer"
  by (simp_all add: vty_defs vty_fresh_def)

lemma spapr_vty_create_ptr_deref:
  assumes "m_chr m p = Some chr" and "p \<notin> set (pointers (vio_bus (m_spapr m)))"
  shows "map_sum id deref (spapr_vty_create_ptr m r (Some p)) =
           map_sum id (\<lambda>bus. \<lparr>vio_bus = bus\<rparr>) (spapr_vty_create (vio_bus (deref m)) r (Some chr))"
  using assms
  by (simp add: spapr_vty_create_ptr_Some spapr_vty_create_Some deref_def map_env_def
      map_child_fresh map_chardev_def vty_fresh_def)

lemma spapr_vty_create_ptr_unshared:
  assumes "unshared m" and "p \<notin> set (pointers (vio_bus (m_spapr m)))"
    and "spapr_vty_create_ptr m r (Some p) = Inr m'"
  shows "unshared m'"
proof -
  from assms(3) obtain chr where "m_chr m p = Some chr"
    by (cases "m_chr m p") (simp_all add: spapr_vty_create_ptr_fault)
  with assms show ?thesis
    by (auto simp: spapr_vty_create_ptr_Some unshared_def pointers_Cons list_all_iff)
qed

lemma built_mem_deref: "built_mem m \<Longrightarrow> built (vio_bus (deref m)) \<and> unshared m"
proof (induction rule: built_mem.induct)
  case (empty h)
  show ?case
    by (simp add: built.empty unshared_def)
next
  case (other m d)
  then show ?case
    using built.other [of "vio_bus (deref m)" d] by (simp add: unshared_def pointers_Cons)
next
  case (vty m p r m')
  from vty.hyps(3) obtain chr where chr: "m_chr m p = Some chr"
    by (cases "m_chr m p") (simp_all add: spapr_vty_create_ptr_fault)
  from spapr_vty_create_ptr_deref [OF chr vty.hyps(2), of r] vty.hyps(3)
  have "spapr_vty_create (vio_bus (deref m)) r (Some chr) = Inr (vio_bus (deref m'))"
    by (cases "spapr_vty_create (vio_bus (deref m)) r (Some chr)") auto
  with vty show ?case
    by (auto intro: built.vty spapr_vty_create_ptr_unshared)
qed

lemma built_mem_inv:
  assumes "built_mem m"
  shows "mem_inv m"
  using built_mem_deref [OF assms] built_inv [of "vio_bus (deref m)"]
    built_bound [of "vio_bus (deref m)"]
  by (simp add: mem_inv_def deref_def map_env_def)

section \<open>Progress on memory\<close>

lemma mem_event_ok_value:
  "mem_event_ok m e \<Longrightarrow> \<exists>ev. value_event m e = Some ev \<and> event_ok ev"
  by (cases e) auto

lemma mem_step_progress:
  assumes "hcalls_registered q" and "mem_inv m" and "vtys_only (deref m)" and "mem_event_ok m e"
  shows "\<exists>r m'. mem_step q m e = Inr (r, m') \<and> mem_inv m' \<and> vtys_only (deref m')"
proof -
  from assms(4) obtain ev where ev: "value_event m e = Some ev" and ok: "event_ok ev"
    by (auto dest: mem_event_ok_value)
  from assms(2) have un: "unshared m" and inv: "spapr_inv (deref m)" and bound: "spapr_bound (deref m)"
    by (simp_all add: mem_inv_def)
  from qemu_step_progress [OF assms(1) inv bound assms(3) ok]
  obtain r s' where step: "qemu_step q (deref m) ev = Inr (r, s')"
    and reach: "reachable (deref m) s'"
    by auto
  from mem_step_deref [OF un ev, of q] step
  obtain m' where m': "mem_step q m e = Inr (r, m')" and s': "s' = deref m'"
    by (cases "mem_step q m e") (auto simp: deref_result_def)
  from reach inv bound assms(3) have "spapr_inv s'" and "spapr_bound s'" and "vtys_only s'"
    by (auto dest: reachable_inv reachable_bound reachable_vtys_only)
  with m' s' un show ?thesis
    by (auto simp: mem_inv_def dest: mem_step_unshared)
qed

section \<open>What a run writes to a backend\<close>

lemma h_get_term_char_shape:
  assumes "h_get_term_char s stack args = Inr (st, args', s')"
  shows "same_shape (vio_bus s) (vio_bus s')"
  using assms
  by (cases rule: h_get_term_char_cases)
     (auto simp: vty_getchars_dev dest: vty_lookup_bound intro!: same_shape_update)

lemma qemu_chr_deliver_shape:
  assumes "qemu_chr_deliver s chr bs = Inr (n, s')"
  shows "same_shape (vio_bus s) (vio_bus s')"
  using assms
  by (cases rule: qemu_chr_deliver_cases) (auto dest: vty_receive_frame intro!: same_shape_update)

lemma mem_step_shape:
  assumes "mem_step q m e = Inr (r, m')"
  shows "same_shape (vio_bus (m_spapr m)) (vio_bus (m_spapr m'))"
  using assms
  by (cases rule: mem_step_cases)
     (auto simp: chr_input_def bind_result_eq_Inr_iff
        dest: h_put_term_char_ptr_pointers h_get_term_char_shape qemu_chr_deliver_shape)

lemma put_written_cong:
  assumes "same_shape (vio_bus (m_spapr m)) (vio_bus (m_spapr m'))"
    and "map chardev_of (vio_bus (m_spapr m')) = map chardev_of (vio_bus (m_spapr m))"
  shows "put_written q m' p = put_written q m p"
proof
  fix e
  from assms(2) have "chardev_of (vio_bus (m_spapr m') ! i) = chardev_of (vio_bus (m_spapr m) ! i)"
    if "i < length (vio_bus (m_spapr m))" for i
    using that nth_map [of i "vio_bus (m_spapr m')" chardev_of] map_eq_imp_length_eq [OF assms(2)]
    by simp
  with assms(1) show "put_written q m' p e = put_written q m p e"
    by (cases e)
       (auto simp: h_put_written_def vty_lookup_same_shape dest: vty_lookup_bound
          split: option.splits)
qed

lemma h_put_term_char_ptr_written:
  assumes "h_put_term_char_ptr m args = Inr (st, m')"
  shows "written m' p = written m p @ h_put_written (m_spapr m) p args"
  using assms
  by (auto simp: h_put_term_char_ptr_def h_put_written_def vty_putchars_ptr_def written_def
      chr_at_def chr_store_def qemu_chr_fe_write_def Let_def bind_result_eq_Inr_iff
      split: option.splits if_splits DeviceState.splits)

lemma mem_step_written:
  assumes "mem_step q m e = Inr (r, m')"
  shows "written m' p = written m p @ put_written q m p e"
  using assms
  by (cases rule: mem_step_cases)
     (auto simp: written_def h_put_term_char_ptr_written [where p = p, unfolded written_def]
        dest: chr_input_pointers)

section \<open>A backend that two terminals share\<close>

lemma chr_input_frame:
  assumes "chr_input m p bs = Inr (n, m')" and "m_chr m p = Some chr"
    and "handler_opaque chr \<noteq> Some i"
  shows "vio_bus (m_spapr m') ! i = vio_bus (m_spapr m) ! i"
proof -
  from assms(1,2) have del: "qemu_chr_deliver (m_spapr m) chr bs = Inr (n, m_spapr m')"
    by (auto simp: chr_input_def chr_at_def bind_result_eq_Inr_iff)
  then show ?thesis
    using assms(3) by (cases rule: qemu_chr_deliver_cases) (auto simp: store_vty_def)
qed

lemma mem_run_input_frame:
  assumes "m_chr m p = Some chr" and "handler_opaque chr \<noteq> Some i"
  shows "mem_run q m (map (Backend_input p) bss) = Inr (rs, m') \<Longrightarrow>
           vio_bus (m_spapr m') ! i = vio_bus (m_spapr m) ! i"
  using assms(1)
proof (induction bss arbitrary: m rs)
  case Nil
  then show ?case by simp
next
  case (Cons bs bss)
  from Cons.prems(1) obtain n m1 rs1 where step: "chr_input m p bs = Inr (n, m1)"
    and run: "mem_run q m1 (map (Backend_input p) bss) = Inr (rs1, m')"
    by (auto simp: bind_result_eq_Inr_iff)
  from step have "m_chr m1 = m_chr m"
    by (auto dest: chr_input_pointers)
  with Cons.prems(2) have "m_chr m1 p = Some chr"
    by simp
  with run have "vio_bus (m_spapr m') ! i = vio_bus (m_spapr m1) ! i"
    by (rule Cons.IH)
  with chr_input_frame [OF step Cons.prems(2) assms(2)] show ?case
    by simp
qed

section \<open>The memories of the examples\<close>

lemma chr_idle_add_handlers:
  "qemu_chr_add_handlers chr_unbound (Some FN_vty_can_receive) (Some FN_vty_receive) None (Some sdev) =
     chr_idle sdev"
  "qemu_chr_add_handlers (chr_idle i) (Some FN_vty_can_receive) (Some FN_vty_receive) None (Some sdev) =
     chr_idle sdev"
  by (simp_all add: qemu_chr_add_handlers_def chr_unbound_def chr_idle_def)

lemma mem_heap_create:
  "spapr_vty_create_ptr mem_heap 0x30000000 (Some 0) =
     Inr \<lparr>m_spapr = \<lparr>vio_bus = [Spapr_vty (vty_fresh 0x30000000 (Some 0))]\<rparr>,
          m_chr = [0 \<mapsto> chr_idle 0, 1 \<mapsto> chr_unbound]\<rparr>"
  by (simp add: spapr_vty_create_ptr_Some [of _ _ chr_unbound] mem_heap_def chr_idle_add_handlers
      fun_upd_twist)

lemma mem_two_create:
  "spapr_vty_create_ptr
     \<lparr>m_spapr = \<lparr>vio_bus = [Spapr_vty (vty_fresh 0x30000000 (Some 0))]\<rparr>,
      m_chr = [0 \<mapsto> chr_idle 0, 1 \<mapsto> chr_unbound]\<rparr> 0x30000001 (Some 1) = Inr mem_two"
  by (simp add: spapr_vty_create_ptr_Some [of _ _ chr_unbound] mem_two_def chr_idle_add_handlers)

lemma mem_shared_create:
  "spapr_vty_create_ptr
     \<lparr>m_spapr = \<lparr>vio_bus = [Spapr_vty (vty_fresh 0x30000000 (Some 0))]\<rparr>,
      m_chr = [0 \<mapsto> chr_idle 0, 1 \<mapsto> chr_unbound]\<rparr> 0x30000001 (Some 0) = Inr mem_shared"
  by (simp add: spapr_vty_create_ptr_Some [of _ _ "chr_idle 0"] mem_shared_def chr_idle_add_handlers
      fun_upd_twist)

lemma built_mem_two: "built_mem mem_two"
proof -
  have "built_mem mem_heap"
    unfolding mem_heap_def by (rule built_mem.empty)
  then have "built_mem \<lparr>m_spapr = \<lparr>vio_bus = [Spapr_vty (vty_fresh 0x30000000 (Some 0))]\<rparr>,
      m_chr = [0 \<mapsto> chr_idle 0, 1 \<mapsto> chr_unbound]\<rparr>"
    by (rule built_mem.vty [OF _ _ mem_heap_create]) (simp add: mem_heap_def)
  then show ?thesis
    by (rule built_mem.vty [OF _ _ mem_two_create]) (simp add: pointers_Cons)
qed

text \<open>
  With a shared backend the two machines differ: a write through the first terminal of
  \<open>mem_shared\<close> is in the log that both terminals see, while on values it is in the copy
  of the first terminal only.
\<close>

lemma h_put_term_char_ptr_shared:
  "deref_result (h_put_term_char_ptr mem_shared [0x30000000, 1, 0x4100000000000000, 0]) \<noteq>
     h_put_term_char (deref mem_shared) [0x30000000, 1, 0x4100000000000000, 0]"
  by (simp add: h_put_term_char_ptr_def h_put_term_char_def vty_putchars_ptr_def vty_putchars_def
      chr_at_def chr_store_def deref_result_def deref_def map_env_def store_vty_def mem_shared_def
      vty_lookup_def spapr_vio_find_by_reg_def map_chardev_def vty_fresh_def qemu_chr_fe_write_def
      chr_idle_def)

text \<open>
  On values, writes through two different terminals are independent. On the memory with
  the shared backend they are not: the log keeps the order in which they were made.
\<close>

lemma mem_shared_order:
  "map_sum id (\<lambda>(rs, m). written m 0)
     (mem_run qemu_booted mem_shared
        [Mem_hcall 0x58 (replicate 16 0) [0x30000000, 1, 0x4100000000000000, 0],
         Mem_hcall 0x58 (replicate 16 0) [0x30000001, 1, 0x4200000000000000, 0]]) =
     Inr [[0x41], [0x42]]"
  "map_sum id (\<lambda>(rs, m). written m 0)
     (mem_run qemu_booted mem_shared
        [Mem_hcall 0x58 (replicate 16 0) [0x30000001, 1, 0x4200000000000000, 0],
         Mem_hcall 0x58 (replicate 16 0) [0x30000000, 1, 0x4100000000000000, 0]]) =
     Inr [[0x42], [0x41]]"
  by (simp_all add: mem_shared_def vty_defs chr_idle_def qemu_booted_def spapr_hypercall_ptr_def
      call_hcall_ptr_def h_put_term_char_ptr_def vty_putchars_ptr_def chr_at_def chr_store_def
      written_def wire_bytes_def cpu_to_be64_explicit)

section \<open>Properties of the machine on memory\<close>

text \<open>
  C12. As long as no two terminals hold the same backend, the machine on memory and the
  machine on values cannot be told apart: a run of events on memory, hypercalls through
  the table and input at a backend, read through the pointers gives the responses, the
  fault or the final state of the run of \<open>qemu_run\<close> on the memory read through the
  pointers, input at a backend being input for the terminal that holds it.
\<close>

theorem mem_run_refines:
  assumes "unshared m" and "those (map (value_event m) es) = Some evs"
  shows "deref_result (mem_run q m es) = qemu_run q (deref m) evs"
proof -
  let ?I = "\<lambda>m'. unshared m' \<and> value_event m' = value_event m"
  let ?P = "\<lambda>m' e. value_event m e \<noteq> None"
  from assms(2) have evs: "evs = map (\<lambda>e. the (value_event m e)) es"
    and some: "list_all (\<lambda>e. value_event m e \<noteq> None) es"
    by (auto dest: those_map_Some)
  have "map_sum id (map_prod (map id) deref) (mem_run q m es) =
      qemu_run q (deref m) (map (\<lambda>e. the (value_event m e)) es)"
  proof (rule run_result_refines [where I = ?I and P = ?P])
    show "?I m2" if "?I m1" and "mem_step q m1 e = Inr (r, m2)" for m1 e r m2
      using that by (simp add: mem_step_unshared mem_step_events(1) [OF that(2)])
    show "map_sum id (map_prod id deref) (mem_step q m1 e) =
        qemu_step q (deref m1) (the (value_event m e))"
      if "?I m1" and "?P m1 e" for m1 e
      using that mem_step_deref [of m1 e "the (value_event m e)" q] by (auto simp: deref_result_def)
  qed (use assms(1) some in \<open>auto intro: run_ok_list_all\<close>)
  with evs show ?thesis
    by (simp add: deref_result_def)
qed

theorem mem_run_refines_witness:
  "unshared mem_two \<and>
   those (map (value_event mem_two)
     [Backend_input 1 [0x41], Mem_hcall 0x54 (replicate 16 0) [0x30000001, 0, 0],
      Mem_hcall 0x58 (replicate 16 0) [0x30000000, 1, 0x4100000000000000, 0]]) =
     Some [Host_input 1 [0x41], Guest_hcall 0x54 (replicate 16 0) [0x30000001, 0, 0],
       Guest_hcall 0x58 (replicate 16 0) [0x30000000, 1, 0x4100000000000000, 0]] \<and>
   deref_result (mem_run qemu_booted mem_two
     [Backend_input 1 [0x41], Mem_hcall 0x54 (replicate 16 0) [0x30000001, 0, 0],
      Mem_hcall 0x58 (replicate 16 0) [0x30000000, 1, 0x4100000000000000, 0]]) =
   qemu_run qemu_booted (deref mem_two)
     [Host_input 1 [0x41], Guest_hcall 0x54 (replicate 16 0) [0x30000001, 0, 0],
      Guest_hcall 0x58 (replicate 16 0) [0x30000000, 1, 0x4100000000000000, 0]]"
proof -
  have un: "unshared mem_two"
    by (simp add: unshared_def mem_two_def pointers_Cons)
  moreover have ev: "those (map (value_event mem_two)
     [Backend_input 1 [0x41], Mem_hcall 0x54 (replicate 16 0) [0x30000001, 0, 0],
      Mem_hcall 0x58 (replicate 16 0) [0x30000000, 1, 0x4100000000000000, 0]]) =
     Some [Host_input 1 [0x41], Guest_hcall 0x54 (replicate 16 0) [0x30000001, 0, 0],
       Guest_hcall 0x58 (replicate 16 0) [0x30000000, 1, 0x4100000000000000, 0]]"
    by (simp add: owner_def mem_two_def)
  ultimately show ?thesis
    using mem_run_refines [OF un ev, of qemu_booted] by simp
qed

text \<open>
  C23. Creation on memory is \<open>spapr_vty_create\<close>: with a backend at an address that no
  terminal holds yet, \<open>spapr_vty_create_ptr\<close> returns, the memory it leaves read through the
  pointers is the bus \<open>spapr_vty_create\<close> builds from the bus before and that backend,
  and still no two terminals hold the same backend.
\<close>

theorem spapr_vty_create_ptr_fresh:
  assumes "unshared m" and "m_chr m p = Some chr"
    and "p \<notin> set (pointers (vio_bus (m_spapr m)))"
  shows "\<exists>m'. spapr_vty_create_ptr m r (Some p) = Inr m' \<and> unshared m' \<and>
           spapr_vty_create (vio_bus (deref m)) r (Some chr) = Inr (vio_bus (deref m'))"
proof -
  from assms(2) obtain m' where m': "spapr_vty_create_ptr m r (Some p) = Inr m'"
    by (simp add: spapr_vty_create_ptr_Some)
  with spapr_vty_create_ptr_deref [OF assms(2,3), of r]
  have "spapr_vty_create (vio_bus (deref m)) r (Some chr) = Inr (vio_bus (deref m'))"
    by (cases "spapr_vty_create (vio_bus (deref m)) r (Some chr)") auto
  with m' assms(1,3) show ?thesis
    by (auto intro: spapr_vty_create_ptr_unshared)
qed

theorem spapr_vty_create_ptr_fresh_witness:
  "\<exists>m'. spapr_vty_create_ptr mem_heap 0x30000000 (Some 0) = Inr m' \<and> unshared m' \<and>
      spapr_vty_create (vio_bus (deref mem_heap)) 0x30000000 (Some chr_unbound) =
        Inr (vio_bus (deref m'))"
  by (rule spapr_vty_create_ptr_fresh) (simp_all add: unshared_def mem_heap_def)

text \<open>
  C16. Nothing keeps two terminals from being created on one backend, and then the second
  \<open>spapr_vty_init\<close> has replaced the \<^verbatim>\<open>opaque\<close> pointer of the first: the memory is no
  longer unshared, the backend calls back the second terminal, and whatever input arrives
  at the backend, the terminal created first stays as it was created: no byte reaches its
  ring and its interrupt is never pulsed.
\<close>

theorem spapr_vty_create_ptr_shared:
  assumes "m_chr m p = Some chr"
    and "spapr_vty_create_ptr m r1 (Some p) = Inr m1"
    and "spapr_vty_create_ptr m1 r2 (Some p) = Inr m2"
    and "mem_run q m2 (map (Backend_input p) bss) = Inr (rs, m3)"
  shows "\<not> unshared m2 \<and>
         map_option handler_opaque (m_chr m2 p) = Some (Some (Suc (length (vio_bus (m_spapr m))))) \<and>
         vio_bus (m_spapr m3) ! length (vio_bus (m_spapr m)) = Spapr_vty (vty_fresh r1 (Some p))"
proof -
  let ?n = "length (vio_bus (m_spapr m))"
  let ?bind = "\<lambda>c i. qemu_chr_add_handlers c (Some FN_vty_can_receive) (Some FN_vty_receive) None (Some i)"
  from assms(1,2) have m1: "vio_bus (m_spapr m1) = vio_bus (m_spapr m) @ [Spapr_vty (vty_fresh r1 (Some p))]"
    "m_chr m1 p = Some (?bind chr ?n)"
    by (auto simp: spapr_vty_create_ptr_Some)
  with assms(3) have m2: "vio_bus (m_spapr m2) =
      vio_bus (m_spapr m) @ [Spapr_vty (vty_fresh r1 (Some p)), Spapr_vty (vty_fresh r2 (Some p))]"
    "m_chr m2 p = Some (?bind (?bind chr ?n) (Suc ?n))"
    by (auto simp: spapr_vty_create_ptr_Some [OF m1(2)])
  from m2(1) have "\<not> unshared m2"
    by (simp add: unshared_def pointers_Cons)
  moreover have "vio_bus (m_spapr m3) ! ?n = vio_bus (m_spapr m2) ! ?n"
    using m2(2) _ assms(4) by (rule mem_run_input_frame) (simp add: qemu_chr_add_handlers_def)
  ultimately show ?thesis
    using m2 by (simp add: qemu_chr_add_handlers_def)
qed

theorem spapr_vty_create_ptr_shared_witness:
  "\<not> unshared mem_shared \<and>
   map_option handler_opaque (m_chr mem_shared 0) = Some (Some 1) \<and>
   vio_bus (m_spapr (snd (projr (mem_run qemu_booted mem_shared [Backend_input 0 [0x41]])))) ! 0 =
     Spapr_vty (vty_fresh 0x30000000 (Some 0))"
proof -
  obtain rs m3 where run: "mem_run qemu_booted mem_shared (map (Backend_input 0) [[0x41]]) = Inr (rs, m3)"
    by (simp add: mem_shared_def vty_defs qemu_chr_deliver_def opaque_vty_def chr_idle_def
        call_can_read_def call_read_def vty_can_receive_def vty_receive_def)
  from spapr_vty_create_ptr_shared [OF _ mem_heap_create mem_shared_create run, of chr_unbound] run
  show ?thesis
    by (simp add: mem_heap_def)
qed

text \<open>
  C15. The host sees the writes in the order of the hypercalls: after a run that returns,
  the log of every backend is its log before the run followed by one write for each
  \<open>h_put_term_char\<close> of the run that resolved a terminal holding that backend and had a
  length of at most 16, in the order of the run, each the first \<^verbatim>\<open>len\<close> of the 16 bytes
  of the two registers. Nothing else of the run writes to a backend, and when two
  terminals hold one backend their writes are interleaved in that one log.
\<close>

theorem mem_run_written:
  assumes "mem_run q m es = Inr (rs, m')"
  shows "written m' p = written m p @ concat (map (put_written q m p) es)"
  using assms
proof (rule run_result_log)
  fix m1 e r m2
  assume "mem_step q m1 e = Inr (r, m2)"
  then show "written m2 p = written m1 p @ put_written q m1 p e \<and>
      put_written q m2 p = put_written q m1 p"
    by (simp add: mem_step_written put_written_cong mem_step_shape mem_step_pointers(1))
qed

theorem mem_run_written_witness:
  "\<exists>rs m'. mem_run qemu_booted mem_shared
      [Mem_hcall 0x58 (replicate 16 0) [0x30000001, 1, 0x4200000000000000, 0],
       Backend_input 0 [0x41],
       Mem_hcall 0x58 (replicate 16 0) [0x30000000, 2, 0x4344000000000000, 0]] = Inr (rs, m') \<and>
     written m' 0 = [[0x42], [0x43, 0x44]]"
proof -
  let ?es = "[Mem_hcall 0x58 (replicate 16 0) [0x30000001, 1, 0x4200000000000000, 0],
       Backend_input 0 [0x41],
       Mem_hcall 0x58 (replicate 16 0) [0x30000000, 2, 0x4344000000000000, 0]]"
  obtain rs m' where run: "mem_run qemu_booted mem_shared ?es = Inr (rs, m')"
    by (simp add: mem_shared_def vty_defs qemu_chr_deliver_def opaque_vty_def chr_idle_def
        call_can_read_def call_read_def vty_can_receive_def vty_receive_def qemu_booted_def
        spapr_hypercall_ptr_def call_hcall_ptr_def h_put_term_char_ptr_def vty_putchars_ptr_def
        chr_at_def chr_store_def)
  from mem_run_written [OF run, of 0] have "written m' 0 = [[0x42], [0x43, 0x44]]"
    by (simp add: written_def mem_shared_def h_put_written_def qemu_booted_def vty_defs
        chr_idle_def wire_bytes_def cpu_to_be64_explicit)
  with run show ?thesis
    by blast
qed

end
