(* ===== verification/VtyIndep.thy ===== *)
theory VtyIndep
  imports VtyPointers
begin

text \<open>
  Independence of the terminals of a machine. Every event of \<open>spapr_step\<close> is an
  operation on one device: the child the backend delivers to, or the child the register
  argument of a hypercall resolves to (\<open>event_target\<close>); an event without a target
  returns \<^verbatim>\<open>H_PARAMETER\<close> and changes nothing. \<open>vty_event\<close> is what the event does to the
  device record it is run on: \<open>vty_receive\<close> (lines 22-35 of \<^verbatim>\<open>src/hw/spapr_vty.c\<close>), the
  part of \<open>h_put_term_char\<close> after the lookup and the test of the length (lines 92-97)
  and the part of \<open>h_get_term_char\<close> after the lookup (lines 115-123). It is a
  specification of the step, not a second model of the code: \<open>spapr_step_target\<close> proves
  that \<open>spapr_step\<close>, which calls the handlers themselves, is \<open>vty_event\<close> at the target.

  Lemmas: \<open>spapr_step\<close> is \<open>vty_event\<close> at the target, stored back in place
  (\<open>spapr_step_target\<close>); a step keeps the shape of the bus and so the target of every
  event and changes of the target only what the event is for (\<open>event_keeps\<close>);
  \<open>vty_event\<close> of a read or a delivery is natural in the backend; and two events that
  are \<open>independent\<close>, on different devices or a write and a read on one device, can be
  run in either order.
\<close>

section \<open>The device an event works on\<close>

fun is_put :: "event \<Rightarrow> bool" where
  "is_put (Hcall_put args) = True"
| "is_put (Chr_read sdev bs) = False"
| "is_put (Hcall_get stack args) = False"

fun event_idle :: "event \<Rightarrow> response" where
  "event_idle (Hcall_put args) = Put_done H_PARAMETER"
| "event_idle (Hcall_get stack args) = Get_done H_PARAMETER args"
| "event_idle (Chr_read sdev bs) = Delivered"

fun event_target :: "'chr sPAPREnvironment \<Rightarrow> event \<Rightarrow> nat option" where
  "event_target s (Chr_read sdev bs) = Some sdev"
| "event_target s (Hcall_put args) = (if args ! 1 > 16 then None else vty_lookup s (args ! 0))"
| "event_target s (Hcall_get stack args) = vty_lookup s (args ! 0)"

fun vty_event ::
  "event \<Rightarrow> CharDriverState VIOsPAPRVTYDevice \<Rightarrow>
     (response \<times> CharDriverState VIOsPAPRVTYDevice) result" where
  "vty_event (Chr_read sdev bs) dev =
     bind_result (vty_receive dev bs) (\<lambda>dev'. Inr (Delivered, dev'))"
| "vty_event (Hcall_put args) dev =
     bind_result (vty_putchars dev (wire_bytes (args ! 2) (args ! 3)) (uint (args ! 1)))
       (\<lambda>dev'. Inr (Put_done H_SUCCESS, dev'))"
| "vty_event (Hcall_get stack args) dev =
     (case vty_getchars dev stack 16 of
        (dev', b, n) \<Rightarrow>
          let len = (word_of_int n :: target_ulong);
              (char0_7, char8_15) = wire_words (zero_fill b len)
          in Inr (Get_done H_SUCCESS (args[0 := len, 1 := char0_7, 2 := char8_15]), dev'))"

text \<open>
  What an event leaves alone of the device it works on. A delivery moves the write cursor,
  fills slots and may pulse the interrupt; a write changes the backend; a read moves the
  read cursor. \<open>event_keeps e dev dev'\<close> holds when \<open>dev'\<close> differs from \<open>dev\<close> in
  nothing else.
\<close>

fun event_keeps :: "event \<Rightarrow> 'chr VIOsPAPRVTYDevice \<Rightarrow> 'chr VIOsPAPRVTYDevice \<Rightarrow> bool" where
  "event_keeps (Chr_read sdev bs) dev dev' \<longleftrightarrow>
     reg dev' = reg dev \<and> chardev dev' = chardev dev \<and> vout dev' = vout dev \<and>
     length (buf dev') = length (buf dev)"
| "event_keeps (Hcall_put args) dev dev' \<longleftrightarrow>
     reg dev' = reg dev \<and> qirq dev' = qirq dev \<and> vin dev' = vin dev \<and> vout dev' = vout dev \<and>
     buf dev' = buf dev"
| "event_keeps (Hcall_get stack args) dev dev' \<longleftrightarrow>
     reg dev' = reg dev \<and> qirq dev' = qirq dev \<and> chardev dev' = chardev dev \<and>
     vin dev' = vin dev \<and> buf dev' = buf dev"

text \<open>
  Two events are independent in a state when they work on different devices, or when
  exactly one of them is a write: \<open>h_put_term_char\<close> uses nothing of a device but its
  backend, which the other two do not touch.
\<close>

definition independent :: "'chr sPAPREnvironment \<Rightarrow> event \<Rightarrow> event \<Rightarrow> bool" where
  "independent s e1 e2 \<longleftrightarrow> event_target s e1 \<noteq> event_target s e2 \<or> is_put e1 \<noteq> is_put e2"

section \<open>A step is an operation on its target\<close>

lemma spapr_step_target:
  "spapr_step s e =
     (case event_target s e of
        None \<Rightarrow> Inr (event_idle e, s)
      | Some i \<Rightarrow>
          (case vio_bus s ! i of
             Spapr_vty dev \<Rightarrow>
               bind_result (vty_event e dev) (\<lambda>(r, dev'). Inr (r, store_vty s i dev'))
           | Spapr_other d \<Rightarrow> Inl Bad_cast))"
proof (cases e)
  case (Chr_read sdev bs)
  then show ?thesis
    by (cases "vio_bus s ! sdev") (simp_all add: bind_result_assoc)
next
  case (Hcall_put args)
  then show ?thesis
    by (auto simp: h_put_term_char_def Let_def bind_result_def
        split: option.splits DeviceState.splits sum.splits)
next
  case (Hcall_get stack args)
  then show ?thesis
    by (auto simp: h_get_term_char_def Let_def split: option.splits DeviceState.splits prod.splits)
qed

lemma spapr_step_None: "event_target s e = None \<Longrightarrow> spapr_step s e = Inr (event_idle e, s)"
  by (simp add: spapr_step_target)

lemma spapr_step_at:
  assumes "event_target s e = Some i" and "vio_bus s ! i = Spapr_vty dev"
  shows "spapr_step s e = bind_result (vty_event e dev) (\<lambda>(r, dev'). Inr (r, store_vty s i dev'))"
  using assms by (simp add: spapr_step_target)

lemma spapr_step_Some:
  assumes "spapr_step s e = Inr (r, s')" and "event_target s e = Some i"
  obtains dev dev' where "vio_bus s ! i = Spapr_vty dev" and "vty_event e dev = Inr (r, dev')"
    and "s' = store_vty s i dev'"
  using assms
  by (cases "vio_bus s ! i") (auto simp: spapr_step_target bind_result_eq_Inr_iff)

lemma event_target_bound:
  "event_target s e = Some i \<Longrightarrow> is_put e \<Longrightarrow> i < length (vio_bus s)"
  by (cases e) (auto dest: vty_lookup_bound split: if_splits)

section \<open>Steps keep the targets\<close>

lemma vty_event_get:
  "vty_event (Hcall_get stack args) dev = Inr (r, dev') \<Longrightarrow> dev' = fst (vty_getchars dev stack 16)"
  by (auto simp: Let_def split: prod.splits)

lemma vty_event_frame:
  assumes "vty_event e dev = Inr (r, dev')"
  shows "reg dev' = reg dev" and "\<not> is_put e \<Longrightarrow> chardev dev' = chardev dev"
proof -
  have "reg dev' = reg dev \<and> (\<not> is_put e \<longrightarrow> chardev dev' = chardev dev)"
  proof (cases e)
    case (Hcall_get stack args)
    with assms vty_event_get [of stack args dev r dev'] show ?thesis
      by (simp add: vty_getchars_dev del: vty_event.simps)
  qed (use assms in \<open>auto simp: bind_result_eq_Inr_iff dest: vty_receive_frame vty_putchars_frame\<close>)
  then show "reg dev' = reg dev" and "\<not> is_put e \<Longrightarrow> chardev dev' = chardev dev"
    by simp_all
qed

lemma vty_event_keeps:
  assumes "vty_event e dev = Inr (r, dev')"
  shows "event_keeps e dev dev'"
proof (cases e)
  case (Hcall_get stack args)
  with assms vty_event_get [of stack args dev r dev'] show ?thesis
    by (simp add: vty_getchars_dev del: vty_event.simps)
qed (use assms in \<open>auto simp: bind_result_eq_Inr_iff dest: vty_receive_frame vty_putchars_frame\<close>)

lemma event_keeps_refl [simp]: "event_keeps e dev dev"
  by (cases e) simp_all

lemma same_shape_update_any:
  assumes "bus ! i = Spapr_vty dev" and "reg dev' = reg dev"
  shows "same_shape bus (bus[i := Spapr_vty dev'])"
  using assms by (cases "i < length bus") (simp_all add: same_shape_update list_update_beyond not_less)

lemma spapr_step_shape:
  assumes "spapr_step s e = Inr (r, s')"
  shows "same_shape (vio_bus s) (vio_bus s')"
proof (cases "event_target s e")
  case None
  with assms show ?thesis
    by (simp add: spapr_step_None)
next
  case (Some i)
  with assms obtain dev dev' where "vio_bus s ! i = Spapr_vty dev"
    and "vty_event e dev = Inr (r, dev')" and "s' = store_vty s i dev'"
    by (rule spapr_step_Some)
  then show ?thesis
    by (simp add: same_shape_update_any [where dev = dev] vty_event_frame(1) [of e dev r dev'])
qed

lemma spapr_step_keeps_target:
  assumes "spapr_step s e = Inr (r, s')"
  shows "event_target s' e' = event_target s e'"
  using spapr_step_shape [OF assms] by (cases e') (simp_all add: vty_lookup_same_shape)

lemma store_vty_swap:
  "i \<noteq> j \<Longrightarrow> store_vty (store_vty s i a) j b = store_vty (store_vty s j b) i a"
  by (simp add: store_vty_def list_update_swap)

section \<open>A write and a read on one device\<close>

lemma vty_event_map:
  assumes "\<not> is_put e"
  shows "vty_event e (map_chardev f dev) = map_sum id (map_prod id (map_chardev f)) (vty_event e dev)"
proof (cases e)
  case (Chr_read sdev bs)
  then show ?thesis
    by (cases "vty_receive dev bs") (simp_all add: vty_receive_map)
next
  case (Hcall_put args)
  with assms show ?thesis
    by simp
next
  case (Hcall_get stack args)
  then show ?thesis
    by (simp add: vty_getchars_map Let_def split: prod.splits)
qed

lemma vty_event_put:
  assumes "vty_event e dev = Inr (r, dev')" and "is_put e"
  shows "\<exists>chr. dev' = dev\<lparr>chardev := Some chr\<rparr> \<and>
           (\<forall>d. chardev d = chardev dev \<longrightarrow> vty_event e d = Inr (r, d\<lparr>chardev := Some chr\<rparr>))"
  using assms
  by (cases e)
     (auto simp: bind_result_eq_Inr_iff vty_putchars_def split: option.splits)

lemma vty_event_commute:
  assumes "vty_event e1 dev = Inr (r1, d1)" and "vty_event e2 dev = Inr (r2, d2)"
    and "is_put e1" and "\<not> is_put e2"
  shows "\<exists>d'. vty_event e2 d1 = Inr (r2, d') \<and> vty_event e1 d2 = Inr (r1, d')"
proof -
  from vty_event_put [OF assms(1,3)] obtain chr where d1: "d1 = dev\<lparr>chardev := Some chr\<rparr>"
    and put: "\<And>d. chardev d = chardev dev \<Longrightarrow> vty_event e1 d = Inr (r1, d\<lparr>chardev := Some chr\<rparr>)"
    by blast
  have set: "d\<lparr>chardev := Some chr\<rparr> = map_chardev (\<lambda>c. Some chr) d" if "chardev d \<noteq> None" for d
    using that by (auto simp: map_chardev_def)
  from assms(1,3) have some: "chardev dev \<noteq> None"
    by (cases e1) (auto simp: bind_result_eq_Inr_iff vty_putchars_def split: option.splits)
  with assms(2,4) have "vty_event e2 d1 = Inr (r2, map_chardev (\<lambda>c. Some chr) d2)"
    by (simp add: d1 set vty_event_map)
  moreover from assms(2,4) have c2: "chardev d2 = chardev dev"
    by (rule vty_event_frame(2))
  ultimately show ?thesis
    using put [OF c2] some by (simp add: set)
qed

lemma spapr_step_commute_put:
  assumes "event_target s e1 = event_target s e2" and "is_put e1" and "\<not> is_put e2"
    and "spapr_step s e1 = Inr (r1, s1)" and "spapr_step s e2 = Inr (r2, s2)"
  shows "\<exists>s'. spapr_step s1 e2 = Inr (r2, s') \<and> spapr_step s2 e1 = Inr (r1, s')"
proof (cases "event_target s e1")
  case None
  with assms(1,4,5) show ?thesis
    by (simp add: spapr_step_None)
next
  case (Some i)
  from assms(4) Some obtain dev d1 where dev: "vio_bus s ! i = Spapr_vty dev"
    and e1: "vty_event e1 dev = Inr (r1, d1)" and s1: "s1 = store_vty s i d1"
    by (rule spapr_step_Some)
  from assms(1) Some have "event_target s e2 = Some i"
    by simp
  with assms(5) obtain dev2 d2 where "vio_bus s ! i = Spapr_vty dev2"
    and "vty_event e2 dev2 = Inr (r2, d2)" and s2: "s2 = store_vty s i d2"
    by (rule spapr_step_Some)
  with dev have e2: "vty_event e2 dev = Inr (r2, d2)"
    by simp
  from Some assms(2) have bound: "i < length (vio_bus s)"
    by (rule event_target_bound)
  from vty_event_commute [OF e1 e2 assms(2,3)] obtain d'
    where "vty_event e2 d1 = Inr (r2, d')" and "vty_event e1 d2 = Inr (r1, d')"
    by blast
  moreover have "event_target s1 e2 = Some i" and "event_target s2 e1 = Some i"
    using assms(1) Some
    by (simp_all add: spapr_step_keeps_target [OF assms(4)] spapr_step_keeps_target [OF assms(5)])
  ultimately have "spapr_step s1 e2 = Inr (r2, store_vty s i d') \<and>
      spapr_step s2 e1 = Inr (r1, store_vty s i d')"
    using bound s1 s2 by (simp add: spapr_step_at [where dev = d1] spapr_step_at [where dev = d2]
        store_vty_def)
  then show ?thesis ..
qed

lemma spapr_step_commute_idle:
  assumes "event_target s e1 = None"
    and "spapr_step s e1 = Inr (r1, s1)" and "spapr_step s e2 = Inr (r2, s2)"
  shows "spapr_step s1 e2 = Inr (r2, s2) \<and> spapr_step s2 e1 = Inr (r1, s2)"
proof -
  from assms(1,2) have "s1 = s" and "r1 = event_idle e1"
    by (simp_all add: spapr_step_None)
  moreover from assms(1) have "event_target s2 e1 = None"
    by (simp add: spapr_step_keeps_target [OF assms(3)])
  ultimately show ?thesis
    using assms(3) by (simp add: spapr_step_None)
qed

lemma spapr_step_commute_apart:
  assumes "event_target s e1 \<noteq> event_target s e2"
    and "spapr_step s e1 = Inr (r1, s1)" and "spapr_step s e2 = Inr (r2, s2)"
  shows "\<exists>s'. spapr_step s1 e2 = Inr (r2, s') \<and> spapr_step s2 e1 = Inr (r1, s')"
proof -
  have t: "event_target s1 e = event_target s e" "event_target s2 e = event_target s e" for e
    by (rule spapr_step_keeps_target [OF assms(2)], rule spapr_step_keeps_target [OF assms(3)])
  have idle: ?thesis if "event_target s e1 = None \<or> event_target s e2 = None"
    using that spapr_step_commute_idle [OF _ assms(2,3)] spapr_step_commute_idle [OF _ assms(3,2)]
    by blast
  show ?thesis
  proof (cases "event_target s e1 = None \<or> event_target s e2 = None")
    case True
    then show ?thesis by (rule idle)
  next
    case False
    then obtain i j where i: "event_target s e1 = Some i" and j: "event_target s e2 = Some j"
      by auto
    with assms(1) have ij: "i \<noteq> j"
      by simp
    from assms(2) i obtain dev1 d1 where dev1: "vio_bus s ! i = Spapr_vty dev1"
      and e1: "vty_event e1 dev1 = Inr (r1, d1)" and s1: "s1 = store_vty s i d1"
      by (rule spapr_step_Some)
    from assms(3) j obtain dev2 d2 where dev2: "vio_bus s ! j = Spapr_vty dev2"
      and e2: "vty_event e2 dev2 = Inr (r2, d2)" and s2: "s2 = store_vty s j d2"
      by (rule spapr_step_Some)
    from ij dev1 dev2 s1 s2 have "vio_bus s1 ! j = Spapr_vty dev2" and "vio_bus s2 ! i = Spapr_vty dev1"
      by simp_all
    with t i j e1 e2 have "spapr_step s1 e2 = Inr (r2, store_vty s1 j d2)"
      and "spapr_step s2 e1 = Inr (r1, store_vty s2 i d1)"
      by (simp_all add: spapr_step_at [where dev = dev1] spapr_step_at [where dev = dev2])
    with ij s1 s2 show ?thesis
      by (simp add: store_vty_swap)
  qed
qed

section \<open>Properties\<close>

text \<open>
  C17. An event changes the device it names and nothing else. A step that returns keeps
  the number of children; when the event has no target, because the \<open>reg\<close> of a hypercall
  resolves to nothing or the length of a write is above 16, the machine is as before;
  otherwise every child but the target is as before, the target is the child the backend
  delivers to or the child \<open>vty_lookup\<close> resolves the first argument to, and of the target
  a delivery leaves \<open>reg\<close>, backend and read cursor alone, a write everything but the
  backend, a read everything but the read cursor.
\<close>

theorem spapr_step_frame:
  assumes "spapr_step s e = Inr (r, s')"
  shows "length (vio_bus s') = length (vio_bus s) \<and>
         (case event_target s e of
            None \<Rightarrow> s' = s
          | Some i \<Rightarrow>
              (\<forall>j. j \<noteq> i \<longrightarrow> vio_bus s' ! j = vio_bus s ! j) \<and>
              (\<exists>dev dev'. vio_bus s ! i = Spapr_vty dev \<and> vio_bus s' ! i = Spapr_vty dev' \<and>
                 event_keeps e dev dev'))"
proof (cases "event_target s e")
  case None
  with assms show ?thesis
    by (simp add: spapr_step_None)
next
  case (Some i)
  with assms obtain dev dev' where dev: "vio_bus s ! i = Spapr_vty dev"
    and ev: "vty_event e dev = Inr (r, dev')" and s': "s' = store_vty s i dev'"
    by (rule spapr_step_Some)
  from ev have keeps: "event_keeps e dev dev'"
    by (rule vty_event_keeps)
  have "\<exists>d. vio_bus s' ! i = Spapr_vty d \<and> event_keeps e dev d"
  proof (cases "i < length (vio_bus s)")
    case True
    with s' keeps show ?thesis
      by simp
  next
    case False
    with s' dev show ?thesis
      by (simp add: list_update_beyond not_less)
  qed
  with Some dev s' show ?thesis
    by auto
qed

theorem spapr_step_frame_witness:
  "\<exists>s'. spapr_step spapr_529 (Hcall_put [9, 1, 0x4100000000000000, 0]) = Inr (Put_done H_SUCCESS, s') \<and>
     length (vio_bus s') = 4 \<and> vio_bus s' ! 0 = bus_529 ! 0 \<and> vio_bus s' ! 2 = bus_529 ! 2 \<and>
     (\<exists>dev'. vio_bus s' ! 3 = Spapr_vty dev' \<and> reg dev' = 9 \<and> vin dev' = 0 \<and> vout dev' = 0 \<and>
        buf dev' = replicate 16 0 \<and> qirq dev' = 0)"
proof -
  obtain s' where
    step: "spapr_step spapr_529 (Hcall_put [9, 1, 0x4100000000000000, 0]) = Inr (Put_done H_SUCCESS, s')"
    by (simp add: h_put_term_char_def vty_putchars_def vty_fresh_def)
  from spapr_step_frame [OF step] have "length (vio_bus s') = 4 \<and>
      vio_bus s' ! 0 = bus_529 ! 0 \<and> vio_bus s' ! 2 = bus_529 ! 2 \<and>
      (\<exists>dev'. vio_bus s' ! 3 = Spapr_vty dev' \<and> reg dev' = 9 \<and> vin dev' = 0 \<and> vout dev' = 0 \<and>
         buf dev' = replicate 16 0 \<and> qirq dev' = 0)"
    by (auto simp: vty_fresh_def bus_529_def)
  with step show ?thesis
    by blast
qed

text \<open>
  C18. Independent events commute: when two events that both return work on different
  devices, or one is a write and the other a read or a delivery, then either can be run
  first; the second returns what it returned alone, and both orders end in the same
  machine. So the guest cannot tell in which order the host input of one terminal and
  the hypercalls on another were run.
\<close>

theorem spapr_step_commute:
  assumes "independent s e1 e2"
    and "spapr_step s e1 = Inr (r1, s1)" and "spapr_step s e2 = Inr (r2, s2)"
  shows "\<exists>s'. spapr_run s [e1, e2] = Inr ([r1, r2], s') \<and> spapr_run s [e2, e1] = Inr ([r2, r1], s')"
proof -
  consider (apart) "event_target s e1 \<noteq> event_target s e2"
    | (put1) "event_target s e1 = event_target s e2" "is_put e1" "\<not> is_put e2"
    | (put2) "event_target s e2 = event_target s e1" "is_put e2" "\<not> is_put e1"
    using assms(1) by (cases "event_target s e1 = event_target s e2") (auto simp: independent_def)
  then have "\<exists>s'. spapr_step s1 e2 = Inr (r2, s') \<and> spapr_step s2 e1 = Inr (r1, s')"
  proof cases
    case apart
    then show ?thesis
      using assms(2,3) by (rule spapr_step_commute_apart)
  next
    case put1
    then show ?thesis
      using assms(2,3) by (rule spapr_step_commute_put)
  next
    case put2
    from spapr_step_commute_put [OF put2 assms(3,2)] show ?thesis
      by blast
  qed
  with assms(2,3) show ?thesis
    by auto
qed

theorem spapr_step_commute_witness:
  "\<exists>s'. spapr_run spapr_529 [Hcall_put [9, 1, 0x4100000000000000, 0], Chr_read 3 [0x42]] =
          Inr ([Put_done H_SUCCESS, Delivered], s') \<and>
        spapr_run spapr_529 [Chr_read 3 [0x42], Hcall_put [9, 1, 0x4100000000000000, 0]] =
          Inr ([Delivered, Put_done H_SUCCESS], s')"
proof -
  have "independent spapr_529 (Hcall_put [9, 1, 0x4100000000000000, 0]) (Chr_read 3 [0x42])"
    by (simp add: independent_def)
  moreover obtain s1 where
    "spapr_step spapr_529 (Hcall_put [9, 1, 0x4100000000000000, 0]) = Inr (Put_done H_SUCCESS, s1)"
    by (simp add: h_put_term_char_def vty_putchars_def vty_fresh_def)
  moreover obtain s2 where "spapr_step spapr_529 (Chr_read 3 [0x42]) = Inr (Delivered, s2)"
    by (simp add: vty_defs vty_fresh_def)
  ultimately show ?thesis
    by (rule spapr_step_commute)
qed

end
