(* ===== verification/Spec2Isabelle.thy ===== *)
theory Spec2Isabelle
  imports VtyQom VtySystem VtyStore VtyIndep
begin

text \<open>
  \<^bold>\<open>The sPAPR virtual terminal (\<^verbatim>\<open>src/hw/spapr_vty.c\<close>), modelled and verified.\<close>

  \<^bold>\<open>The program.\<close> One C file implements a paravirtualised serial console. Each
  terminal device holds a 16-byte ring buffer with two free-running 32-bit cursors.
  The character backend pushes host input into the ring (\<^verbatim>\<open>vty_can_receive\<close>,
  \<^verbatim>\<open>vty_receive\<close>) and pulses the interrupt line when the ring goes from empty to
  non-empty. The guest drains the ring through the hypercall \<^verbatim>\<open>H_GET_TERM_CHAR\<close>
  (\<^verbatim>\<open>h_get_term_char\<close>, \<^verbatim>\<open>vty_getchars\<close>), which returns up to 16 bytes packed into two
  big-endian 64-bit words, and writes through \<^verbatim>\<open>H_PUT_TERM_CHAR\<close> (\<^verbatim>\<open>h_put_term_char\<close>,
  \<^verbatim>\<open>vty_putchars\<close>), which bypasses the ring and hands the bytes to the backend. Both
  hypercalls find their device with \<^verbatim>\<open>vty_lookup\<close>: by the \<^verbatim>\<open>reg\<close> the guest names or,
  for \<^verbatim>\<open>reg = 0\<close> with no exact match, the VTY with the lowest \<^verbatim>\<open>reg\<close>
  (\<^verbatim>\<open>spapr_vty_get_default\<close>). \<^verbatim>\<open>spapr_vty_create\<close> puts a terminal on the bus;
  \<^verbatim>\<open>spapr_vty_init\<close> refuses one without a backend. No function of the file is called
  by name from outside it: \<^verbatim>\<open>spapr_vty_register_types\<close> enters the two handlers into the
  hypercall table and the type \<^verbatim>\<open>spapr_vty_info\<close> into the object model, the class of the
  type holds \<^verbatim>\<open>spapr_vty_init\<close> and the property array, and \<^verbatim>\<open>spapr_vty_init\<close> hands the
  two callbacks to the backend.

  \<^bold>\<open>How the code is modelled.\<close> A C function is a HOL function of the same name that
  takes the state it touches and returns the state it leaves (explicit state passing).
  A C struct is a record; \<^verbatim>\<open>uint32_t\<close> is \<open>32 word\<close> and \<^verbatim>\<open>target_ulong\<close> is \<open>64 word\<close>,
  so cursor arithmetic wraps as in C. What makes a C function leave its normal control
  flow is a value of the type \<open>fault\<close>: the failed \<^verbatim>\<open>assert\<close> of \<^verbatim>\<open>vty_receive\<close>, the
  \<^verbatim>\<open>exit(1)\<close> of \<^verbatim>\<open>spapr_vty_init\<close>, the dereference of a null \<^verbatim>\<open>chardev\<close> or of one that
  points to no backend, a callback without its \<^verbatim>\<open>opaque\<close> pointer, the use of a bus child
  that is no VTY through a \<^verbatim>\<open>VIOsPAPRVTYDevice *\<close>, a read or a write behind the end of
  the memory a pointer names, and a call through a function pointer that holds a function
  of another kind. A pointer to a device is its position on the bus; the \<^verbatim>\<open>opaque\<close>
  pointer that \<^verbatim>\<open>spapr_vty_init\<close> hands to the backend with the callbacks is such a
  position. A pointer to a function is a tag of the type \<open>fnptr\<close>, one for each function
  whose address the file takes, and a call through it looks the tag up in the environment
  of that kind of call (\<open>call_init\<close>, \<open>call_can_read\<close>, \<open>call_read\<close>, \<open>call_hcall\<close>,
  \<open>call_class_init\<close>, \<open>call_module_init\<close>). The pointer \<^verbatim>\<open>chardev\<close> of a device is
  modelled twice. Device, bus and machine have a type parameter \<open>'chr\<close> for what the
  pointer stands for. In the theories up to \<open>VtySystem\<close> it is the backend itself, which
  is right as long as each backend has one device. In \<open>VtyStore\<close> it is an address into a
  store of backends, so that two devices can hold the same one, and the functions that
  follow the pointer are modelled again on this memory (suffix \<open>_ptr\<close>). Loops are
  recursive functions: \<open>vty_receive_loop\<close> by recursion on the bytes still to deliver,
  \<open>vty_receive_raw_loop\<close>, \<open>vty_getchars_loop\<close> and \<open>vty_getchars_raw_loop\<close> with
  termination proofs on \<open>size - i\<close> and \<open>max - n\<close>, \<open>get_default_loop\<close> by recursion on
  the children still to visit. No definition needs fuel, and every definition is
  executable. A run of a machine is the one function \<open>run_result\<close> of \<open>VtyPrelude\<close>
  applied to the step function of that machine: it runs the events of a list one after
  the other, collects the responses and stops at the first fault. \<open>spapr_run\<close>,
  \<open>qemu_run\<close>, \<open>mem_run\<close>, \<open>vty_run\<close> and the runs of the two specifications are
  abbreviations of it.

  \<^bold>\<open>The theories\<close>, in the order of their imports.
  \<^item> \<open>VtyPrelude\<close>: machine types, \<open>fault\<close> and results \<open>fault + 'a\<close> with their bind, the
    tags \<open>fnptr\<close>, the fact collections \<open>vty_defs\<close> and \<open>vty_inv_intros\<close>, and the arithmetic of wrapping
    cursors modulo 16 on which every ring proof rests (16 divides \<open>2 ^ 32\<close>, so the slot
    index moves on by one also when a cursor wraps). Runs of a step function
    (\<open>run_result\<close>), the events of a run that satisfy a condition in the state they are
    run in (\<open>run_ok\<close>) and what a run asks of a specification (\<open>run_requests\<close>), with the
    lemmas every statement about a run is an instance of: a run under an invariant with
    progress returns (\<open>run_result_total\<close>), a simulation of steps is a simulation of
    runs (\<open>run_result_refines\<close>, and \<open>run_result_requests\<close> when a step answers to several
    or to no step of the specification), and a log that every step appends to holds the
    outputs of the run in order (\<open>run_result_log\<close>).
  \<^item> \<open>VtyRing\<close> (lines 6-70): the records \<open>VIOsPAPRDevice\<close> and
    \<open>VIOsPAPRVTYDevice\<close>, \<open>vty_can_receive\<close>, \<open>vty_receive\<close>, \<open>vty_getchars\<close>,
    \<open>vty_putchars\<close>, \<open>spapr_vty_init\<close>, and the invariant \<open>vty_inv\<close> (16 slots, at most
    16 bytes pending). \<open>vty_receive\<close> takes the batch as a list; \<open>vty_receive_raw\<close> is
    the same function with the memory behind \<^verbatim>\<open>buf\<close> and the signed \<^verbatim>\<open>size\<close> of the C
    signature, and \<open>vty_getchars_raw\<close> is \<open>vty_getchars\<close> storing through the pointer
    \<^verbatim>\<open>buf\<close>. Lemmas: each operation keeps the invariant and leaves the other fields
    alone; the exact condition under which the \<^verbatim>\<open>assert\<close> fails; the number of bytes
    \<open>vty_getchars\<close> returns; deliveries can be split and joined; the two forms of
    \<open>vty_receive\<close> agree for every size from 0 to the length of the memory, and what
    the C function does outside that range; \<open>vty_getchars_raw\<close> stays inside the
    caller's array exactly when the bytes taken fit it, as they do at the one call.
  \<^item> \<open>VtyQueue\<close>: the ring read as a list (\<open>vty_queue\<close>), the bounded FIFO queue with
    edge notification that the design document promises (\<open>vty_spec\<close>, \<open>spec_enqueue\<close>,
    \<open>spec_dequeue\<close>, \<open>spec_write_through\<close>), the abstraction \<open>vty_abs\<close> and the
    interface \<open>vty_op\<close> that the device and the specification both execute. Lemmas:
    \<open>vty_abs\<close> commutes with every operation and with every sequence of operations,
    faults included; bytes come out in the order they went in.
  \<^item> \<open>VtyWire\<close> (lines 92-93 and 120-121): the 16 bytes of a call as two big-endian
    registers, \<open>wire_bytes\<close> and \<open>wire_words\<close> over \<open>cpu_to_be64\<close> and \<open>be64_to_cpu\<close>.
    Lemmas: the bits of each byte and of each word, both round trips, the byte order.
  \<^item> \<open>VioBus\<close> (lines 160-210): the bus as the list of its children, VTYs and others,
    \<open>spapr_vty_get_default\<close> with its loop, \<open>vty_lookup\<close>. Lemmas: the loop returns the
    VTY of least \<open>reg\<close>, the first of several; the order in which \<open>vty_lookup\<close> resolves
    a \<open>reg\<close>; lookup depends only on kind and \<open>reg\<close> of the children (\<open>same_shape\<close>).
  \<^item> \<open>VtyHcall\<close> (lines 73-124): \<open>h_put_term_char\<close> and \<open>h_get_term_char\<close> on the
    machine \<open>sPAPREnvironment\<close>, with the argument array as a list of registers that the
    read handler overwrites in place, and the machine invariant \<open>spapr_inv\<close>. Lemmas:
    status and effect of each handler on every branch, the only fault that is left, and
    that both handlers keep the invariant and the shape of the bus.
  \<^item> \<open>VtyMachine\<close> (lines 126-133): \<open>spapr_vty_create\<close>, the buses that creation can
    build (\<open>built\<close>), the events that reach the file (\<open>event\<close>, \<open>spapr_step\<close>,
    \<open>spapr_run\<close>), the protocol of the backend (\<open>chr_may_deliver\<close>), the transition
    relation \<open>spapr_trans\<close> and \<open>reachable\<close>. Lemmas, by rule induction: every reachable
    state is well-formed, no allowed event fails the \<^verbatim>\<open>assert\<close>, a bus of VTYs never
    faults, lookup is stable.
  \<^item> \<open>VtyQom\<close> (lines 135-158 and 212-219): the property array, \<open>spapr_vty_class_init\<close>,
    \<open>spapr_vty_info\<close>, \<open>spapr_vty_register_types\<close> and the module initialiser
    \<open>spapr_vty_module\<close>; the tables they fill (\<open>QemuState\<close>) and the emulator's side of
    them: program start (\<open>module_call_init\<close>), dispatch of a hypercall by opcode
    (\<open>spapr_hypercall\<close>), creation of a device by the name of its type
    (\<open>qom_vty_create\<close>), delivery of host input through the callbacks a backend holds
    (\<open>qemu_chr_deliver\<close>), and the machine driven that way (\<open>qemu_step\<close>,
    \<open>qemu_run\<close>). Lemmas: what registration leaves in the tables and when its assertion
    fails; creation through the class is \<open>spapr_vty_create\<close>; every step through the
    tables is an allowed step of \<open>spapr_step\<close> or changes nothing, so the protocol that
    \<open>VtyMachine\<close> assumes of the backend (\<open>chr_may_deliver\<close>) is what the callbacks
    enforce; no call through a function pointer goes wrong (\<open>spapr_bound\<close>).
  \<^item> \<open>VtySystem\<close>: the design of the whole device as a program of its own, a registry of
    terminals with \<open>lookup\<close>, \<open>select_default\<close>, \<open>resolve_guest_address\<close>,
    \<open>spec_deliver\<close>, \<open>spec_write\<close> and \<open>spec_read\<close>, and the abstraction \<open>spapr_abs\<close>
    from machines to registries. Lemmas: \<open>spapr_abs\<close> commutes with lookup, with every
    step and with every run of a machine that has only VTYs on its bus.
  \<^item> \<open>VtyPointers\<close>: the map over the type parameter \<open>'chr\<close> (\<open>map_chardev\<close>,
    \<open>map_child\<close>, \<open>map_env\<close>), the pointers a bus holds (\<open>pointers\<close>) and the device that
    holds one (\<open>owner\<close>). Lemmas: the ring, the lookup, \<open>h_get_term_char\<close> and the
    delivery of host input commute with the map, since they never follow the pointer; on
    a bus with distinct pointers a change behind one pointer is a change of one device.
  \<^item> \<open>VtyStore\<close> (lines 49-98 and 126-133 again): the memory \<open>Memory\<close> of a machine
    whose devices hold addresses and of the backends at these addresses;
    \<open>vty_putchars_ptr\<close>, \<open>spapr_vty_init_ptr\<close>, \<open>spapr_vty_create_ptr\<close>,
    \<open>h_put_term_char_ptr\<close> and \<open>h_get_term_char_ptr\<close>; input at a backend (\<open>chr_input\<close>)
    and the machine on memory (\<open>mem_step\<close>, \<open>mem_run\<close>); the abstraction \<open>deref\<close> and
    the invariant \<open>unshared\<close>. Lemmas: on unshared memory every handler, every step and
    every run is, read through \<open>deref\<close>, the one of \<open>VtyQom\<close>; creation at a fresh
    address and every step keep the memory unshared; with two terminals on one backend
    the backend calls back the second and the first never receives. What the host is
    sent: \<open>written\<close> is the log of a backend and \<open>put_written\<close> what an event appends to
    it; after a run the log of each backend is the writes of the run to it in the order
    of the hypercalls, shared or not (\<open>mem_step_cases\<close> is the case analysis of a step
    that the lemmas on steps share).
  \<^item> \<open>VtyIndep\<close>: the device an event works on (\<open>event_target\<close>) and what it does to
    that device (\<open>vty_event\<close>). Lemmas: \<open>spapr_step\<close> is \<open>vty_event\<close> at the target of the
    event, stored back in place, and changes nothing when there is no target; the fields
    of the target that an event of each kind leaves alone (\<open>event_keeps\<close>: a delivery
    the backend and the read cursor, a write the whole ring and the interrupt line, a read
    everything but the read cursor); a step keeps the target of every event; events on
    different devices, and a write and a read or a delivery on one device, can be run in
    either order (\<open>independent\<close>).
  \<^item> This theory: the properties that need several components, from the delivery of a
    byte by the backend to the registers the guest reads, from program start to a run on
    memory, and from a run through the tables or on memory to the design: \<open>qemu_requests\<close>
    and \<open>mem_requests\<close> collect what a run asks of the design, \<open>qemu_replies\<close> and
    \<open>mem_replies\<close> what the emulator saw of it.

  \<^bold>\<open>Outside the source.\<close> The character backend, the interrupt line, the bus search
  \<^verbatim>\<open>spapr_vio_find_by_reg\<close>, the byte-order macros, the device framework
  (\<^verbatim>\<open>qdev_create\<close>, \<^verbatim>\<open>qdev_prop_set_chr\<close>, \<^verbatim>\<open>qdev_init_nofail\<close>), the object model
  (\<^verbatim>\<open>type_register_static\<close>, the class of a type), the hypercall table
  (\<^verbatim>\<open>spapr_register_hypercall\<close>, \<^verbatim>\<open>spapr_hypercall\<close>) and the module initialisers
  (\<^verbatim>\<open>type_init\<close>, \<^verbatim>\<open>module_call_init\<close>) are not in \<^verbatim>\<open>src/\<close>. They are modelled from their
  contracts, as small as the source needs them: the backend is the three handlers and the
  \<^verbatim>\<open>opaque\<close> pointer it was given and the log of the writes it was handed
  (\<open>chr_written\<close>), the interrupt line a
  counter of pulses (\<open>qirq\<close>), the bus search the first child with the \<open>reg\<close>, a new
  device a zeroed record at the end of the bus, the hypercall table an association list
  from opcodes to tags whose registration asserts that a slot is free or holds the same
  handler, the type table a list of type descriptions searched by name, the class of a
  type the empty class of the parent passed through the class initialiser.

  \<^bold>\<open>Bounds.\<close> The buffer size is the 16 of the source; nothing else is bounded. Cursors
  run over all of \<open>32 word\<close> and the proofs cover the wrap at \<open>2 ^ 32\<close>; the device
  \<open>vty_near_wrap\<close>, on which many properties are evaluated, has both cursors two steps
  before it. The counters \<^verbatim>\<open>i\<close> and \<^verbatim>\<open>n\<close> of the two loops and the parameters \<^verbatim>\<open>size\<close>,
  \<^verbatim>\<open>max\<close> and \<^verbatim>\<open>len\<close> are HOL integers where the C code has \<^verbatim>\<open>int\<close>: a counter is
  incremented only while it is below \<^verbatim>\<open>size\<close> or \<^verbatim>\<open>max\<close>, so no increment leaves the
  range of \<^verbatim>\<open>int\<close> (\<open>vty_getchars_loop_n\<close> gives the final count), and the one \<^verbatim>\<open>len\<close>
  the file passes on is at most 16. The bus has any length and any mix of children; the refinement of
  \<open>VtySystem\<close> and the absence of faults are for buses of VTYs, because on a bus with
  other devices the code can take one of them for a VTY (\<open>Bad_cast\<close>). The world of
  function pointers is closed: \<open>fnptr\<close> has a tag for each function of this file whose
  address is taken and for no other, so a table that holds a handler of another file
  cannot be written down. The store of \<open>VtyStore\<close> is a partial function on all natural
  numbers; the agreement of the machine on memory with the machine on values is for
  memories in which no backend is shared, and \<open>h_put_term_char_ptr_shared\<close> shows that
  it fails without that; the order of the writes in the log of a backend is proved for
  every memory, and \<open>mem_shared_order\<close> shows two writes through different terminals
  that do not commute on a shared backend. Two events commute when they return from the same state; nothing is
  claimed for an event that faults.

  \<^bold>\<open>Where the model stops and the C code goes on.\<close> A handler that uses a bus child
  that is no VTY as one stops with \<open>Bad_cast\<close>; the C code reads and writes the memory of
  the other device, and what follows depends on its layout. \<open>vty_putchars\<close> stops with
  \<open>Null_chardev\<close> where the C code passes a null pointer to \<^verbatim>\<open>qemu_chr_fe_write\<close>.
  Nothing is claimed of the C program after such a point. The type of \<^verbatim>\<open>reg\<close> and of the
  comparison in \<^verbatim>\<open>spapr_vio_find_by_reg\<close> is declared in \<^verbatim>\<open>hw/spapr_vio.h\<close>, which is
  not in \<^verbatim>\<open>src/\<close>; the model gives the field the type \<open>target_ulong\<close> of the register it
  is compared with, so that no address of the guest is truncated before the comparison.

  \<^bold>\<open>Not modelled.\<close> The expansion of \<^verbatim>\<open>DEFINE_SPAPR_PROPERTIES\<close> and the device-tree
  strings beyond their values (no code of the repository reads them). The message that
  \<^verbatim>\<open>spapr_vty_init\<close> prints before \<^verbatim>\<open>exit(1)\<close>. The return value of
  \<^verbatim>\<open>qemu_chr_fe_write\<close>, which the source ignores. The local array of
  \<open>h_get_term_char\<close> is a parameter of the handler, of any length; the C array has 16
  bytes, and the properties of the handler are stated for arrays of 16. Memory other than
  the backends: a device is a value at its position on the bus, and a pointer to it is
  that position. How bytes reach the
  host, how a pulse reaches the guest, how a hypercall is decoded
  from the registers of the CPU, and the test of the dispatcher that the guest is in
  supervisor state. Time and threads: events are run one after the other,
  as the single event loop of the emulator does.
\<close>

section \<open>What a run through the tables asks of the design\<close>

text \<open>
  An event of the emulator is a request to the design when it reaches a function of the
  file (\<open>qemu_request\<close>), and none otherwise; \<open>qemu_requests\<close> collects the requests of a
  run, each from the state in which its event is run. \<open>qemu_reply\<close> reads what the
  emulator sees of an event as the reply of the design: the status from the return value
  of the hypercall, the result of a read from the argument array, a delivery from an
  input that was taken.
\<close>

definition status_of :: "target_ulong \<Rightarrow> hstatus" where
  "status_of ret = (if ret = 0 then H_SUCCESS else H_PARAMETER)"

definition qemu_request :: "CharDriverState sPAPREnvironment \<Rightarrow> qemu_event \<Rightarrow> request list" where
  "qemu_request s e = (case direct_event s e of None \<Rightarrow> [] | Some ev \<Rightarrow> [abs_event ev])"

abbreviation qemu_requests ::
  "QemuState \<Rightarrow> CharDriverState sPAPREnvironment \<Rightarrow> qemu_event list \<Rightarrow> request list" where
  "qemu_requests q \<equiv> run_requests qemu_request (qemu_step q)"

fun qemu_reply :: "qemu_event \<Rightarrow> qemu_response \<Rightarrow> reply list" where
  "qemu_reply (Guest_hcall opcode stack args) (Hcall_ret ret args') =
     (if opcode = H_PUT_TERM_CHAR then [Write_done (status_of ret)]
      else if opcode = H_GET_TERM_CHAR
      then [Read_done (status_of ret)
              (if ret = 0 then Some (args' ! 0, args' ! 1, args' ! 2) else None)]
      else [])"
| "qemu_reply (Host_input sdev bs) (Input_taken n) = (if n = 0 then [] else [Delivery_done])"
| "qemu_reply (Guest_hcall opcode stack args) (Input_taken n) = []"
| "qemu_reply (Host_input sdev bs) (Hcall_ret ret args') = []"

abbreviation qemu_replies :: "qemu_event list \<Rightarrow> qemu_response list \<Rightarrow> reply list" where
  "qemu_replies es rs \<equiv> concat (map2 qemu_reply es rs)"

fun qemu_event_wf :: "qemu_event \<Rightarrow> bool" where
  "qemu_event_wf (Guest_hcall opcode stack args) =
     (length stack = 16 \<and> (opcode = H_GET_TERM_CHAR \<longrightarrow> 3 \<le> length args))"
| "qemu_event_wf (Host_input sdev bs) = True"

text \<open>
  The same for a run on memory, where input names the backend it arrives at:
  \<open>mem_request\<close> and \<open>mem_reply\<close> read an event of the store model through the device that
  holds the backend (\<open>value_event\<close>), and \<open>mem_event_wf\<close> asks that a device does.
\<close>

definition mem_request :: "Memory \<Rightarrow> mem_event \<Rightarrow> request list" where
  "mem_request m e = (case value_event m e of None \<Rightarrow> [] | Some ev \<Rightarrow> qemu_request (deref m) ev)"

abbreviation mem_requests :: "QemuState \<Rightarrow> Memory \<Rightarrow> mem_event list \<Rightarrow> request list" where
  "mem_requests q \<equiv> run_requests mem_request (mem_step q)"

definition mem_reply :: "Memory \<Rightarrow> mem_event \<Rightarrow> qemu_response \<Rightarrow> reply list" where
  "mem_reply m e r = (case value_event m e of None \<Rightarrow> [] | Some ev \<Rightarrow> qemu_reply ev r)"

abbreviation mem_replies :: "Memory \<Rightarrow> mem_event list \<Rightarrow> qemu_response list \<Rightarrow> reply list" where
  "mem_replies m es rs \<equiv> concat (map2 (mem_reply m) es rs)"

definition mem_event_wf :: "Memory \<Rightarrow> mem_event \<Rightarrow> bool" where
  "mem_event_wf m e = (case value_event m e of None \<Rightarrow> False | Some ev \<Rightarrow> qemu_event_wf ev)"

section \<open>Steps through the tables as steps of the design\<close>

lemma status_of_code [simp]: "status_of (hstatus_code st) = st"
  by (cases st) (simp_all add: status_of_def)

lemma hstatus_code_0 [simp]: "hstatus_code st = 0 \<longleftrightarrow> st = H_SUCCESS"
  by (cases st) simp_all

lemma qemu_event_wf_ok: "qemu_event_wf e \<Longrightarrow> event_ok e"
  by (cases e) simp_all

lemma direct_event_wf: "direct_event s e = Some ev \<Longrightarrow> qemu_event_wf e \<Longrightarrow> event_wf ev"
  by (cases e) (auto split: if_splits DeviceState.splits)

lemma qemu_reply_idle: "direct_event s e = None \<Longrightarrow> qemu_reply e (idle_response e) = []"
  by (cases e) (auto split: if_splits)

lemma qemu_reply_view:
  assumes "direct_event s e = Some ev" and "spapr_step s ev = Inr (r, s')"
  shows "qemu_reply e (qemu_view (event_args e) r) = [abs_response r]"
  using assms
  by (cases e)
     (auto simp: bind_result_eq_Inr_iff split: if_splits DeviceState.splits hstatus.splits)

lemma qemu_step_design:
  assumes "hcalls_registered q" and "spapr_inv s" and "spapr_bound s" and "vtys_only s"
    and "qemu_event_wf e"
  shows "\<exists>r s'. qemu_step q s e = Inr (r, s') \<and> reachable s s' \<and>
           spec_steps (spapr_abs s) (qemu_request s e) = Inr (qemu_reply e r, spapr_abs s')"
proof (cases "direct_event s e")
  case None
  with assms show ?thesis
    by (simp add: qemu_step_eq qemu_request_def qemu_reply_idle reachable.start)
next
  case (Some ev)
  from this assms(5) have al: "allowed s ev" and wf: "event_wf ev"
    by (auto intro: direct_event_allowed direct_event_wf qemu_event_wf_ok)
  with assms(2,4) obtain r s' where step: "spapr_step s ev = Inr (r, s')"
    by (cases "spapr_step s ev") (auto dest: spapr_step_fault)
  with al have "reachable s s'"
    by (auto intro: reachable_step reachable.start)
  moreover from spapr_step_abs [OF assms(2,4) al wf] step
  have "spec_step (spapr_abs s) (abs_event ev) = Inr (abs_response r, spapr_abs s')"
    by simp
  ultimately show ?thesis
    using assms(1,3) Some step
    by (simp add: qemu_step_eq qemu_request_def qemu_reply_view del: spec_step.simps)
qed

lemma mem_step_design:
  assumes "hcalls_registered q" and "mem_inv m" and "vtys_only (deref m)" and "mem_event_wf m e"
  shows "\<exists>r m'. mem_step q m e = Inr (r, m') \<and> mem_inv m' \<and> vtys_only (deref m') \<and>
           spec_steps (spapr_abs (deref m)) (mem_request m e) =
             Inr (mem_reply m e r, spapr_abs (deref m'))"
proof -
  from assms(4) obtain ev where ev: "value_event m e = Some ev" and wf: "qemu_event_wf ev"
    by (auto simp: mem_event_wf_def split: option.splits)
  from assms(2) have un: "unshared m" and inv: "spapr_inv (deref m)" and bound: "spapr_bound (deref m)"
    by (simp_all add: mem_inv_def)
  from qemu_step_design [OF assms(1) inv bound assms(3) wf]
  obtain r s' where step: "qemu_step q (deref m) ev = Inr (r, s')"
    and reach: "reachable (deref m) s'"
    and spec: "spec_steps (spapr_abs (deref m)) (qemu_request (deref m) ev) =
      Inr (qemu_reply ev r, spapr_abs s')"
    by auto
  from mem_step_deref [OF un ev, of q] step
  obtain m' where m': "mem_step q m e = Inr (r, m')" and s': "s' = deref m'"
    by (cases "mem_step q m e") (auto simp: deref_result_def)
  from reach inv bound assms(3) have "spapr_inv s'" and "spapr_bound s'" and "vtys_only s'"
    by (auto dest: reachable_inv reachable_bound reachable_vtys_only)
  with m' s' un spec ev show ?thesis
    by (auto simp: mem_inv_def mem_request_def mem_reply_def dest: mem_step_unshared)
qed

section \<open>From the backend to the guest\<close>

text \<open>
  C5. Round trip from the host to the guest: bytes delivered to a VTY whose ring is empty,
  up to 16 of them, are what the next \<open>h_get_term_char\<close> on that VTY returns: the
  count in the first result register, and in the other two the same bytes in the same
  order, big-endian, padded with zeros.
\<close>

theorem deliver_get_roundtrip:
  assumes inv: "spapr_inv spapr" and look: "vty_lookup spapr (args ! 0) = Some sdev"
    and vty: "vio_bus spapr ! sdev = Spapr_vty dev" and empty: "vty_count dev = 0"
    and len: "length bs \<le> 16" and stack: "length stack = 16"
  shows "\<exists>char0_7 char8_15 s'.
           spapr_run spapr [Chr_read sdev bs, Hcall_get stack args] =
             Inr ([Delivered,
                   Get_done H_SUCCESS (args[0 := of_nat (length bs), 1 := char0_7, 2 := char8_15])],
                  s') \<and>
           wire_bytes char0_7 char8_15 = bs @ replicate (16 - length bs) 0"
proof -
  from look have bound: "sdev < length (vio_bus spapr)"
    by (rule vty_lookup_bound)
  with inv vty have "vty_inv dev"
    by (auto dest: spapr_inv_nth simp: vty_ready_def)
  with empty len obtain dev' where r: "vty_receive dev bs = Inr dev'"
    using vty_receive_fits [of dev bs] by (auto simp: is_ok_iff)
  from empty have "vty_queue dev = []"
    by (simp add: vty_queue_def)
  with vty_receive_Inr(1) [OF r \<open>vty_inv dev\<close>] have q: "vty_queue dev' = bs"
    by simp
  then have c: "vty_count dev' = length bs"
    by (simp add: length_vty_queue [symmetric] del: length_vty_queue)
  let ?s1 = "store_vty spapr sdev dev'"
  from r have "reg dev' = reg dev"
    by (simp add: vty_receive_frame)
  with bound vty have "same_shape (vio_bus spapr) (vio_bus ?s1)"
    by (rule same_shape_store)
  with look have look1: "vty_lookup ?s1 (args ! 0) = Some sdev"
    by (simp add: vty_lookup_same_shape)
  from bound have vty1: "vio_bus ?s1 ! sdev = Spapr_vty dev'"
    by simp
  obtain char0_7 char8_15 where w: "wire_words (bs @ replicate (16 - length bs) 0) = (char0_7, char8_15)"
    by (cases "wire_words (bs @ replicate (16 - length bs) 0)")
  from len have "length (bs @ replicate (16 - length bs) (0 :: u8)) = 16"
    by simp
  from wire_bytes_wire_words [OF this] w
  have "wire_bytes char0_7 char8_15 = bs @ replicate (16 - length bs) 0"
    by simp
  moreover from vty r len q c w
  have "spapr_run spapr [Chr_read sdev bs, Hcall_get stack args] =
      Inr ([Delivered, Get_done H_SUCCESS (args[0 := of_nat (length bs), 1 := char0_7, 2 := char8_15])],
           store_vty ?s1 sdev (fst (vty_getchars dev' stack 16)))"
    by (simp add: h_get_term_char_vty [OF look1 vty1 stack] min_def)
  ultimately show ?thesis
    by blast
qed

theorem deliver_get_roundtrip_witness:
  "\<exists>s'. spapr_run spapr_wrap
           [Chr_read 0 [0x41, 0x42, 0x43, 0x44, 0x45, 0x46, 0x47, 0x48,
                        0x49, 0x4A, 0x4B, 0x4C, 0x4D, 0x4E, 0x4F, 0x50],
            Hcall_get (replicate 16 0) [0, 0, 0]] =
         Inr ([Delivered, Get_done H_SUCCESS [16, 0x4142434445464748, 0x494A4B4C4D4E4F50]], s')"
proof -
  let ?bs = "[0x41, 0x42, 0x43, 0x44, 0x45, 0x46, 0x47, 0x48,
              0x49, 0x4A, 0x4B, 0x4C, 0x4D, 0x4E, 0x4F, 0x50] :: u8 list"
  from deliver_get_roundtrip [of spapr_wrap "[0, 0, 0]" 0 vty_near_wrap ?bs "replicate 16 0"]
  obtain char0_7 char8_15 s' where
    run: "spapr_run spapr_wrap [Chr_read 0 ?bs, Hcall_get (replicate 16 0) [0, 0, 0]] =
      Inr ([Delivered, Get_done H_SUCCESS [16, char0_7, char8_15]], s')"
    and bytes: "wire_bytes char0_7 char8_15 = ?bs"
    by auto
  from bytes have "(char0_7, char8_15) = wire_words ?bs"
    using wire_words_wire_bytes [of char0_7 char8_15] by (simp only:)
  moreover have "wire_words ?bs = (0x4142434445464748, 0x494A4B4C4D4E4F50)"
    by (simp add: wire_words_def be64_to_cpu_def)
  ultimately show ?thesis
    using run by simp
qed

text \<open>
  C33. What the guest writes is not what it reads: an \<open>h_put_term_char\<close> that returns,
  with whatever status, leaves the status and the result registers of every later
  \<open>h_get_term_char\<close> as they would have been without it.
\<close>

theorem put_not_reflected:
  assumes inv: "spapr_inv spapr" and stack: "length stack = 16"
    and put: "h_put_term_char spapr pargs = Inr (st, spapr')"
  shows "get_view (h_get_term_char spapr' stack args) = get_view (h_get_term_char spapr stack args)"
  using put
proof (cases rule: h_put_term_char_cases)
  case parameter
  then show ?thesis by simp
next
  case (success sdev dev dev')
  from success(2) have "sdev < length (vio_bus spapr)"
    by (rule vty_lookup_bound)
  moreover have "reg dev' = reg dev" and "vty_queue dev' = vty_queue dev"
    using vty_putchars_frame [OF success(5)] vty_queue_cong [of dev' dev] by simp_all
  ultimately show ?thesis
    using stack success(3,6) by (simp add: h_get_term_char_store_visible)
qed

theorem put_not_reflected_witness:
  "\<exists>st s'. h_put_term_char spapr_wrap [0, 2, 0x4849000000000000, 0] = Inr (st, s') \<and>
           get_view (h_get_term_char s' (replicate 16 0) [0, 0, 0]) =
           get_view (h_get_term_char spapr_wrap (replicate 16 0) [0, 0, 0])"
proof -
  obtain st s' where put: "h_put_term_char spapr_wrap [0, 2, 0x4849000000000000, 0] = Inr (st, s')"
    using h_put_term_char_fault [of spapr_wrap "[0, 2, 0x4849000000000000, 0]"]
    by (cases "h_put_term_char spapr_wrap [0, 2, 0x4849000000000000, 0]") auto
  from put_not_reflected [OF _ _ put, of "replicate 16 0" "[0, 0, 0]"] put show ?thesis
    by simp
qed

section \<open>The contract of the backend\<close>

text \<open>
  C34. \<open>vty_can_receive\<close> answers for one byte only. A ring with a free slot reports
  room, and a batch that is larger than the free part of the ring then still stops at
  the \<^verbatim>\<open>assert\<close> of \<open>vty_receive\<close>: the backend has to deliver no more bytes than the
  number \<open>vty_can_receive\<close> returned.
\<close>

theorem can_receive_not_sufficient:
  assumes "vty_inv dev" and "vty_count dev < 16" and "16 < vty_count dev + length bs"
  shows "vty_can_receive dev = 1 \<and> \<not> chr_may_deliver dev bs \<and>
         vty_receive dev bs = Inl Assert_failed"
  using assms chr_may_deliver_room [of dev bs]
  by (auto simp: vty_can_receive_inv vty_receive_overflow)

theorem can_receive_not_sufficient_witness:
  "vty_can_receive (vty_near_wrap\<lparr>vin := 0xD\<rparr>) = 1 \<and>
   vty_receive (vty_near_wrap\<lparr>vin := 0xD\<rparr>) [1, 2] = Inl Assert_failed"
  using can_receive_not_sufficient [of "vty_near_wrap\<lparr>vin := 0xD\<rparr>" "[1, 2]"]
  by (simp add: vty_inv_def vty_count_def)

section \<open>From program start to a run on memory\<close>

text \<open>
  C14. The whole program never faults on a machine of terminals: when the module
  initialisers have run, the terminals have been created one after the other, each on a
  backend of its own, and the bus holds nothing but terminals, every sequence of
  hypercalls, whatever their opcodes, and of input at backends that terminals hold runs to
  its end on memory, with one response for each event, and leaves a memory in which no
  backend is shared, every ring is within its bounds and every backend calls back the
  terminal that holds it.
\<close>

theorem mem_run_total:
  assumes "module_call_init (spapr_vty_module qemu_empty) = Inr q" and "built_mem m"
    and "list_all is_vty (vio_bus (m_spapr m))" and "list_all (mem_event_ok m) es"
  shows "\<exists>rs m'. mem_run q m es = Inr (rs, m') \<and> length rs = length es \<and> mem_inv m'"
proof -
  let ?I = "\<lambda>m. mem_inv m \<and> vtys_only (deref m)"
  from assms(1) have "hcalls_registered q"
    by (auto simp: module_call_init_boot)
  then have "\<exists>r m2. mem_step q m1 e = Inr (r, m2) \<and> ?I m2" if "?I m1" and "mem_event_ok m1 e"
    for m1 e
    using that mem_step_progress [of q m1 e] by simp
  moreover from assms(2,3) have "?I m"
    by (simp add: built_mem_inv vtys_only_def list_all_iff)
  moreover from assms(4) have "run_ok mem_event_ok (mem_step q) m es"
    by (rule run_ok_stable [rotated]) (rule mem_step_events(2))
  ultimately show ?thesis
    using run_result_total [where I = ?I and P = mem_event_ok and step = "mem_step q", of m es]
    by auto
qed

theorem mem_run_total_witness:
  "\<exists>rs m'. mem_run qemu_booted mem_two
      [Mem_hcall 0x99 (replicate 16 0) [], Backend_input 1 [0x41, 0x42],
       Mem_hcall 0x54 (replicate 16 0) [0, 0, 0]] = Inr (rs, m') \<and>
     length rs = length [Mem_hcall 0x99 (replicate 16 0) [], Backend_input 1 [0x41, 0x42],
       Mem_hcall 0x54 (replicate 16 0) [0, 0, 0]] \<and> mem_inv m'"
proof (rule mem_run_total)
  show "module_call_init (spapr_vty_module qemu_empty) = Inr qemu_booted"
    by (rule module_call_init_boot)
  show "built_mem mem_two"
    by (rule built_mem_two)
qed (simp_all add: mem_two_def owner_def)

section \<open>From the tables to the design\<close>

text \<open>
  C11. Driven through its tables, the machine implements the design: on a well-formed
  machine with only VTYs on its bus, both handlers registered and the backends bound,
  every sequence of hypercalls and of host input runs to its end, and the design, asked
  what the run asked of the file, gives the replies the emulator saw and ends in the
  registry that the final machine is. Hypercalls with other opcodes and input that the
  ring has no room for ask nothing of the design and change nothing.
\<close>

theorem qemu_run_implements_design:
  assumes "hcalls_registered q" and "spapr_inv s" and "spapr_bound s" and "vtys_only s"
    and "list_all qemu_event_wf es"
  shows "\<exists>rs s'. qemu_run q s es = Inr (rs, s') \<and>
           spec_steps (spapr_abs s) (qemu_requests q s es) = Inr (qemu_replies es rs, spapr_abs s')"
proof -
  let ?I = "\<lambda>s. spapr_inv s \<and> spapr_bound s \<and> vtys_only s"
  have "\<exists>r s2. qemu_step q s1 e = Inr (r, s2) \<and> ?I s2 \<and>
      spec_steps (spapr_abs s1) (qemu_request s1 e) = Inr (qemu_reply e r, spapr_abs s2)"
    if "?I s1" and "qemu_event_wf e" for s1 e
    using that assms(1) qemu_step_design [of q s1 e]
    by (auto dest: reachable_inv reachable_bound reachable_vtys_only)
  moreover from assms(5) have "run_ok (\<lambda>s. qemu_event_wf) (qemu_step q) s es"
    by (rule run_ok_list_all)
  ultimately show ?thesis
    using assms(2-4)
      run_result_requests [where I = ?I and P = "\<lambda>s. qemu_event_wf" and step = "qemu_step q"
        and astep = spec_step and ab = spapr_abs and req = qemu_request and rep = qemu_reply, of s es]
    by auto
qed

theorem qemu_run_implements_design_witness:
  "\<exists>rs s'. qemu_run qemu_booted spapr_wrap
      [Host_input 0 [0x48, 0x49], Guest_hcall 0x99 (replicate 16 0) [],
       Guest_hcall 0x54 (replicate 16 0) [0, 0, 0]] = Inr (rs, s') \<and>
     spec_steps (spapr_abs spapr_wrap) (qemu_requests qemu_booted spapr_wrap
       [Host_input 0 [0x48, 0x49], Guest_hcall 0x99 (replicate 16 0) [],
        Guest_hcall 0x54 (replicate 16 0) [0, 0, 0]]) =
       Inr (qemu_replies [Host_input 0 [0x48, 0x49], Guest_hcall 0x99 (replicate 16 0) [],
              Guest_hcall 0x54 (replicate 16 0) [0, 0, 0]] rs, spapr_abs s')"
  by (rule qemu_run_implements_design) simp_all

text \<open>
  C13. From memory to the design in one step: when the module initialisers have run and
  the machine has been built with one backend for each terminal, every sequence of
  hypercalls and of input at backends that terminals hold runs to its end on memory, and
  the design, asked what the run asked of the file, gives the replies the emulator saw
  and ends in the registry that the final memory holds. The run keeps the backends
  unshared and every ring within its bounds.
\<close>

theorem mem_run_implements_design:
  assumes "module_call_init (spapr_vty_module qemu_empty) = Inr q" and "built_mem m"
    and "list_all is_vty (vio_bus (m_spapr m))" and "list_all (mem_event_wf m) es"
  shows "\<exists>rs m'. mem_run q m es = Inr (rs, m') \<and> mem_inv m' \<and>
           spec_steps (spapr_abs (deref m)) (mem_requests q m es) =
             Inr (mem_replies m es rs, spapr_abs (deref m'))"
proof -
  let ?I = "\<lambda>m'. mem_inv m' \<and> vtys_only (deref m') \<and> value_event m' = value_event m"
  from assms(1) have "hcalls_registered q"
    by (auto simp: module_call_init_boot)
  then have "\<exists>r m2. mem_step q m1 e = Inr (r, m2) \<and> ?I m2 \<and>
      spec_steps (spapr_abs (deref m1)) (mem_request m1 e) =
        Inr (mem_reply m e r, spapr_abs (deref m2))"
    if "?I m1" and "mem_event_wf m e" for m1 e
    using that mem_step_design [of q m1 e] mem_step_events(1) [of q m1 e]
    by (auto simp: mem_event_wf_def mem_reply_def)
  moreover from assms(2,3) have "?I m"
    by (simp add: built_mem_inv vtys_only_def list_all_iff)
  moreover from assms(4) have "run_ok (\<lambda>m'. mem_event_wf m) (mem_step q) m es"
    by (rule run_ok_list_all)
  ultimately show ?thesis
    using run_result_requests [where I = ?I and P = "\<lambda>m'. mem_event_wf m" and step = "mem_step q"
        and astep = spec_step and ab = "\<lambda>m. spapr_abs (deref m)" and req = mem_request
        and rep = "mem_reply m", of m es]
    by auto
qed

theorem mem_run_implements_design_witness:
  "\<exists>rs m'. mem_run qemu_booted mem_two
      [Backend_input 1 [0x48, 0x49], Mem_hcall 0x99 (replicate 16 0) [],
       Mem_hcall 0x54 (replicate 16 0) [0x30000001, 0, 0]] = Inr (rs, m') \<and> mem_inv m' \<and>
     spec_steps (spapr_abs (deref mem_two)) (mem_requests qemu_booted mem_two
       [Backend_input 1 [0x48, 0x49], Mem_hcall 0x99 (replicate 16 0) [],
        Mem_hcall 0x54 (replicate 16 0) [0x30000001, 0, 0]]) =
       Inr (mem_replies mem_two [Backend_input 1 [0x48, 0x49], Mem_hcall 0x99 (replicate 16 0) [],
              Mem_hcall 0x54 (replicate 16 0) [0x30000001, 0, 0]] rs, spapr_abs (deref m'))"
proof (rule mem_run_implements_design)
  show "module_call_init (spapr_vty_module qemu_empty) = Inr qemu_booted"
    by (rule module_call_init_boot)
  show "built_mem mem_two"
    by (rule built_mem_two)
qed (simp_all add: mem_two_def owner_def mem_event_wf_def)

end
